(* ===== verification/Prelude.thy ===== *)
theory Prelude
  imports Main "HOL-Library.Word" "HOL-Library.Finite_Map" "HOL-Library.Char_ord"
    "HOL-Library.List_Lexorder" "HOL-Library.Sublist"
begin

unbundle bit_operations_syntax

text \<open>
  Shared vocabulary of the development: the machine types of the Rust sources, bytes
  against characters, I/O errors, and the generic facts on lists, finite maps and
  words that the component theories use. A Rust \<open>String\<close> is a \<open>string\<close> whose characters
  are the bytes of its UTF-8 encoding, so \<open>length\<close> is \<open>str::len\<close>; a \<open>[u8]\<close> is a list of
  8-bit words.
\<close>

section \<open>Machine types\<close>

type_synonym u8 = "8 word"
type_synonym u16 = "16 word"
type_synonym u32 = "32 word"
type_synonym u64 = "64 word"
type_synonym bytes = "u8 list"

text \<open>Collections of rewrite rules the component theories add to.\<close>

named_theorems store_simps \<open>lookups after an operation of the state store\<close>
named_theorems wire_simps \<open>encoders and decoders of the TFTP wire format\<close>
named_theorems model_defs \<open>definitions unfolded to evaluate a closed instance\<close>

section \<open>Bytes and characters\<close>

definition byte_of_char :: "char \<Rightarrow> u8" where
  "byte_of_char c = of_nat (of_char c)"

definition char_of_byte :: "u8 \<Rightarrow> char" where
  "char_of_byte b = char_of (unat b)"

definition as_bytes :: "string \<Rightarrow> bytes" where
  "as_bytes s = map byte_of_char s"

definition str_of_bytes :: "bytes \<Rightarrow> string" where
  "str_of_bytes bs = map char_of_byte bs"

lemma of_char_less_256 [simp]: "(of_char c :: nat) < 256"
  using range_nat_of_char by auto

lemma unat_byte_of_char [simp]: "unat (byte_of_char c) = of_char c"
  by (simp add: byte_of_char_def unat_of_nat)

lemma char_of_byte_of_char [simp]: "char_of_byte (byte_of_char c) = c"
  by (simp add: char_of_byte_def)

lemma byte_of_char_of_byte [simp]: "byte_of_char (char_of_byte b) = b"
proof -
  have "unat b < 2 ^ LENGTH(8)" by (rule unsigned_less)
  then have "unat b < 256" by simp
  then show ?thesis by (simp add: byte_of_char_def char_of_byte_def)
qed

lemma byte_of_char_eq_iff [simp]: "byte_of_char c = byte_of_char d \<longleftrightarrow> c = d"
  by (metis char_of_byte_of_char)

lemma str_of_as_bytes [simp]: "str_of_bytes (as_bytes s) = s"
  by (simp add: str_of_bytes_def as_bytes_def comp_def)

lemma as_bytes_of_str [simp]: "as_bytes (str_of_bytes bs) = bs"
  by (simp add: str_of_bytes_def as_bytes_def comp_def)

lemma length_as_bytes [simp]: "length (as_bytes s) = length s"
  by (simp add: as_bytes_def)

lemma length_str_of_bytes [simp]: "length (str_of_bytes bs) = length bs"
  by (simp add: str_of_bytes_def)

lemma as_bytes_append [simp]: "as_bytes (s @ t) = as_bytes s @ as_bytes t"
  by (simp add: as_bytes_def)

lemma as_bytes_eq_iff [simp]: "as_bytes s = as_bytes t \<longleftrightarrow> s = t"
  by (metis str_of_as_bytes)

lemma as_bytes_Nil [simp]: "as_bytes [] = []" and str_of_bytes_Nil [simp]: "str_of_bytes [] = []"
  by (simp_all add: as_bytes_def str_of_bytes_def)

lemma zero_in_as_bytes [simp]: "0 \<in> set (as_bytes s) \<longleftrightarrow> CHR 0x00 \<in> set s"
proof -
  have "byte_of_char c = 0 \<longleftrightarrow> c = CHR 0x00" for c
    using byte_of_char_eq_iff [of c "CHR 0x00"] by (simp add: byte_of_char_def)
  then show ?thesis by (force simp: as_bytes_def image_iff)
qed

section \<open>Errors of the operating system\<close>

datatype io_error =
    NotFound | PermissionDenied | AlreadyExists | TimedOut | InvalidInput | InvalidData
  | WriteZero | OtherIo

text \<open>A fallible operation is a sum: \<open>Inl\<close> the error, \<open>Inr\<close> the value.\<close>

type_synonym 'a io = "io_error + 'a"

definition is_ok :: "'e + 'a \<Rightarrow> bool" where
  "is_ok r = (case r of Inl _ \<Rightarrow> False | Inr _ \<Rightarrow> True)"

lemma is_ok_simps [simp]: "is_ok (Inl e) = False" "is_ok (Inr x) = True"
  by (simp_all add: is_ok_def)

lemma is_ok_iff: "is_ok r \<longleftrightarrow> (\<exists>x. r = Inr x)"
  by (cases r) auto

definition ok_option :: "'e + 'a \<Rightarrow> 'a option" where
  "ok_option r = (case r of Inl _ \<Rightarrow> None | Inr x \<Rightarrow> Some x)"

lemma ok_option_simps [simp]: "ok_option (Inl e) = None" "ok_option (Inr x) = Some x"
  by (simp_all add: ok_option_def)

lemma ok_option_Some [simp]: "ok_option r = Some x \<longleftrightarrow> r = Inr x"
  by (cases r) auto

section \<open>Lists\<close>

lemma take_drop_append_step:
  "k \<le> length (drop p xs) \<Longrightarrow> take k (drop p xs) @ drop (p + k) xs = drop p xs"
  by (metis add.commute append_take_drop_id drop_drop)

lemma find_Some_in: "List.find P xs = Some x \<Longrightarrow> x \<in> set xs \<and> P x"
  by (auto simp: find_Some_iff)

lemma find_None_all: "List.find P xs = None \<Longrightarrow> x \<in> set xs \<Longrightarrow> \<not> P x"
  by (auto simp: find_None_iff)

section \<open>Finite maps\<close>

definition fm_size :: "('k, 'v) fmap \<Rightarrow> nat" where
  "fm_size m = fcard (fmdom m)"

lemma fm_size_empty [simp]: "fm_size fmempty = 0"
  by (simp add: fm_size_def)

lemma fm_size_upd: "fm_size (fmupd k v m) = (if fmlookup m k = None then Suc (fm_size m) else fm_size m)"
proof (cases "k |\<in>| fmdom m")
  case True
  then have "finsert k (fmdom m) = fmdom m" by auto
  with True show ?thesis by (auto simp: fm_size_def)
next
  case False
  then show ?thesis
    by (auto simp: fm_size_def fcard_finsert_disjoint dest: fmdom_notD)
qed

lemma fm_size_filter: "fm_size (fmfilter P m) \<le> fm_size m"
  unfolding fm_size_def by (rule fcard_mono) auto

section \<open>Big-endian integers\<close>

definition to_be16 :: "u16 \<Rightarrow> bytes" where
  "to_be16 w = [of_nat (unat w div 256), of_nat (unat w mod 256)]"

definition from_be16 :: "u8 \<Rightarrow> u8 \<Rightarrow> u16" where
  "from_be16 a b = of_nat (256 * unat a + unat b)"

lemma unat_u16_less: "unat (w :: u16) < 65536"
proof -
  have "unat w < 2 ^ LENGTH(16)" by (rule unsigned_less)
  then show ?thesis by simp
qed

lemma unat_u8_less: "unat (b :: u8) < 256"
proof -
  have "unat b < 2 ^ LENGTH(8)" by (rule unsigned_less)
  then show ?thesis by simp
qed

lemma from_to_be16 [simp]:
  "from_be16 (of_nat (unat w div 256)) (of_nat (unat w mod 256)) = w"
proof -
  have "unat w div 256 < 256" using unat_u16_less [of w] by simp
  then have "unat (of_nat (unat w div 256) :: u8) = unat w div 256"
    and "unat (of_nat (unat w mod 256) :: u8) = unat w mod 256"
    by (simp_all add: unat_of_nat)
  then show ?thesis by (simp add: from_be16_def del: of_nat_add of_nat_mult)
qed

lemma length_to_be16 [simp]: "length (to_be16 w) = 2"
  by (simp add: to_be16_def)

section \<open>Iterator methods\<close>

text \<open>\<open>Iterator::position\<close>, and the two loops that split a packet at its NUL bytes and
  read the parts two by two.\<close>

fun position :: "('a \<Rightarrow> bool) \<Rightarrow> 'a list \<Rightarrow> nat option" where
  "position P [] = None"
| "position P (x # xs) = (if P x then Some 0 else map_option Suc (position P xs))"

fun nul_parts :: "bytes \<Rightarrow> bytes \<Rightarrow> bytes list" where
  "nul_parts current [] = []"
| "nul_parts current (b # bs) =
     (if b = 0 then current # nul_parts [] bs else nul_parts (current @ [b]) bs)"

fun pair_up :: "'a list \<Rightarrow> ('a \<times> 'a) list" where
  "pair_up (a # b # rest) = (a, b) # pair_up rest"
| "pair_up _ = []"

lemma position_append_hit:
  "\<forall>x \<in> set xs. \<not> P x \<Longrightarrow> P y \<Longrightarrow> position P (xs @ y # ys) = Some (length xs)"
  by (induction xs) auto

lemma nul_parts_nul_free:
  "0 \<notin> set xs \<Longrightarrow> nul_parts current (xs @ 0 # rest) = (current @ xs) # nul_parts [] rest"
  by (induction xs arbitrary: current) auto

end
