(* ===== verification/Rust_Str.thy ===== *)
theory Rust_Str
  imports Prelude
begin

text \<open>
  The operations of Rust's \<open>str\<close>, \<open>String\<close> and integer types that the sources call, on
  strings in their UTF-8 encoding: ASCII case mapping, \<open>trim\<close>, \<open>replace\<close>, decimal and
  hexadecimal display, \<open>parse\<close> of unsigned integers, UTF-8 validation and lossy decoding.
  They model the standard library, so they have no entry under \<open>src/\<close>.
\<close>

section \<open>Case mapping and replacement\<close>

definition is_ascii_uppercase :: "char \<Rightarrow> bool" where
  "is_ascii_uppercase c = (65 \<le> (of_char c :: nat) \<and> (of_char c :: nat) \<le> 90)"

definition is_ascii_digit :: "char \<Rightarrow> bool" where
  "is_ascii_digit c = (48 \<le> (of_char c :: nat) \<and> (of_char c :: nat) \<le> 57)"

definition is_ascii_hexdigit :: "char \<Rightarrow> bool" where
  "is_ascii_hexdigit c =
     (is_ascii_digit c \<or> 65 \<le> (of_char c :: nat) \<and> (of_char c :: nat) \<le> 70
      \<or> 97 \<le> (of_char c :: nat) \<and> (of_char c :: nat) \<le> 102)"

definition ascii_lower :: "char \<Rightarrow> char" where
  "ascii_lower c = (if is_ascii_uppercase c then char_of ((of_char c :: nat) + 32) else c)"

definition to_ascii_lowercase :: "string \<Rightarrow> string" where
  "to_ascii_lowercase s = map ascii_lower s"

definition eq_ignore_ascii_case :: "string \<Rightarrow> string \<Rightarrow> bool" where
  "eq_ignore_ascii_case s t = (to_ascii_lowercase s = to_ascii_lowercase t)"

definition replace_char :: "char \<Rightarrow> char \<Rightarrow> string \<Rightarrow> string" where
  "replace_char a b s = map (\<lambda>c. if c = a then b else c) s"

text \<open>
  \<open>str::to_lowercase\<close> is Unicode-aware. The sources only compare its result, or a
  suffix of it, with ASCII literals. For that, one non-ASCII character matters: the
  Kelvin sign (bytes E2 84 AA) lowercases to the letter k. Every other non-ASCII
  character lowercases to a string that ends in a non-ASCII byte, as it does here.
\<close>

fun to_lowercase :: "string \<Rightarrow> string" where
  "to_lowercase [] = []"
| "to_lowercase (c # s) =
     (case (c, s) of
        (a, b # d # t) \<Rightarrow>
          if a = CHR 0xE2 \<and> b = CHR 0x84 \<and> d = CHR 0xAA then CHR ''k'' # to_lowercase t
          else ascii_lower c # to_lowercase s
      | _ \<Rightarrow> ascii_lower c # to_lowercase s)"

lemma to_lowercase_plain: "CHR 0xE2 \<notin> set s \<Longrightarrow> to_lowercase s = map ascii_lower s"
proof (induction s)
  case (Cons c s)
  then have "c \<noteq> CHR 0xE2" "to_lowercase s = map ascii_lower s" by auto
  then show ?case by (simp only: to_lowercase.simps prod.case list.map simp_thms if_False split: list.split)
qed simp

lemma of_char_ascii_lower:
  "(of_char (ascii_lower c) :: nat) = (if is_ascii_uppercase c then of_char c + 32 else of_char c)"
  by (auto simp: ascii_lower_def is_ascii_uppercase_def)

lemma ascii_lower_idem [simp]: "ascii_lower (ascii_lower c) = ascii_lower c"
proof -
  have "\<not> is_ascii_uppercase (ascii_lower c)"
    by (auto simp: is_ascii_uppercase_def of_char_ascii_lower)
  then show ?thesis by (simp add: ascii_lower_def [of "ascii_lower c"])
qed

lemma ascii_lower_eq_iff:
  assumes "\<not> is_ascii_uppercase d" "\<not> (97 \<le> (of_char d :: nat) \<and> (of_char d :: nat) \<le> 122)"
  shows "ascii_lower c = d \<longleftrightarrow> c = d"
proof
  assume "ascii_lower c = d"
  then have eq: "(of_char (ascii_lower c) :: nat) = of_char d" by simp
  show "c = d"
  proof (cases "is_ascii_uppercase c")
    case True
    then have "65 \<le> (of_char c :: nat)" "(of_char c :: nat) \<le> 90"
      by (simp_all add: is_ascii_uppercase_def)
    with eq True assms(2) show ?thesis by (simp add: of_char_ascii_lower)
  next
    case False
    with eq show ?thesis by (simp add: of_char_ascii_lower of_char_eq_iff)
  qed
next
  assume "c = d"
  with assms(1) show "ascii_lower c = d" by (simp add: ascii_lower_def)
qed

section \<open>trim\<close>

text \<open>The UTF-8 encodings of the characters with the Unicode property White_Space.\<close>

definition whitespace_seqs :: "string list" where
  "whitespace_seqs =
     [[CHR 0x09], [CHR 0x0A], [CHR 0x0B], [CHR 0x0C], [CHR 0x0D], [CHR 0x20],
      [CHR 0xC2, CHR 0x85], [CHR 0xC2, CHR 0xA0], [CHR 0xE1, CHR 0x9A, CHR 0x80],
      [CHR 0xE2, CHR 0x80, CHR 0x80], [CHR 0xE2, CHR 0x80, CHR 0x81],
      [CHR 0xE2, CHR 0x80, CHR 0x82], [CHR 0xE2, CHR 0x80, CHR 0x83],
      [CHR 0xE2, CHR 0x80, CHR 0x84], [CHR 0xE2, CHR 0x80, CHR 0x85],
      [CHR 0xE2, CHR 0x80, CHR 0x86], [CHR 0xE2, CHR 0x80, CHR 0x87],
      [CHR 0xE2, CHR 0x80, CHR 0x88], [CHR 0xE2, CHR 0x80, CHR 0x89],
      [CHR 0xE2, CHR 0x80, CHR 0x8A], [CHR 0xE2, CHR 0x80, CHR 0xA8],
      [CHR 0xE2, CHR 0x80, CHR 0xA9], [CHR 0xE2, CHR 0x80, CHR 0xAF],
      [CHR 0xE2, CHR 0x81, CHR 0x9F], [CHR 0xE3, CHR 0x80, CHR 0x80]]"

function strip_seqs :: "string list \<Rightarrow> string \<Rightarrow> string" where
  "strip_seqs ps s =
     (case List.find (\<lambda>p. p \<noteq> [] \<and> prefix p s) ps of
        None \<Rightarrow> s
      | Some p \<Rightarrow> strip_seqs ps (drop (length p) s))"
  by pat_completeness auto
termination
proof (relation "measure (\<lambda>(ps, s). length s)")
  fix ps s p
  assume "List.find (\<lambda>p. p \<noteq> [] \<and> prefix p s) ps = Some p"
  then have "p \<noteq> [] \<and> prefix p s" by (auto dest: find_Some_in)
  then show "((ps, drop (length p) s), ps, s) \<in> measure (\<lambda>(ps, s). length s)"
    by (auto simp: prefix_def)
qed simp

declare strip_seqs.simps [simp del]

definition trim_start :: "string \<Rightarrow> string" where
  "trim_start s = strip_seqs whitespace_seqs s"

definition trim_end :: "string \<Rightarrow> string" where
  "trim_end s = rev (strip_seqs (map rev whitespace_seqs) (rev s))"

definition trim :: "string \<Rightarrow> string" where
  "trim s = trim_end (trim_start s)"

lemma strip_seqs_stable:
  "\<forall>p \<in> set ps. p \<noteq> [] \<longrightarrow> \<not> prefix p s \<Longrightarrow> strip_seqs ps s = s"
  by (subst strip_seqs.simps) (auto simp: find_None_iff split: option.split dest!: find_Some_in)

lemma strip_seqs_no_prefix:
  "p \<in> set ps \<Longrightarrow> p \<noteq> [] \<Longrightarrow> \<not> prefix p (strip_seqs ps s)"
proof (induction ps s rule: strip_seqs.induct)
  case (1 ps s)
  show ?case
  proof (cases "List.find (\<lambda>p. p \<noteq> [] \<and> prefix p s) ps")
    case None
    with "1.prems" show ?thesis
      by (subst strip_seqs.simps) (auto dest: find_None_all)
  next
    case (Some q)
    with 1 show ?thesis by (subst strip_seqs.simps) simp
  qed
qed

lemma strip_seqs_suffix: "suffix (strip_seqs ps s) s"
proof (induction ps s rule: strip_seqs.induct)
  case (1 ps s)
  show ?case
  proof (cases "List.find (\<lambda>p. p \<noteq> [] \<and> prefix p s) ps")
    case None
    then show ?thesis by (subst strip_seqs.simps) simp
  next
    case (Some q)
    with 1 have "suffix (strip_seqs ps (drop (length q) s)) (drop (length q) s)" by blast
    with Some show ?thesis
      by (subst strip_seqs.simps) (simp add: suffix_order.order_trans [OF _ suffix_drop])
  qed
qed

lemma prefix_map_fixed:
  assumes "\<And>c x. c \<in> set p \<Longrightarrow> f x = c \<longleftrightarrow> x = c"
  shows "prefix p (map f s) \<longleftrightarrow> prefix p s"
  using assms
proof (induction p arbitrary: s)
  case Nil
  then show ?case by simp
next
  case (Cons c p)
  have fc: "c = f x \<longleftrightarrow> c = x" for x
    using Cons.prems [of c x] by auto
  have ih: "prefix p (map f t) \<longleftrightarrow> prefix p t" for t
    by (rule Cons.IH) (simp add: Cons.prems)
  show ?case by (cases s) (simp_all add: fc ih)
qed

lemma strip_seqs_map:
  assumes "\<And>p c x. p \<in> set ps \<Longrightarrow> c \<in> set p \<Longrightarrow> f x = c \<longleftrightarrow> x = c"
  shows "strip_seqs ps (map f s) = map f (strip_seqs ps s)"
  using assms
proof (induction ps s rule: strip_seqs.induct)
  case (1 ps s)
  have find_eq: "List.find (\<lambda>p. p \<noteq> [] \<and> prefix p (map f s)) ps = List.find (\<lambda>p. p \<noteq> [] \<and> prefix p s) ps"
    by (rule find_cong) (auto simp: prefix_map_fixed "1.prems")
  show ?case
  proof (cases "List.find (\<lambda>p. p \<noteq> [] \<and> prefix p s) ps")
    case None
    with find_eq show ?thesis by (simp add: strip_seqs.simps [of ps "map f s"] strip_seqs.simps [of ps s])
  next
    case (Some q)
    with find_eq "1.IH" [OF Some] "1.prems" show ?thesis
      by (simp add: strip_seqs.simps [of ps "map f s"] strip_seqs.simps [of ps s] drop_map)
  qed
qed

lemma trim_idem [simp]: "trim (trim s) = trim s"
proof -
  define u where "u = trim_start s"
  have no_front: "\<not> prefix p (trim_end u)" if "p \<in> set whitespace_seqs" "p \<noteq> []" for p
  proof
    assume "prefix p (trim_end u)"
    moreover have "prefix (trim_end u) u"
      using strip_seqs_suffix [of "map rev whitespace_seqs" "rev u"]
      by (simp add: trim_end_def suffix_to_prefix)
    ultimately have "prefix p u" by (rule prefix_order.order_trans)
    with that show False by (simp add: u_def trim_start_def strip_seqs_no_prefix)
  qed
  have "trim_start (trim_end u) = trim_end u"
    unfolding trim_start_def by (rule strip_seqs_stable) (auto simp: no_front)
  moreover have "trim_end (trim_end u) = trim_end u"
    unfolding trim_end_def rev_rev_ident
    by (subst strip_seqs_stable) (auto simp: strip_seqs_no_prefix)
  ultimately show ?thesis by (simp add: trim_def u_def)
qed

lemma trim_map:
  assumes "\<And>p c x. p \<in> set whitespace_seqs \<Longrightarrow> c \<in> set p \<Longrightarrow> f x = c \<longleftrightarrow> x = c"
  shows "trim (map f s) = map f (trim s)"
proof -
  have "strip_seqs whitespace_seqs (map f t) = map f (strip_seqs whitespace_seqs t)" for t
    by (rule strip_seqs_map) (use assms in blast)
  moreover have "strip_seqs (map rev whitespace_seqs) (map f t) = map f (strip_seqs (map rev whitespace_seqs) t)" for t
  proof (rule strip_seqs_map)
    fix p c x assume "p \<in> set (map rev whitespace_seqs)" "c \<in> set p"
    then obtain q where "q \<in> set whitespace_seqs" "c \<in> set q" by auto
    then show "f x = c \<longleftrightarrow> x = c" by (rule assms)
  qed
  ultimately show ?thesis by (simp add: trim_def trim_start_def trim_end_def rev_map)
qed

lemma trim_fixed:
  assumes "\<And>p. p \<in> set whitespace_seqs \<Longrightarrow> \<not> prefix p s \<and> \<not> suffix p s"
  shows "trim s = s"
proof -
  have "strip_seqs whitespace_seqs s = s"
    by (rule strip_seqs_stable) (use assms in blast)
  moreover have "strip_seqs (map rev whitespace_seqs) (rev s) = rev s"
    by (rule strip_seqs_stable) (use assms in \<open>auto simp: suffix_to_prefix\<close>)
  ultimately show ?thesis by (simp add: trim_def trim_start_def trim_end_def)
qed

text \<open>A string whose bytes all lie in the printable ASCII range is its own trim.\<close>

lemma trim_graphic:
  assumes "\<And>c. c \<in> set s \<Longrightarrow> 33 \<le> (of_char c :: nat) \<and> (of_char c :: nat) \<le> 126"
  shows "trim s = s"
proof (rule trim_fixed)
  fix p assume "p \<in> set whitespace_seqs"
  then have ne: "p \<noteq> []" and out: "\<forall>c \<in> set p. \<not> (33 \<le> (of_char c :: nat) \<and> (of_char c :: nat) \<le> 126)"
    by (auto simp: whitespace_seqs_def)
  from ne obtain c where "c \<in> set p" by (cases p) auto
  then show "\<not> prefix p s \<and> \<not> suffix p s"
    using assms out by (auto dest: set_mono_prefix set_mono_suffix)
qed

section \<open>Numbers as text\<close>

definition digit_char :: "nat \<Rightarrow> char" where
  "digit_char n = char_of (48 + n)"

lemma digit_char_eval [model_defs]:
  "digit_char 0 = CHR ''0''" "digit_char (Suc 0) = CHR ''1''" "digit_char 2 = CHR ''2''" "digit_char 3 = CHR ''3''"
  "digit_char 4 = CHR ''4''" "digit_char 5 = CHR ''5''" "digit_char 6 = CHR ''6''" "digit_char 7 = CHR ''7''"
  "digit_char 8 = CHR ''8''" "digit_char 9 = CHR ''9''"
  by (simp_all add: digit_char_def char_of_def bit_Suc bit_0)

text \<open>\<open>Display\<close> of an unsigned integer.\<close>

fun dec_of_nat :: "nat \<Rightarrow> string" where
  "dec_of_nat n = (if n < 10 then [digit_char n] else dec_of_nat (n div 10) @ [digit_char (n mod 10)])"

declare dec_of_nat.simps [simp del]

text \<open>The digits of a decimal numeral, most significant first.\<close>

fun dec_value :: "nat \<Rightarrow> string \<Rightarrow> nat option" where
  "dec_value acc [] = Some acc"
| "dec_value acc (c # s) =
     (if is_ascii_digit c then dec_value (10 * acc + (of_char c - 48)) s else None)"

text \<open>
  \<open>str::parse\<close> for an unsigned type with values below \<open>bound\<close>: an optional plus sign, at
  least one digit, nothing else, and no overflow.
\<close>

definition parse_uint :: "nat \<Rightarrow> string \<Rightarrow> nat option" where
  "parse_uint bound s =
     (case s of
        [] \<Rightarrow> None
      | c # cs \<Rightarrow>
          (case dec_value 0 (if c = CHR ''+'' \<and> cs \<noteq> [] then cs else s) of
             None \<Rightarrow> None
           | Some v \<Rightarrow> if v < bound then Some v else None))"

definition hex_digit :: "nat \<Rightarrow> char" where
  "hex_digit n = (if n < 10 then char_of (48 + n) else char_of (87 + n))"

text \<open>The format \<open>{:02x}\<close> of a byte.\<close>

definition hex2 :: "u8 \<Rightarrow> string" where
  "hex2 b = [hex_digit (unat b div 16), hex_digit (unat b mod 16)]"

lemma of_char_digit_char [simp]: "n < 10 \<Longrightarrow> (of_char (digit_char n) :: nat) = 48 + n"
  by (simp add: digit_char_def)

lemma is_ascii_digit_digit_char [simp]: "n < 10 \<Longrightarrow> is_ascii_digit (digit_char n)"
  by (simp add: is_ascii_digit_def)

lemma dec_of_nat_digits: "c \<in> set (dec_of_nat n) \<Longrightarrow> is_ascii_digit c"
proof (induction n rule: dec_of_nat.induct)
  case (1 n)
  show ?case
  proof (cases "n < 10")
    case True
    with "1.prems" show ?thesis by (simp add: dec_of_nat.simps [of n])
  next
    case False
    with "1.prems" have "c \<in> set (dec_of_nat (n div 10)) \<or> c = digit_char (n mod 10)"
      by (auto simp: dec_of_nat.simps [of n])
    with False "1.IH" show ?thesis by auto
  qed
qed

lemma dec_of_nat_nonempty [simp]: "dec_of_nat n \<noteq> []"
  by (subst dec_of_nat.simps) simp

lemma dec_value_append:
  "dec_value acc (s @ t) = (case dec_value acc s of None \<Rightarrow> None | Some v \<Rightarrow> dec_value v t)"
  by (induction s arbitrary: acc) auto

lemma dec_value_dec_of_nat: "dec_value 0 (dec_of_nat n) = Some n"
proof (induction n rule: dec_of_nat.induct)
  case (1 n)
  show ?case
  proof (cases "n < 10")
    case True
    then show ?thesis by (subst dec_of_nat.simps) simp
  next
    case False
    with 1 have "dec_value 0 (dec_of_nat (n div 10)) = Some (n div 10)" by simp
    with False show ?thesis
      by (subst dec_of_nat.simps) (simp add: dec_value_append)
  qed
qed

lemma parse_uint_dec_of_nat: "n < bound \<Longrightarrow> parse_uint bound (dec_of_nat n) = Some n"
proof -
  assume n: "n < bound"
  obtain c cs where s: "dec_of_nat n = c # cs" by (cases "dec_of_nat n") auto
  then have "is_ascii_digit c" using dec_of_nat_digits [of c n] by simp
  then have "c \<noteq> CHR ''+''" by (auto simp: is_ascii_digit_def)
  with n s dec_value_dec_of_nat [of n] show ?thesis by (simp add: parse_uint_def)
qed

lemma parse_uint_less: "parse_uint bound s = Some v \<Longrightarrow> v < bound"
  by (auto simp: parse_uint_def split: list.splits option.splits if_splits)

lemma dec_of_nat_inj: "dec_of_nat m = dec_of_nat n \<Longrightarrow> m = n"
  by (metis dec_value_dec_of_nat option.inject)

section \<open>UTF-8\<close>

definition utf8_cont :: "nat \<Rightarrow> bool" where
  "utf8_cont n = (0x80 \<le> n \<and> n \<le> 0xBF)"

text \<open>Which second bytes may follow a three- or four-byte lead.\<close>

definition utf8_second :: "nat \<Rightarrow> nat \<Rightarrow> bool" where
  "utf8_second b0 b1 =
     (if b0 = 0xE0 then 0xA0 \<le> b1 \<and> b1 \<le> 0xBF
      else if b0 = 0xED then 0x80 \<le> b1 \<and> b1 \<le> 0x9F
      else if b0 = 0xF0 then 0x90 \<le> b1 \<and> b1 \<le> 0xBF
      else if b0 = 0xF4 then 0x80 \<le> b1 \<and> b1 \<le> 0x8F
      else utf8_cont b1)"

text \<open>The number of leading bytes that are continuation bytes, at most \<open>k\<close>.\<close>

fun count_cont :: "nat \<Rightarrow> nat list \<Rightarrow> nat" where
  "count_cont (Suc k) (b # bs) = (if utf8_cont b then Suc (count_cont k bs) else 0)"
| "count_cont _ _ = 0"

text \<open>
  The first character of a non-empty byte string: \<open>(True, n)\<close> if it is well formed and
  has \<open>n\<close> bytes, \<open>(False, n)\<close> if the first \<open>n\<close> bytes are a maximal ill-formed part.
\<close>

definition utf8_step :: "nat list \<Rightarrow> bool \<times> nat" where
  "utf8_step s =
     (case s of
        [] \<Rightarrow> (False, 1)
      | b0 # rest \<Rightarrow>
          if b0 < 0x80 then (True, 1)
          else if 0xC2 \<le> b0 \<and> b0 \<le> 0xDF then
            (if count_cont 1 rest = 1 then (True, 2) else (False, 1))
          else if 0xE0 \<le> b0 \<and> b0 \<le> 0xF4 then
            (let need = (if b0 \<le> 0xEF then 2 else 3) in
             case rest of
               [] \<Rightarrow> (False, 1)
             | b1 # rest' \<Rightarrow>
                 if utf8_second b0 b1
                 then (let k = count_cont (need - 1) rest'
                       in (k = need - 1, 2 + k))
                 else (False, 1))
          else (False, 1))"

lemma utf8_step_pos: "0 < snd (utf8_step s)"
  by (auto simp: utf8_step_def Let_def split: list.split)

function utf8_valid :: "nat list \<Rightarrow> bool" where
  "utf8_valid s =
     (if s = [] then True
      else if fst (utf8_step s) then utf8_valid (drop (snd (utf8_step s)) s)
      else False)"
  by pat_completeness auto
termination
  by (relation "measure length") (auto simp: utf8_step_pos)

declare utf8_valid.simps [simp del]

function utf8_lossy :: "nat list \<Rightarrow> nat list" where
  "utf8_lossy s =
     (if s = [] then []
      else (if fst (utf8_step s) then take (snd (utf8_step s)) s else [0xEF, 0xBF, 0xBD])
           @ utf8_lossy (drop (snd (utf8_step s)) s))"
  by pat_completeness auto
termination
  by (relation "measure length") (auto simp: utf8_step_pos)

declare utf8_lossy.simps [simp del]

text \<open>\<open>is_utf8\<close> is the invariant of every Rust \<open>String\<close>.\<close>

definition is_utf8 :: "string \<Rightarrow> bool" where
  "is_utf8 s = utf8_valid (map of_char s)"

definition from_utf8 :: "bytes \<Rightarrow> string option" where
  "from_utf8 bs = (if is_utf8 (str_of_bytes bs) then Some (str_of_bytes bs) else None)"

definition from_utf8_lossy :: "bytes \<Rightarrow> string" where
  "from_utf8_lossy bs = map char_of (utf8_lossy (map unat bs))"

lemma utf8_lossy_valid: "utf8_valid s \<Longrightarrow> utf8_lossy s = s"
proof (induction s rule: utf8_valid.induct)
  case (1 s)
  show ?case
  proof (cases "s = []")
    case True
    then show ?thesis by (simp add: utf8_lossy.simps [of "[]"])
  next
    case False
    with "1.prems" have ok: "fst (utf8_step s)" "utf8_valid (drop (snd (utf8_step s)) s)"
      by (simp_all add: utf8_valid.simps [of s] split: if_splits)
    with 1 False have "utf8_lossy (drop (snd (utf8_step s)) s) = drop (snd (utf8_step s)) s"
      by blast
    with False ok(1) show ?thesis by (simp add: utf8_lossy.simps [of s])
  qed
qed

lemma utf8_valid_ascii: "\<forall>b \<in> set s. b < 0x80 \<Longrightarrow> utf8_valid s"
proof (induction s)
  case Nil
  then show ?case by (simp add: utf8_valid.simps [of "[]"])
next
  case (Cons b s)
  then show ?case by (subst utf8_valid.simps) (simp add: utf8_step_def)
qed

lemma is_utf8_ascii: "\<forall>c \<in> set s. (of_char c :: nat) < 128 \<Longrightarrow> is_utf8 s"
  by (simp add: is_utf8_def utf8_valid_ascii)

lemma from_utf8_as_bytes [simp]: "from_utf8 (as_bytes s) = (if is_utf8 s then Some s else None)"
  by (simp add: from_utf8_def)

lemma from_utf8_SomeD: "from_utf8 bs = Some s \<Longrightarrow> bs = as_bytes s \<and> is_utf8 s"
  by (auto simp: from_utf8_def split: if_splits)

lemma map_unat_as_bytes [simp]: "map unat (as_bytes s) = map of_char s"
  by (simp add: as_bytes_def)

lemma from_utf8_lossy_as_bytes: "is_utf8 s \<Longrightarrow> from_utf8_lossy (as_bytes s) = s"
  by (simp add: from_utf8_lossy_def utf8_lossy_valid is_utf8_def comp_def)

lemma is_utf8_dec_of_nat [simp]: "is_utf8 (dec_of_nat n)"
  by (rule is_utf8_ascii) (auto dest!: dec_of_nat_digits simp: is_ascii_digit_def)

end
