(* ===== verification/Tftp_Wire.thy ===== *)
theory Tftp_Wire
  imports Rust_Str
begin

text \<open>
  \<^verbatim>\<open>crates/bootycall-tftp/src/wire.rs\<close>: opcodes, encoders and decoders of the TFTP
  packets, and the round trips between them.
\<close>

section \<open>Opcodes\<close>

definition OP_RRQ :: u16 where "OP_RRQ = 1"
definition OP_WRQ :: u16 where "OP_WRQ = 2"
definition OP_DATA :: u16 where "OP_DATA = 3"
definition OP_ACK :: u16 where "OP_ACK = 4"
definition OP_ERROR :: u16 where "OP_ERROR = 5"
definition OP_OACK :: u16 where "OP_OACK = 6"

lemmas op_defs = OP_RRQ_def OP_WRQ_def OP_DATA_def OP_ACK_def OP_ERROR_def OP_OACK_def

definition opcode :: "bytes \<Rightarrow> u16 option" where
  "opcode pkt = (if length pkt < 2 then None else Some (from_be16 (pkt ! 0) (pkt ! 1)))"

section \<open>Encoders\<close>

definition make_error_packet :: "u16 \<Rightarrow> string \<Rightarrow> bytes" where
  "make_error_packet code msg = to_be16 OP_ERROR @ to_be16 code @ as_bytes msg @ [0]"

text \<open>The run of NUL-terminated pairs shared by OACK and RRQ.\<close>

fun option_bytes :: "(string \<times> string) list \<Rightarrow> bytes" where
  "option_bytes [] = []"
| "option_bytes ((name, val) # rest) =
     as_bytes name @ [0] @ as_bytes val @ [0] @ option_bytes rest"

definition make_oack_packet :: "(string \<times> string) list \<Rightarrow> bytes" where
  "make_oack_packet options = to_be16 OP_OACK @ option_bytes options"

definition make_data_packet :: "u16 \<Rightarrow> bytes \<Rightarrow> bytes" where
  "make_data_packet block_num data = to_be16 OP_DATA @ to_be16 block_num @ data"

definition make_ack_packet :: "u16 \<Rightarrow> bytes" where
  "make_ack_packet block = to_be16 OP_ACK @ to_be16 block"

definition make_rrq_packet :: "string \<Rightarrow> string \<Rightarrow> (string \<times> string) list \<Rightarrow> bytes" where
  "make_rrq_packet filename mode options =
     to_be16 OP_RRQ @ as_bytes filename @ [0] @ as_bytes mode @ [0] @ option_bytes options"

section \<open>Decoders\<close>

definition parse_ack_packet :: "bytes \<Rightarrow> u16 option" where
  "parse_ack_packet pkt =
     (case opcode pkt of
        None \<Rightarrow> None
      | Some code \<Rightarrow>
          if code \<noteq> OP_ACK \<or> length pkt < 4 then None
          else Some (from_be16 (pkt ! 2) (pkt ! 3)))"

definition is_error_packet :: "bytes \<Rightarrow> bool" where
  "is_error_packet pkt = (opcode pkt = Some OP_ERROR)"

definition parse_error_packet :: "bytes \<Rightarrow> (u16 \<times> string) option" where
  "parse_error_packet pkt =
     (case opcode pkt of
        None \<Rightarrow> None
      | Some op \<Rightarrow>
          if op \<noteq> OP_ERROR \<or> length pkt < 4 then None
          else
            (let code = from_be16 (pkt ! 2) (pkt ! 3);
                 stop = (case position (\<lambda>b. b = 0) (drop 4 pkt) of
                           Some n \<Rightarrow> n | None \<Rightarrow> length pkt - 4);
                 msg = from_utf8_lossy (take stop (drop 4 pkt))
             in Some (code, msg)))"

definition parse_data_packet :: "bytes \<Rightarrow> (u16 \<times> bytes) option" where
  "parse_data_packet pkt =
     (case opcode pkt of
        None \<Rightarrow> None
      | Some op \<Rightarrow>
          if op \<noteq> OP_DATA \<or> length pkt < 4 then None
          else Some (from_be16 (pkt ! 2) (pkt ! 3), drop 4 pkt))"

definition parse_oack_packet :: "bytes \<Rightarrow> (string \<times> string) list option" where
  "parse_oack_packet pkt =
     (case opcode pkt of
        None \<Rightarrow> None
      | Some op \<Rightarrow>
          if op \<noteq> OP_OACK then None
          else Some (pair_up (map from_utf8_lossy (nul_parts [] (drop 2 pkt)))))"

section \<open>Round trips\<close>

lemma opcode_to_be16 [simp, wire_simps]: "opcode (to_be16 op @ rest) = Some op"
  by (simp add: opcode_def to_be16_def)

lemma nth_be16 [simp, wire_simps]:
  "from_be16 ((to_be16 op @ to_be16 w @ rest) ! 2) ((to_be16 op @ to_be16 w @ rest) ! 3) = w"
  by (simp add: to_be16_def)

lemma drop_be16 [simp, wire_simps]:
  "drop 2 (to_be16 op @ rest) = rest" "drop 4 (to_be16 op @ to_be16 w @ rest) = rest"
  by (simp_all add: to_be16_def)

text \<open>A text field: what a packet can carry and give back.\<close>

definition wire_text :: "string \<Rightarrow> bool" where
  "wire_text s \<longleftrightarrow> is_utf8 s \<and> CHR 0x00 \<notin> set s"

lemma wire_textD: "wire_text s \<Longrightarrow> is_utf8 s" "wire_text s \<Longrightarrow> 0 \<notin> set (as_bytes s)"
  by (simp_all add: wire_text_def)

lemma wire_text_dec_of_nat [simp]: "wire_text (dec_of_nat n)"
  by (auto simp: wire_text_def is_ascii_digit_def dest!: dec_of_nat_digits)

definition wire_options :: "(string \<times> string) list \<Rightarrow> bool" where
  "wire_options opts \<longleftrightarrow> (\<forall>(k, v) \<in> set opts. wire_text k \<and> wire_text v)"

fun flat_options :: "(string \<times> string) list \<Rightarrow> string list" where
  "flat_options [] = []"
| "flat_options ((k, v) # rest) = k # v # flat_options rest"

lemma pair_up_flat_options [simp]: "pair_up (flat_options opts) = opts"
  by (induction opts rule: flat_options.induct) auto

lemma pair_up_map: "pair_up (map f xs) = map (map_prod f f) (pair_up xs)"
  by (induction xs rule: pair_up.induct) auto

lemma nul_parts_text: "wire_text s \<Longrightarrow> nul_parts [] (as_bytes s @ 0 # rest) = as_bytes s # nul_parts [] rest"
  by (simp add: nul_parts_nul_free wire_text_def)

lemma nul_parts_option_bytes:
  "wire_options opts \<Longrightarrow> nul_parts [] (option_bytes opts) = map as_bytes (flat_options opts)"
  by (induction opts rule: option_bytes.induct) (simp_all add: wire_options_def nul_parts_text)

lemma wire_options_flat: "wire_options opts \<Longrightarrow> s \<in> set (flat_options opts) \<Longrightarrow> wire_text s"
  by (induction opts rule: flat_options.induct) (auto simp: wire_options_def)

lemma parse_make_ack [wire_simps]: "parse_ack_packet (make_ack_packet b) = Some b"
  by (simp add: parse_ack_packet_def make_ack_packet_def opcode_def to_be16_def)

lemma parse_make_data [wire_simps]: "parse_data_packet (make_data_packet n d) = Some (n, d)"
  by (simp add: parse_data_packet_def make_data_packet_def)

lemma parse_make_error [wire_simps]:
  assumes "wire_text msg"
  shows "parse_error_packet (make_error_packet c msg) = Some (c, msg)"
proof -
  have "position (\<lambda>b. b = 0) (as_bytes msg @ [0]) = Some (length msg)"
    using position_append_hit [of "as_bytes msg" "\<lambda>b. b = 0" 0 "[]"] assms
    by (metis length_as_bytes wire_textD(2))
  then show ?thesis
    by (simp add: parse_error_packet_def make_error_packet_def Let_def wire_textD(1) [OF assms]
        from_utf8_lossy_as_bytes)
qed

lemma parse_make_oack [wire_simps]:
  assumes "wire_options opts"
  shows "parse_oack_packet (make_oack_packet opts) = Some opts"
proof -
  have "map from_utf8_lossy (map as_bytes (flat_options opts)) = flat_options opts"
    using wire_options_flat [OF assms]
    by (simp add: comp_def map_idI from_utf8_lossy_as_bytes wire_textD(1))
  then show ?thesis
    by (simp add: parse_oack_packet_def make_oack_packet_def nul_parts_option_bytes [OF assms] del: map_map)
qed

text \<open>Each decoder accepts the packets of its own opcode only.\<close>

lemma parse_ack_opcode: "parse_ack_packet pkt = Some b \<Longrightarrow> opcode pkt = Some OP_ACK"
  by (auto simp: parse_ack_packet_def split: option.splits if_splits)

lemma is_error_not_ack: "is_error_packet pkt \<Longrightarrow> parse_ack_packet pkt = None"
  by (auto simp: is_error_packet_def parse_ack_packet_def op_defs)

lemma make_ack_not_error: "\<not> is_error_packet (make_ack_packet b)"
  by (simp add: is_error_packet_def make_ack_packet_def op_defs)

lemma make_error_is_error: "is_error_packet (make_error_packet c msg)"
  by (simp add: is_error_packet_def make_error_packet_def)

lemma make_data_inj: "make_data_packet n d = make_data_packet m e \<Longrightarrow> n = m \<and> d = e"
  by (metis parse_make_data option.inject prod.inject)

end
