(* ===== verification/Tftp_Rrq.thy ===== *)
theory Tftp_Rrq
  imports Tftp_Wire
begin

text \<open>
  The request side of \<^verbatim>\<open>crates/bootycall-tftp/src/server.rs\<close>: \<open>parse_rrq\<close>, the tunable
  limits and the option negotiation at the start of \<open>handle_tftp_transfer\<close>.
\<close>

section \<open>Requests\<close>

text \<open>The integer fields keep the bounds of their types: \<open>usize\<close>, \<open>u64\<close> and \<open>u16\<close>.\<close>

record rrq_request =
  rq_filename :: string
  rq_mode :: string
  rq_blksize :: "nat option"
  rq_timeout :: "nat option"
  rq_tsize_requested :: bool
  rq_windowsize :: "nat option"

text \<open>One key/value pair of the option loop: an unknown key or a bad number is ignored.\<close>

definition rrq_option :: "string \<Rightarrow> string \<Rightarrow> rrq_request \<Rightarrow> rrq_request" where
  "rrq_option key val req =
     (if key = ''blksize'' then
        (case parse_uint (2 ^ 64) val of Some v \<Rightarrow> req\<lparr>rq_blksize := Some v\<rparr> | None \<Rightarrow> req)
      else if key = ''timeout'' then
        (case parse_uint (2 ^ 64) val of Some v \<Rightarrow> req\<lparr>rq_timeout := Some v\<rparr> | None \<Rightarrow> req)
      else if key = ''tsize'' then req\<lparr>rq_tsize_requested := True\<rparr>
      else if key = ''windowsize'' then
        (case parse_uint (2 ^ 16) val of Some v \<Rightarrow> req\<lparr>rq_windowsize := Some v\<rparr> | None \<Rightarrow> req)
      else req)"

fun rrq_options :: "(bytes \<times> bytes) list \<Rightarrow> rrq_request \<Rightarrow> rrq_request option" where
  "rrq_options [] req = Some req"
| "rrq_options ((k, v) # rest) req =
     (case from_utf8 k of
        None \<Rightarrow> None
      | Some key \<Rightarrow>
          (case from_utf8 v of
             None \<Rightarrow> None
           | Some val \<Rightarrow> rrq_options rest (rrq_option (to_lowercase key) val req)))"

definition parse_rrq :: "bytes \<Rightarrow> rrq_request option" where
  "parse_rrq packet =
     (if length packet < 4 then None
      else if from_be16 (packet ! 0) (packet ! 1) \<noteq> OP_RRQ then None
      else
        (let parts = nul_parts [] (drop 2 packet) in
         if length parts < 2 then None
         else
           (case from_utf8 (parts ! 0) of
              None \<Rightarrow> None
            | Some filename \<Rightarrow>
                (case from_utf8 (parts ! 1) of
                   None \<Rightarrow> None
                 | Some mode \<Rightarrow>
                     rrq_options (pair_up (drop 2 parts))
                       \<lparr>rq_filename = filename, rq_mode = mode, rq_blksize = None,
                        rq_timeout = None, rq_tsize_requested = False,
                        rq_windowsize = None\<rparr>))))"

section \<open>Limits and negotiation\<close>

definition MAX_CONCURRENT_TRANSFERS :: nat where "MAX_CONCURRENT_TRANSFERS = 128"
definition MAX_WINDOWSIZE :: nat where "MAX_WINDOWSIZE = 32"
definition DEFAULT_BLKSIZE :: nat where "DEFAULT_BLKSIZE = 512"
definition MAX_BLKSIZE :: nat where "MAX_BLKSIZE = 1432"
definition DEFAULT_TIMEOUT_SECS :: nat where "DEFAULT_TIMEOUT_SECS = 3"
definition MIN_TIMEOUT_SECS :: nat where "MIN_TIMEOUT_SECS = 1"
definition MAX_TIMEOUT_SECS :: nat where "MAX_TIMEOUT_SECS = 10"

lemmas limit_defs = MAX_WINDOWSIZE_def DEFAULT_BLKSIZE_def MAX_BLKSIZE_def
  DEFAULT_TIMEOUT_SECS_def MIN_TIMEOUT_SECS_def MAX_TIMEOUT_SECS_def

text \<open>\<open>Ord::clamp\<close>.\<close>

definition clamp :: "nat \<Rightarrow> nat \<Rightarrow> nat \<Rightarrow> nat" where
  "clamp lo hi v = (if v < lo then lo else if v > hi then hi else v)"

record negotiated =
  ng_blksize :: nat
  ng_timeout :: nat
  ng_windowsize :: nat
  ng_options :: "(string \<times> string) list"

definition negotiate :: "rrq_request \<Rightarrow> nat \<Rightarrow> negotiated" where
  "negotiate request file_size =
     (let blk = (case rq_blksize request of
                   Some b \<Rightarrow> clamp DEFAULT_BLKSIZE MAX_BLKSIZE b | None \<Rightarrow> DEFAULT_BLKSIZE);
          tmo = (case rq_timeout request of
                   Some t \<Rightarrow> clamp MIN_TIMEOUT_SECS MAX_TIMEOUT_SECS t | None \<Rightarrow> DEFAULT_TIMEOUT_SECS);
          win = (case rq_windowsize request of
                   Some w \<Rightarrow> clamp 1 MAX_WINDOWSIZE w | None \<Rightarrow> 1)
      in \<lparr>ng_blksize = blk, ng_timeout = tmo, ng_windowsize = win,
          ng_options =
            (if rq_blksize request \<noteq> None then [(''blksize'', dec_of_nat blk)] else [])
            @ (if rq_timeout request \<noteq> None then [(''timeout'', dec_of_nat tmo)] else [])
            @ (if rq_tsize_requested request then [(''tsize'', dec_of_nat file_size)] else [])
            @ (if rq_windowsize request \<noteq> None then [(''windowsize'', dec_of_nat win)] else [])\<rparr>)"

section \<open>Facts\<close>

lemma negotiate_ranges:
  "DEFAULT_BLKSIZE \<le> ng_blksize (negotiate r sz) \<and> ng_blksize (negotiate r sz) \<le> MAX_BLKSIZE"
  "MIN_TIMEOUT_SECS \<le> ng_timeout (negotiate r sz) \<and> ng_timeout (negotiate r sz) \<le> MAX_TIMEOUT_SECS"
  "1 \<le> ng_windowsize (negotiate r sz) \<and> ng_windowsize (negotiate r sz) \<le> MAX_WINDOWSIZE"
  by (auto simp: negotiate_def Let_def clamp_def limit_defs split: option.split)

lemma wire_options_negotiate: "wire_options (ng_options (negotiate r sz))"
proof -
  have "wire_text ''blksize'' \<and> wire_text ''timeout'' \<and> wire_text ''tsize'' \<and> wire_text ''windowsize''"
    by (auto simp: wire_text_def intro!: is_utf8_ascii)
  then show ?thesis by (auto simp: negotiate_def Let_def wire_options_def)
qed

lemma parse_rrq_opcode: "parse_rrq pkt = Some r \<Longrightarrow> opcode pkt = Some OP_RRQ"
  by (auto simp: parse_rrq_def opcode_def split: if_splits)

text \<open>The request a client encodes is the request the server reads.\<close>

definition plain_request :: "string \<Rightarrow> string \<Rightarrow> rrq_request" where
  "plain_request filename mode =
     \<lparr>rq_filename = filename, rq_mode = mode, rq_blksize = None, rq_timeout = None,
      rq_tsize_requested = False, rq_windowsize = None\<rparr>"

definition with_options :: "(string \<times> string) list \<Rightarrow> rrq_request \<Rightarrow> rrq_request" where
  "with_options opts req = fold (\<lambda>(k, v). rrq_option (to_lowercase k) v) opts req"

lemma rrq_options_utf8:
  "wire_options opts \<Longrightarrow>
   rrq_options (map (map_prod as_bytes as_bytes) opts) req = Some (with_options opts req)"
  by (induction opts arbitrary: req)
    (auto simp: wire_options_def with_options_def wire_textD(1))

lemma parse_make_rrq [wire_simps]:
  assumes "wire_text filename" "wire_text mode" "wire_options opts"
  shows "parse_rrq (make_rrq_packet filename mode opts)
         = Some (with_options opts (plain_request filename mode))"
proof -
  let ?p = "make_rrq_packet filename mode opts"
  have split: "nul_parts [] (drop 2 ?p) = as_bytes filename # as_bytes mode # map as_bytes (flat_options opts)"
    using assms by (simp add: make_rrq_packet_def nul_parts_text nul_parts_option_bytes)
  have "opcode ?p = Some OP_RRQ" by (simp add: make_rrq_packet_def)
  then have op: "from_be16 (?p ! 0) (?p ! 1) = OP_RRQ"
    by (simp add: opcode_def split: if_splits)
  have "\<not> length ?p < 4" by (simp add: make_rrq_packet_def)
  with op split show ?thesis
    using assms rrq_options_utf8 [of opts]
    by (simp add: parse_rrq_def wire_textD(1) pair_up_map plain_request_def)
qed

end
