(* ===== verification/Byte_Reader.thy ===== *)
theory Byte_Reader
  imports Prelude
begin

text \<open>
  The contract of \<open>Read::read\<close> and \<open>AsyncReadExt::read\<close>, on which the TFTP server
  (\<open>read_fill\<close>) and the extractor (\<open>copy_capped\<close>) rely: a call returns at most as many
  bytes as asked for, possibly fewer, and returns none only at the end of the data.
  The locale is the interface; \<open>file_read\<close> is a file whose reads come in arbitrary
  portions and may fail, and its interpretation discharges the contract.
\<close>

section \<open>The interface\<close>

locale byte_reader =
  fixes read :: "'r \<Rightarrow> nat \<Rightarrow> (bytes \<times> 'r) io"
    and remaining :: "'r \<Rightarrow> bytes"
    and valid :: "'r \<Rightarrow> bool"
  assumes read_bytes:
      "valid r \<Longrightarrow> read r n = Inr (bs, r') \<Longrightarrow> length bs \<le> n \<and> remaining r = bs @ remaining r'"
    and read_valid: "valid r \<Longrightarrow> read r n = Inr (bs, r') \<Longrightarrow> valid r'"
    and read_eof: "valid r \<Longrightarrow> read r n = Inr ([], r') \<Longrightarrow> n = 0 \<or> remaining r = []"
begin

lemma read_length: "valid r \<Longrightarrow> read r n = Inr (bs, r') \<Longrightarrow> length bs \<le> n"
  using read_bytes by blast

lemma remaining_after: "valid r \<Longrightarrow> read r n = Inr (bs, r') \<Longrightarrow> remaining r' = drop (length bs) (remaining r)"
  using read_bytes by fastforce

lemma remaining_shrinks:
  "valid r \<Longrightarrow> read r n = Inr (bs, r') \<Longrightarrow> length (remaining r') + length bs = length (remaining r)"
  using read_bytes by fastforce

end

section \<open>A file read in portions\<close>

text \<open>
  The plan says what the next calls do: \<open>None\<close> fails, \<open>Some k\<close> delivers at most \<open>k + 1\<close>
  bytes; after the plan every call delivers what is asked for.
\<close>

record file_reader =
  fr_plan :: "nat option list"
  fr_data :: bytes

definition file_read :: "file_reader \<Rightarrow> nat \<Rightarrow> (bytes \<times> file_reader) io" where
  "file_read r n =
     (case fr_plan r of
        [] \<Rightarrow> Inr (take n (fr_data r), r\<lparr>fr_data := drop n (fr_data r)\<rparr>)
      | None # plan \<Rightarrow> Inl OtherIo
      | Some k # plan \<Rightarrow>
          Inr (take (min n (Suc k)) (fr_data r),
               \<lparr>fr_plan = plan, fr_data = drop (min n (Suc k)) (fr_data r)\<rparr>))"

definition whole_file :: "bytes \<Rightarrow> file_reader" where
  "whole_file data = \<lparr>fr_plan = [], fr_data = data\<rparr>"

interpretation portioned: byte_reader file_read fr_data "\<lambda>_. True"
  by unfold_locales (auto simp: file_read_def split: list.splits option.splits)

end
