(* ===== verification/Mac.thy ===== *)
theory Mac
  imports Rust_Str
begin

text \<open>
  \<^verbatim>\<open>crates/bootycall-core/src/mac.rs\<close>: normalisation, formatting and validation of MAC
  addresses. The lemmas show that the valid strings are exactly the ones \<open>format_mac\<close>
  produces, one for each hardware address, and that normalising is idempotent and the
  identity on them.
\<close>

section \<open>Operations\<close>

definition normalize_mac :: "string \<Rightarrow> string" where
  "normalize_mac mac = replace_char (CHR ''-'') (CHR '':'') (to_ascii_lowercase (trim mac))"

definition format_mac :: "bytes \<Rightarrow> string" where
  "format_mac bytes =
     hex2 (bytes ! 0) @ '':'' @ hex2 (bytes ! 1) @ '':'' @ hex2 (bytes ! 2) @ '':''
     @ hex2 (bytes ! 3) @ '':'' @ hex2 (bytes ! 4) @ '':'' @ hex2 (bytes ! 5)"

text \<open>The loop of \<open>is_valid_mac\<close>, from index \<open>i\<close>.\<close>

fun mac_scan :: "nat \<Rightarrow> string \<Rightarrow> bool" where
  "mac_scan i [] = True"
| "mac_scan i (byte # rest) =
     (if i mod 3 = 2
      then (if byte \<noteq> CHR '':'' then False else mac_scan (Suc i) rest)
      else (if \<not> is_ascii_hexdigit byte \<or> is_ascii_uppercase byte then False
            else mac_scan (Suc i) rest))"

definition is_valid_mac :: "string \<Rightarrow> bool" where
  "is_valid_mac mac = (if length mac \<noteq> 17 then False else mac_scan 0 mac)"

section \<open>Lower hexadecimal digits\<close>

lemma of_char_hex_digit:
  "n < 16 \<Longrightarrow> (of_char (hex_digit n) :: nat) = (if n < 10 then 48 + n else 87 + n)"
  by (simp add: hex_digit_def)

lemma hex_digit_inj: "n < 16 \<Longrightarrow> m < 16 \<Longrightarrow> hex_digit n = hex_digit m \<longleftrightarrow> n = m"
proof
  assume n: "n < 16" "m < 16" and "hex_digit n = hex_digit m"
  then have "(of_char (hex_digit n) :: nat) = of_char (hex_digit m)" by simp
  with n show "n = m" by (simp add: of_char_hex_digit split: if_splits)
qed simp

definition lower_hex :: "char \<Rightarrow> bool" where
  "lower_hex c = (is_ascii_hexdigit c \<and> \<not> is_ascii_uppercase c)"

lemma lower_hex_iff: "lower_hex c \<longleftrightarrow> (\<exists>n < 16. c = hex_digit n)"
proof
  assume c: "lower_hex c"
  define k where "k = (of_char c :: nat)"
  define n where "n = (if k \<le> 57 then k - 48 else k - 87)"
  from c have range: "48 \<le> k \<and> k \<le> 57 \<or> 97 \<le> k \<and> k \<le> 102"
    by (auto simp: lower_hex_def is_ascii_hexdigit_def is_ascii_digit_def is_ascii_uppercase_def k_def)
  then have n: "n < 16" by (auto simp: n_def)
  with range have "(of_char (hex_digit n) :: nat) = k"
    by (simp add: of_char_hex_digit) (auto simp: n_def)
  then have "c = hex_digit n" unfolding k_def of_char_eq_iff by simp
  with n show "\<exists>n < 16. c = hex_digit n" by blast
next
  assume "\<exists>n < 16. c = hex_digit n"
  then show "lower_hex c"
    by (auto simp: lower_hex_def is_ascii_hexdigit_def is_ascii_digit_def is_ascii_uppercase_def
        of_char_hex_digit split: if_splits)
qed

lemma hex2_lower_hex: "hex2 b = [c, d] \<Longrightarrow> lower_hex c \<and> lower_hex d"
proof -
  assume "hex2 b = [c, d]"
  moreover have "unat b < 2 ^ LENGTH(8)" by (rule unsigned_less)
  ultimately have "c = hex_digit (unat b div 16)" "unat b div 16 < 16"
    "d = hex_digit (unat b mod 16)" "unat b mod 16 < 16" by (auto simp: hex2_def)
  then show ?thesis using lower_hex_iff by blast
qed

lemma hex2_surj: "lower_hex c \<Longrightarrow> lower_hex d \<Longrightarrow> \<exists>b. hex2 b = [c, d]"
proof -
  assume "lower_hex c" "lower_hex d"
  then obtain n m where nm: "n < 16" "m < 16" "c = hex_digit n" "d = hex_digit m"
    by (auto simp: lower_hex_iff)
  then have "unat (of_nat (16 * n + m) :: u8) = 16 * n + m"
    by (simp add: unat_of_nat del: of_nat_add of_nat_mult)
  with nm show ?thesis by (intro exI [of _ "of_nat (16 * n + m)"]) (simp add: hex2_def)
qed

lemma hex2_inj: "hex2 a = hex2 b \<Longrightarrow> a = b"
proof -
  assume eq: "hex2 a = hex2 b"
  have lt: "unat a < 2 ^ LENGTH(8)" "unat b < 2 ^ LENGTH(8)" by (rule unsigned_less)+
  with eq have "unat a div 16 = unat b div 16" "unat a mod 16 = unat b mod 16"
    by (simp_all add: hex2_def hex_digit_inj)
  then have "unat a = unat b" by (metis div_mult_mod_eq)
  then show ?thesis by (rule word_unat_eq_iff [THEN iffD2])
qed

lemma length_hex2 [simp]: "length (hex2 b) = 2"
  by (simp add: hex2_def)

section \<open>The valid strings are the formatted addresses\<close>

lemma is_valid_mac_chars:
  "is_valid_mac s \<longleftrightarrow>
     (\<exists>a b c d e f g h i j k l.
        s = [a, b, CHR '':'', c, d, CHR '':'', e, f, CHR '':'', g, h, CHR '':'', i, j, CHR '':'', k, l]
        \<and> list_all lower_hex [a, b, c, d, e, f, g, h, i, j, k, l])"
  (is "_ \<longleftrightarrow> ?R")
proof
  assume "is_valid_mac s"
  then have len: "length s = 17" and scan: "mac_scan 0 s"
    by (auto simp: is_valid_mac_def split: if_splits)
  from len obtain a b x1 c d x2 e f x3 g h x4 i j x5 k l where
    s: "s = [a, b, x1, c, d, x2, e, f, x3, g, h, x4, i, j, x5, k, l]"
    by (auto simp: numeral_eq_Suc length_Suc_conv)
  from scan show ?R
    unfolding s by (simp add: lower_hex_def split: if_splits)
next
  assume ?R
  then show "is_valid_mac s"
    by (auto simp: is_valid_mac_def lower_hex_def)
qed

lemma hex2_cases: obtains c d where "hex2 b = [c, d]" "lower_hex c" "lower_hex d"
  using hex2_lower_hex [of b] by (auto simp: hex2_def)

lemma format_mac_chars:
  "\<exists>a b c d e f g h i j k l.
     format_mac bs = [a, b, CHR '':'', c, d, CHR '':'', e, f, CHR '':'', g, h, CHR '':'', i, j, CHR '':'', k, l]
     \<and> list_all lower_hex [a, b, c, d, e, f, g, h, i, j, k, l]"
  by (rule hex2_cases [of "bs ! 0"], rule hex2_cases [of "bs ! 1"], rule hex2_cases [of "bs ! 2"],
      rule hex2_cases [of "bs ! 3"], rule hex2_cases [of "bs ! 4"], rule hex2_cases [of "bs ! 5"])
    (simp add: format_mac_def)

lemma format_mac_valid [simp]: "is_valid_mac (format_mac bs)"
  unfolding is_valid_mac_chars by (rule format_mac_chars)

lemma format_mac_inj:
  assumes "length bs = 6" "length cs = 6" "format_mac bs = format_mac cs"
  shows "bs = cs"
proof (rule nth_equalityI)
  show "length bs = length cs" using assms by simp
  fix n assume "n < length bs"
  moreover have "hex2 (bs ! 0) = hex2 (cs ! 0)" "hex2 (bs ! 1) = hex2 (cs ! 1)" "hex2 (bs ! 2) = hex2 (cs ! 2)"
    "hex2 (bs ! 3) = hex2 (cs ! 3)" "hex2 (bs ! 4) = hex2 (cs ! 4)" "hex2 (bs ! 5) = hex2 (cs ! 5)"
    using assms(3) by (simp_all add: format_mac_def hex2_def)
  ultimately show "bs ! n = cs ! n"
    using assms(1) hex2_inj by (auto simp: less_Suc_eq numeral_eq_Suc)
qed

lemma is_valid_mac_iff_format:
  "is_valid_mac s \<longleftrightarrow> (\<exists>bs. length bs = 6 \<and> s = format_mac bs)"
proof
  assume "is_valid_mac s"
  then obtain a b c d e f g h i j k l where
    s: "s = [a, b, CHR '':'', c, d, CHR '':'', e, f, CHR '':'', g, h, CHR '':'', i, j, CHR '':'', k, l]"
    and hex: "list_all lower_hex [a, b, c, d, e, f, g, h, i, j, k, l]"
    by (auto simp: is_valid_mac_chars)
  from hex obtain b0 b1 b2 b3 b4 b5 where
    "hex2 b0 = [a, b]" "hex2 b1 = [c, d]" "hex2 b2 = [e, f]"
    "hex2 b3 = [g, h]" "hex2 b4 = [i, j]" "hex2 b5 = [k, l]"
    by (metis hex2_surj list.pred_inject(2))
  with s show "\<exists>bs. length bs = 6 \<and> s = format_mac bs"
    by (intro exI [of _ "[b0, b1, b2, b3, b4, b5]"]) (simp add: format_mac_def)
qed auto

section \<open>Normalisation\<close>

lemma is_ascii_uppercase_iff_lower: "lower_hex c \<Longrightarrow> ascii_lower c = c"
  by (simp add: lower_hex_def ascii_lower_def)

lemma valid_mac_graphic:
  assumes "is_valid_mac s" "c \<in> set s"
  shows "33 \<le> (of_char c :: nat) \<and> (of_char c :: nat) \<le> 126 \<and> \<not> is_ascii_uppercase c \<and> c \<noteq> CHR ''-''"
proof -
  have hex: "33 \<le> (of_char x :: nat) \<and> (of_char x :: nat) \<le> 126 \<and> \<not> is_ascii_uppercase x \<and> x \<noteq> CHR ''-''"
    if "lower_hex x" for x
    using that by (auto simp: lower_hex_def is_ascii_hexdigit_def is_ascii_digit_def)
  have colon: "\<not> is_ascii_uppercase (CHR '':'')" "\<not> lower_hex (CHR ''-'')"
    by (simp_all add: is_ascii_uppercase_def lower_hex_def is_ascii_hexdigit_def is_ascii_digit_def)
  from assms show ?thesis
    by (auto simp: is_valid_mac_chars hex colon)
qed

lemma normalize_valid_mac: "is_valid_mac s \<Longrightarrow> normalize_mac s = s"
proof -
  assume v: "is_valid_mac s"
  have "trim s = s"
    by (rule trim_graphic) (use valid_mac_graphic [OF v] in blast)
  moreover have "to_ascii_lowercase s = s"
    by (simp add: to_ascii_lowercase_def ascii_lower_def map_idI valid_mac_graphic [OF v])
  moreover have "replace_char (CHR ''-'') (CHR '':'') s = s"
    unfolding replace_char_def by (rule map_idI) (use valid_mac_graphic [OF v] in auto)
  ultimately show ?thesis by (simp add: normalize_mac_def)
qed

lemma whitespace_chars:
  assumes "p \<in> set whitespace_seqs" "c \<in> set p"
  shows "\<not> is_ascii_uppercase c" "\<not> (97 \<le> (of_char c :: nat) \<and> (of_char c :: nat) \<le> 122)"
    "c \<noteq> CHR ''-''" "c \<noteq> CHR '':''"
  using assms by (auto simp: whitespace_seqs_def is_ascii_uppercase_def)

lemma normalize_mac_idem [simp]: "normalize_mac (normalize_mac s) = normalize_mac s"
proof -
  define f where "f c = (if ascii_lower c = CHR ''-'' then CHR '':'' else ascii_lower c)" for c
  have norm: "normalize_mac t = map f (trim t)" for t
    by (simp add: normalize_mac_def replace_char_def to_ascii_lowercase_def f_def comp_def)
  have fixed: "f x = c \<longleftrightarrow> x = c" if "p \<in> set whitespace_seqs" "c \<in> set p" for p c x
    using ascii_lower_eq_iff [of c x] whitespace_chars [OF that] by (auto simp: f_def)
  have "f (f c) = f c" for c
  proof (cases "ascii_lower c = CHR ''-''")
    case True
    then show ?thesis by (simp add: f_def ascii_lower_def is_ascii_uppercase_def)
  next
    case False
    then show ?thesis by (simp add: f_def)
  qed
  moreover have "trim (map f (trim s)) = map f (trim s)"
    using trim_map [of f, OF fixed] by simp
  ultimately show ?thesis by (simp add: norm)
qed

end
