(* ===== verification/State_Store.thy ===== *)
theory State_Store
  imports Mac
begin

text \<open>
  \<^verbatim>\<open>crates/bootycall-core/src/state.rs\<close>: the in-memory store of hosts and log events
  every server shares. Each method of \<open>StateStore\<close> takes the lock once, so it is one
  atomic function on the store here; the clock reading it makes is the argument \<open>now\<close>
  (nanoseconds). The hash map is a finite map; the unspecified order in which
  \<open>HashMap::values\<close> visits it is the parameter \<open>order\<close> of \<open>list_hosts\<close>.
\<close>

section \<open>Data\<close>

definition MAX_TRACKED_HOSTS :: nat where
  "MAX_TRACKED_HOSTS = 4096"

definition MAX_LOGS :: nat where
  "MAX_LOGS = 200"

datatype host_status = Polling | Booting | Completed | Failed

record host_state =
  hs_mac :: string
  hs_name :: "string option"
  hs_status :: host_status
  hs_assigned_target :: "string option"
  hs_last_seen :: int
  hs_client_ip :: "string option"
  hs_architecture :: "string option"

record log_record =
  le_timestamp :: int
  le_level :: string
  le_mac :: "string option"
  le_message :: string

record state_store =
  ss_hosts :: "(string, host_state) fmap"
  ss_logs :: "log_record list"

definition new_store :: state_store where
  "new_store = \<lparr>ss_hosts = fmempty, ss_logs = []\<rparr>"

section \<open>Operations\<close>

definition update_host_status ::
  "int \<Rightarrow> string \<Rightarrow> host_status \<Rightarrow> string option \<Rightarrow> string option \<Rightarrow> string option
   \<Rightarrow> string option \<Rightarrow> state_store \<Rightarrow> state_store" where
  "update_host_status now mac status name target ip arch st =
     (let normalized = normalize_mac mac in
      if fmlookup (ss_hosts st) normalized = None \<and> fm_size (ss_hosts st) \<ge> MAX_TRACKED_HOSTS
      then st
      else
        (let entry0 = (case fmlookup (ss_hosts st) normalized of
                         Some h \<Rightarrow> h
                       | None \<Rightarrow>
                           \<lparr>hs_mac = normalized, hs_name = None, hs_status = status,
                            hs_assigned_target = None, hs_last_seen = now,
                            hs_client_ip = None, hs_architecture = None\<rparr>);
             entry1 = entry0\<lparr>hs_status := status, hs_last_seen := now\<rparr>;
             entry2 = (if name \<noteq> None then entry1\<lparr>hs_name := name\<rparr> else entry1);
             entry3 = (if target \<noteq> None then entry2\<lparr>hs_assigned_target := target\<rparr> else entry2);
             entry4 = (if ip \<noteq> None then entry3\<lparr>hs_client_ip := ip\<rparr> else entry3);
             entry5 = (if arch \<noteq> None then entry4\<lparr>hs_architecture := arch\<rparr> else entry4)
         in st\<lparr>ss_hosts := fmupd normalized entry5 (ss_hosts st)\<rparr>))"

definition get_host :: "string \<Rightarrow> state_store \<Rightarrow> host_state option" where
  "get_host mac st = fmlookup (ss_hosts st) (normalize_mac mac)"

type_synonym host_order = "(string, host_state) fmap \<Rightarrow> host_state list"

definition list_hosts :: "host_order \<Rightarrow> state_store \<Rightarrow> host_state list" where
  "list_hosts order st = order (ss_hosts st)"

text \<open>\<open>SystemTime::duration_since\<close>: an error when the argument lies in the future.\<close>

definition duration_since :: "int \<Rightarrow> int \<Rightarrow> nat option" where
  "duration_since now earlier = (if earlier \<le> now then Some (nat (now - earlier)) else None)"

definition as_secs :: "nat \<Rightarrow> nat" where
  "as_secs nanos = nanos div 1000000000"

definition from_secs :: "nat \<Rightarrow> nat" where
  "from_secs s = s * 1000000000"

definition from_millis :: "nat \<Rightarrow> nat" where
  "from_millis ms = ms * 1000000"

definition has_recent_activity :: "int \<Rightarrow> nat \<Rightarrow> state_store \<Rightarrow> bool" where
  "has_recent_activity now max_age st =
     fBex (fmran (ss_hosts st))
       (\<lambda>h. case duration_since now (hs_last_seen h) of
              Some age \<Rightarrow> age \<le> max_age
            | None \<Rightarrow> False)"

text \<open>The eviction loop of \<open>log_event\<close>: pop from the front while above the cap.\<close>

fun evict_oldest :: "log_record list \<Rightarrow> log_record list" where
  "evict_oldest ls = (if length ls > MAX_LOGS then evict_oldest (tl ls) else ls)"

declare evict_oldest.simps [simp del]

definition log_event :: "int \<Rightarrow> string \<Rightarrow> string option \<Rightarrow> string \<Rightarrow> state_store \<Rightarrow> state_store" where
  "log_event now level mac message st =
     st\<lparr>ss_logs := evict_oldest (ss_logs st @
          [\<lparr>le_timestamp = now, le_level = level, le_mac = map_option normalize_mac mac,
            le_message = message\<rparr>])\<rparr>"

definition list_logs :: "state_store \<Rightarrow> log_record list" where
  "list_logs st = ss_logs st"

text \<open>The predicate \<open>clean_stale_hosts\<close> retains by.\<close>

definition retain_host :: "int \<Rightarrow> nat \<Rightarrow> host_state \<Rightarrow> bool" where
  "retain_host now max_idle_secs h =
     (case duration_since now (hs_last_seen h) of
        Some d \<Rightarrow> as_secs d < max_idle_secs
      | None \<Rightarrow> True)"

definition clean_stale_hosts :: "int \<Rightarrow> nat \<Rightarrow> state_store \<Rightarrow> state_store" where
  "clean_stale_hosts now max_idle_secs st =
     st\<lparr>ss_hosts := fmfilter (\<lambda>k. case fmlookup (ss_hosts st) k of
                                   Some h \<Rightarrow> retain_host now max_idle_secs h
                                 | None \<Rightarrow> False) (ss_hosts st)\<rparr>"

section \<open>The effect of one call, as a value\<close>

text \<open>
  The servers change the store only through the three mutating methods. A call is a
  value of \<open>store_op\<close>, so that a handler's effect on the store is a list of calls.
\<close>

datatype store_op =
    UpdateHost string host_status "string option" "string option" "string option" "string option"
  | LogEvent string "string option" string
  | CleanStale nat

fun apply_op :: "int \<Rightarrow> store_op \<Rightarrow> state_store \<Rightarrow> state_store" where
  "apply_op now (UpdateHost mac status name target ip arch) st =
     update_host_status now mac status name target ip arch st"
| "apply_op now (LogEvent level mac message) st = log_event now level mac message st"
| "apply_op now (CleanStale secs) st = clean_stale_hosts now secs st"

text \<open>The MAC a call names.\<close>

definition op_mac :: "store_op \<Rightarrow> string option" where
  "op_mac op = (case op of UpdateHost mac _ _ _ _ _ \<Rightarrow> Some mac | LogEvent _ m _ \<Rightarrow> m | CleanStale _ \<Rightarrow> None)"

definition apply_ops :: "int \<Rightarrow> store_op list \<Rightarrow> state_store \<Rightarrow> state_store" where
  "apply_ops now ops st = fold (apply_op now) ops st"

section \<open>Invariant\<close>

text \<open>
  The table and the log are bounded, every entry sits under its own normalised MAC, and
  the MACs in the log are normalised.
\<close>

definition wf_store :: "state_store \<Rightarrow> bool" where
  "wf_store st \<longleftrightarrow>
     fm_size (ss_hosts st) \<le> MAX_TRACKED_HOSTS \<and> length (ss_logs st) \<le> MAX_LOGS \<and>
     (\<forall>k h. fmlookup (ss_hosts st) k = Some h \<longrightarrow> hs_mac h = k \<and> normalize_mac k = k) \<and>
     (\<forall>e \<in> set (ss_logs st). \<forall>m. le_mac e = Some m \<longrightarrow> normalize_mac m = m)"

lemma evict_oldest_eq: "evict_oldest ls = drop (length ls - MAX_LOGS) ls"
proof (induction ls rule: evict_oldest.induct)
  case (1 ls)
  show ?case
  proof (cases "length ls > MAX_LOGS")
    case True
    with 1 have "evict_oldest (tl ls) = drop (length (tl ls) - MAX_LOGS) (tl ls)" by blast
    also have "\<dots> = drop (length ls - MAX_LOGS) ls"
      using True by (simp add: drop_Suc [symmetric] Suc_diff_Suc)
    finally show ?thesis using True by (simp add: evict_oldest.simps [of ls])
  next
    case False
    then show ?thesis by (simp add: evict_oldest.simps [of ls])
  qed
qed

lemma length_evict_oldest: "length (evict_oldest ls) \<le> MAX_LOGS"
  by (simp add: evict_oldest_eq)

lemma set_evict_oldest: "set (evict_oldest ls) \<subseteq> set ls"
  by (simp add: evict_oldest_eq set_drop_subset)

lemma logs_update [store_simps]:
  "ss_logs (update_host_status now mac s n t i a st) = ss_logs st"
  "ss_logs (clean_stale_hosts now secs st) = ss_logs st"
  "ss_hosts (log_event now level m msg st) = ss_hosts st"
  by (simp_all add: update_host_status_def Let_def clean_stale_hosts_def log_event_def)

text \<open>The merge of an update into an entry: an absent option keeps the old value.\<close>

definition merge_opt :: "'a option \<Rightarrow> 'a option \<Rightarrow> 'a option" where
  "merge_opt new old = (case new of Some _ \<Rightarrow> new | None \<Rightarrow> old)"

definition store_full :: "string \<Rightarrow> state_store \<Rightarrow> bool" where
  "store_full mac st \<longleftrightarrow>
     fmlookup (ss_hosts st) (normalize_mac mac) = None \<and> MAX_TRACKED_HOSTS \<le> fm_size (ss_hosts st)"

definition blank_host :: "string \<Rightarrow> host_state" where
  "blank_host mac = \<lparr>hs_mac = normalize_mac mac, hs_name = None, hs_status = Polling,
     hs_assigned_target = None, hs_last_seen = 0, hs_client_ip = None, hs_architecture = None\<rparr>"

definition merged_host ::
  "int \<Rightarrow> host_status \<Rightarrow> string option \<Rightarrow> string option \<Rightarrow> string option \<Rightarrow> string option
   \<Rightarrow> host_state \<Rightarrow> host_state" where
  "merged_host now status name target ip arch h =
     \<lparr>hs_mac = hs_mac h, hs_name = merge_opt name (hs_name h), hs_status = status,
      hs_assigned_target = merge_opt target (hs_assigned_target h), hs_last_seen = now,
      hs_client_ip = merge_opt ip (hs_client_ip h),
      hs_architecture = merge_opt arch (hs_architecture h)\<rparr>"

lemma lookup_update_host_status [store_simps]:
  "fmlookup (ss_hosts (update_host_status now mac status name target ip arch st)) k =
     (if store_full mac st \<or> k \<noteq> normalize_mac mac then fmlookup (ss_hosts st) k
      else Some (merged_host now status name target ip arch
             (case get_host mac st of Some h \<Rightarrow> h | None \<Rightarrow> blank_host mac)))"
  by (auto simp: update_host_status_def Let_def store_full_def get_host_def merged_host_def
      merge_opt_def blank_host_def split: option.splits)

lemma fm_size_update_host_status:
  "fm_size (ss_hosts st) \<le> MAX_TRACKED_HOSTS \<Longrightarrow>
   fm_size (ss_hosts (update_host_status now mac status name target ip arch st)) \<le> MAX_TRACKED_HOSTS"
  by (auto simp: update_host_status_def Let_def fm_size_upd)

lemma lookup_clean_stale_hosts [store_simps]:
  "fmlookup (ss_hosts (clean_stale_hosts now secs st)) k =
     (case fmlookup (ss_hosts st) k of
        Some h \<Rightarrow> if retain_host now secs h then Some h else None
      | None \<Rightarrow> None)"
  by (simp add: clean_stale_hosts_def split: option.split)

lemma wf_new_store [simp]: "wf_store new_store"
  by (simp add: wf_store_def new_store_def)

lemma wf_update_host_status:
  "wf_store st \<Longrightarrow> wf_store (update_host_status now mac status name target ip arch st)"
  unfolding wf_store_def
  by (intro conjI allI impI)
    (auto simp: fm_size_update_host_status store_simps merged_host_def blank_host_def get_host_def
      split: if_splits option.splits)

lemma wf_log_event: "wf_store st \<Longrightarrow> wf_store (log_event now level mac msg st)"
proof -
  assume wf: "wf_store st"
  define e where "e = \<lparr>le_timestamp = now, le_level = level, le_mac = map_option normalize_mac mac, le_message = msg\<rparr>"
  have "set (ss_logs (log_event now level mac msg st)) \<subseteq> set (ss_logs st) \<union> {e}"
    using set_evict_oldest [of "ss_logs st @ [e]"] by (auto simp: log_event_def e_def)
  moreover have "\<And>m. le_mac e = Some m \<Longrightarrow> normalize_mac m = m" by (auto simp: e_def)
  moreover have "length (ss_logs (log_event now level mac msg st)) \<le> MAX_LOGS"
    by (simp add: log_event_def length_evict_oldest)
  ultimately show ?thesis using wf unfolding wf_store_def by (auto simp: store_simps)
qed

lemma wf_clean_stale_hosts: "wf_store st \<Longrightarrow> wf_store (clean_stale_hosts now secs st)"
proof -
  assume wf: "wf_store st"
  have "fm_size (ss_hosts (clean_stale_hosts now secs st)) \<le> fm_size (ss_hosts st)"
    by (simp add: clean_stale_hosts_def fm_size_filter)
  with wf show ?thesis
    by (auto simp: wf_store_def store_simps split: option.splits if_splits)
qed

lemma wf_apply_op: "wf_store st \<Longrightarrow> wf_store (apply_op now op st)"
  by (cases op) (simp_all add: wf_update_host_status wf_log_event wf_clean_stale_hosts)

end
