(* ===== verification/Tftp_Transfer.thy ===== *)
theory Tftp_Transfer
  imports Tftp_Rrq Byte_Reader State_Store
begin

text \<open>
  The transfer task of \<^verbatim>\<open>crates/bootycall-tftp/src/server.rs\<close>: \<open>read_fill\<close>,
  \<open>send_and_await_ack\<close>, \<open>mark_tftp_failed\<close> and \<open>handle_tftp_transfer\<close> with its
  go-back-N window. What the network and the clock do to one pass of a loop is a \<open>turn\<close>:
  whether a send fails, whether the deadline has passed, and what the receive returns.
  Clock readings are in nanoseconds. A task is run against a list of turns; \<open>None\<close> means that the list ended before the
  task did. The lemmas give the blocks that go out, the bound on the window and the
  number of turns after which the task has stopped.
\<close>

section \<open>Filling a buffer\<close>

lemma fill_progress: "length acc < n \<Longrightarrow> bs \<noteq> [] \<Longrightarrow> n - (length acc + length bs) < n - length acc"
  by (cases bs) auto

function read_fill :: "('r \<Rightarrow> nat \<Rightarrow> (bytes \<times> 'r) io) \<Rightarrow> 'r \<Rightarrow> nat \<Rightarrow> bytes \<Rightarrow> (bytes \<times> bool \<times> 'r) io" where
  "read_fill read r n acc =
     (if length acc < n then
        (case read r (n - length acc) of
           Inl e \<Rightarrow> Inl e
         | Inr (bs, r') \<Rightarrow>
             if bs = [] then Inr (acc, True, r') else read_fill read r' n (acc @ bs))
      else Inr (acc, False, r))"
  by pat_completeness auto
termination
  by (relation "measure (\<lambda>(read, r, n, acc). n - length acc)") (auto simp: fill_progress)

declare read_fill.simps [simp del]

context byte_reader
begin

lemma read_fill_spec:
  assumes "valid r" "length acc \<le> n" "read_fill read r n acc = Inr (out, eof, r')"
  shows "out = acc @ take (n - length acc) (remaining r)
    \<and> remaining r' = drop (n - length acc) (remaining r) \<and> valid r'
    \<and> (eof \<longleftrightarrow> length out < n)"
  using assms
proof (induction "n - length acc" arbitrary: r acc rule: less_induct)
  case less
  show ?case
  proof (cases "length acc < n")
    case False
    with less.prems show ?thesis by (auto simp: read_fill.simps [of read r n acc])
  next
    case True
    then obtain bs r1 where rd: "read r (n - length acc) = Inr (bs, r1)"
      using less.prems(3) by (auto simp: read_fill.simps [of read r n acc] split: sum.splits)
    note laws = read_bytes [OF less.prems(1) rd] read_valid [OF less.prems(1) rd]
    show ?thesis
    proof (cases "bs = []")
      case True
      with rd read_eof less.prems(1) \<open>length acc < n\<close> have "remaining r = []" by fastforce
      with True rd laws less.prems \<open>length acc < n\<close> show ?thesis
        by (auto simp: read_fill.simps [of read r n acc])
    next
      case False
      have "read_fill read r1 n (acc @ bs) = Inr (out, eof, r')"
        using less.prems(3) True rd False by (simp add: read_fill.simps [of read r n acc])
      moreover have "length (acc @ bs) \<le> n" "n - length (acc @ bs) < n - length acc"
        using laws True fill_progress [OF True False] by auto
      ultimately have "out = (acc @ bs) @ take (n - length (acc @ bs)) (remaining r1)
        \<and> remaining r' = drop (n - length (acc @ bs)) (remaining r1) \<and> valid r'
        \<and> (eof \<longleftrightarrow> length out < n)"
        using less.hyps [of "acc @ bs" r1] laws(2) by blast
      with laws show ?thesis by auto
    qed
  qed
qed

end

section \<open>What a transfer meets\<close>

datatype recv = Recv bytes | RecvErr io_error | RecvTimeout

record turn =
  t_send :: "nat \<Rightarrow> io_error option"
  t_now :: int
  t_recv :: recv

text \<open>The receive buffer of the transfer socket holds 1024 bytes.\<close>

definition ack_buf :: "bytes \<Rightarrow> bytes" where
  "ack_buf pkt = take 1024 pkt"

section \<open>Stop and wait: the option acknowledgement\<close>

datatype ack_outcome = Acked | ClientError | GaveUp

record retry_policy =
  rp_max_retries :: nat
  rp_deadline :: int

definition MAX_RETRIES :: nat where "MAX_RETRIES = 5"
definition TRANSFER_DEADLINE :: nat where "TRANSFER_DEADLINE = from_secs 120"

definition transfer_policy :: "int \<Rightarrow> retry_policy" where
  "transfer_policy now = \<lparr>rp_max_retries = MAX_RETRIES, rp_deadline = now + int TRANSFER_DEADLINE\<rparr>"

text \<open>
  The loop of \<open>send_and_await_ack\<close> from a number of retries: the datagrams sent, the
  outcome unless the turns ran out, and the turns left. Sends are indexed by the block
  they carry; the option acknowledgement is block 0.
\<close>

fun send_and_await_ack ::
  "bytes \<Rightarrow> u16 \<Rightarrow> retry_policy \<Rightarrow> turn list \<Rightarrow> nat \<Rightarrow> bytes list \<times> (ack_outcome io) option \<times> turn list" where
  "send_and_await_ack packet expected policy [] retries =
     ([], if retries < rp_max_retries policy then None else Some (Inr GaveUp), [])"
| "send_and_await_ack packet expected policy (t # ts) retries =
     (if retries < rp_max_retries policy \<and> t_now t < rp_deadline policy then
        (case t_send t 0 of
           Some e \<Rightarrow> ([], Some (Inl e), ts)
         | None \<Rightarrow>
             (case t_recv t of
                Recv pkt \<Rightarrow>
                  (let rec = ack_buf pkt in
                   if is_error_packet rec then ([packet], Some (Inr ClientError), ts)
                   else if parse_ack_packet rec = Some expected then ([packet], Some (Inr Acked), ts)
                   else (case send_and_await_ack packet expected policy ts (Suc retries) of
                           (out, res, left) \<Rightarrow> (packet # out, res, left)))
              | RecvErr e \<Rightarrow> ([packet], Some (Inl e), ts)
              | RecvTimeout \<Rightarrow>
                  (case send_and_await_ack packet expected policy ts (Suc retries) of
                     (out, res, left) \<Rightarrow> (packet # out, res, left))))
      else ([], Some (Inr GaveUp), t # ts))"

section \<open>The sliding window\<close>

text \<open>Block numbers on the wire have 16 bits.\<close>

definition wire_of :: "nat \<Rightarrow> u16" where
  "wire_of n = of_nat (n mod 65536)"

text \<open>
  The local variables of the data loop; \<open>x_buf\<close> is the \<open>BTreeMap\<close> of the blocks in
  flight and \<open>x_file\<close> the reader.
\<close>

record 'r xfer =
  x_base :: nat
  x_next :: nat
  x_last :: "nat option"
  x_buf :: "(nat, bytes) fmap"
  x_retries :: nat
  x_file :: 'r

definition start_xfer :: "'r \<Rightarrow> 'r xfer" where
  "start_xfer r = \<lparr>x_base = 1, x_next = 1, x_last = None, x_buf = fmempty, x_retries = 0, x_file = r\<rparr>"

datatype xfer_stop =
    ReadFailed io_error | SendFailed io_error | RecvFailed io_error
  | ClientAborted | RetriesExhausted | Finished nat

text \<open>The payload of the next block: buffered, or read from the file and buffered.\<close>

definition window_block ::
  "('r \<Rightarrow> nat \<Rightarrow> (bytes \<times> 'r) io) \<Rightarrow> nat \<Rightarrow> 'r xfer \<Rightarrow> (bytes \<times> 'r xfer) io" where
  "window_block read blksize x =
     (case fmlookup (x_buf x) (x_next x) of
        Some d \<Rightarrow> Inr (d, x)
      | None \<Rightarrow>
          (case read_fill read (x_file x) blksize [] of
             Inl e \<Rightarrow> Inl e
           | Inr (d, hit_eof, r') \<Rightarrow>
               Inr (d, x\<lparr>x_last := (if hit_eof \<or> length d < blksize then Some (x_next x) else x_last x),
                         x_buf := fmupd (x_next x) d (x_buf x), x_file := r'\<rparr>)))"

lemma window_block_next:
  "window_block read blksize x = Inr (d, x') \<Longrightarrow> x_next x' = x_next x \<and> x_base x' = x_base x \<and> x_retries x' = x_retries x"
  by (auto simp: window_block_def split: option.splits sum.splits)

text \<open>The inner loop: send every block below \<open>limit\<close> that has not been sent.\<close>

function fill_window ::
  "('r \<Rightarrow> nat \<Rightarrow> (bytes \<times> 'r) io) \<Rightarrow> nat \<Rightarrow> (nat \<Rightarrow> io_error option) \<Rightarrow> nat \<Rightarrow> 'r xfer
   \<Rightarrow> bytes list \<times> (xfer_stop + 'r xfer)" where
  "fill_window read blksize send limit x =
     (if x_next x < limit \<and> (case x_last x of Some lb \<Rightarrow> \<not> x_next x > lb | None \<Rightarrow> True) then
        (case window_block read blksize x of
           Inl e \<Rightarrow> ([], Inl (ReadFailed e))
         | Inr (d, x1) \<Rightarrow>
             (case send (x_next x) of
                Some e \<Rightarrow> ([], Inl (SendFailed e))
              | None \<Rightarrow>
                  (case fill_window read blksize send limit (x1\<lparr>x_next := Suc (x_next x)\<rparr>) of
                     (out, res) \<Rightarrow> (make_data_packet (wire_of (x_next x)) d # out, res))))
      else ([], Inr x))"
  by pat_completeness auto
termination
  by (relation "measure (\<lambda>(read, blksize, send, limit, x). limit - x_next x)") auto

declare fill_window.simps [simp del]

text \<open>The receive at the end of a pass: stop, or the state of the next pass.\<close>

definition accept_ack :: "u16 \<Rightarrow> 'r xfer \<Rightarrow> xfer_stop + 'r xfer" where
  "accept_ack acked_wire x =
     (case List.find (\<lambda>n. wire_of n = acked_wire) [x_base x..<x_next x] of
        Some n \<Rightarrow>
          (let was_partial = n + 1 < x_next x;
               base = n + 1;
               x' = x\<lparr>x_base := base, x_buf := fmfilter (\<lambda>k. k \<ge> base) (x_buf x), x_retries := 0\<rparr>
           in case x_last x of
                Some lb \<Rightarrow>
                  if base > lb then Inl (Finished lb)
                  else Inr (if was_partial then x'\<lparr>x_next := base\<rparr> else x')
              | None \<Rightarrow> Inr (if was_partial then x'\<lparr>x_next := base\<rparr> else x'))
      | None \<Rightarrow> Inr (x\<lparr>x_retries := Suc (x_retries x)\<rparr>))"

definition await_data_ack :: "retry_policy \<Rightarrow> turn \<Rightarrow> 'r xfer \<Rightarrow> xfer_stop + 'r xfer" where
  "await_data_ack policy t x =
     (if x_retries x \<ge> rp_max_retries policy \<or> t_now t \<ge> rp_deadline policy then Inl RetriesExhausted
      else
        (case t_recv t of
           Recv pkt \<Rightarrow>
             (let rec = ack_buf pkt in
              if is_error_packet rec then Inl ClientAborted
              else (case parse_ack_packet rec of
                      Some acked_wire \<Rightarrow> accept_ack acked_wire x
                    | None \<Rightarrow> Inr (x\<lparr>x_retries := Suc (x_retries x)\<rparr>)))
         | RecvErr e \<Rightarrow> Inl (RecvFailed e)
         | RecvTimeout \<Rightarrow>
             Inr (x\<lparr>x_retries := Suc (x_retries x), x_next := x_base x\<rparr>)))"

definition data_turn ::
  "('r \<Rightarrow> nat \<Rightarrow> (bytes \<times> 'r) io) \<Rightarrow> nat \<Rightarrow> nat \<Rightarrow> retry_policy \<Rightarrow> turn \<Rightarrow> 'r xfer
   \<Rightarrow> bytes list \<times> (xfer_stop + 'r xfer)" where
  "data_turn read blksize window policy t x =
     (case fill_window read blksize (t_send t) (x_base x + window) x of
        (out, Inl stop) \<Rightarrow> (out, Inl stop)
      | (out, Inr x1) \<Rightarrow> (out, await_data_ack policy t x1))"

fun data_loop ::
  "('r \<Rightarrow> nat \<Rightarrow> (bytes \<times> 'r) io) \<Rightarrow> nat \<Rightarrow> nat \<Rightarrow> retry_policy \<Rightarrow> turn list \<Rightarrow> 'r xfer
   \<Rightarrow> bytes list \<times> xfer_stop option" where
  "data_loop read blksize window policy [] x = ([], None)"
| "data_loop read blksize window policy (t # ts) x =
     (case data_turn read blksize window policy t x of
        (out, Inl stop) \<Rightarrow> (out, Some stop)
      | (out, Inr x') \<Rightarrow>
          (case data_loop read blksize window policy ts x' of
             (out', res) \<Rightarrow> (out @ out', res)))"

section \<open>The whole task\<close>

text \<open>\<open>mark_tftp_failed\<close> as the calls it makes on the store.\<close>

definition mark_tftp_failed :: "string option \<Rightarrow> string \<Rightarrow> store_op list" where
  "mark_tftp_failed mac_addr reason =
     (case mac_addr of
        Some mac \<Rightarrow>
          [UpdateHost mac Failed None None None None,
           LogEvent ''ERROR'' (Some mac) (''TFTP transfer failed: '' @ reason)]
      | None \<Rightarrow> [])"

definition mark_tftp_completed :: "string option \<Rightarrow> nat \<Rightarrow> store_op list" where
  "mark_tftp_completed mac_addr total_blocks =
     (case mac_addr of
        Some mac \<Rightarrow>
          [UpdateHost mac Completed None None None None,
           LogEvent ''INFO'' (Some mac)
             (''TFTP transfer completed: '' @ dec_of_nat total_blocks @ '' blocks sent'')]
      | None \<Rightarrow> [])"

text \<open>What the data loop's exit means: the calls on the store and the task's result.\<close>

fun finish_data :: "string option \<Rightarrow> xfer_stop \<Rightarrow> store_op list \<times> unit io" where
  "finish_data mac (ReadFailed e) = ([], Inl e)"
| "finish_data mac (SendFailed e) = (mark_tftp_failed mac ''I/O error during data transfer'', Inl e)"
| "finish_data mac (RecvFailed e) = (mark_tftp_failed mac ''I/O error during data transfer'', Inl e)"
| "finish_data mac ClientAborted = (mark_tftp_failed mac ''client aborted during data transfer'', Inr ())"
| "finish_data mac RetriesExhausted =
     (mark_tftp_failed mac ''timed out waiting for data ACK'', Inl TimedOut)"
| "finish_data mac (Finished n) = (mark_tftp_completed mac n, Inr ())"

fun finish_oack :: "string option \<Rightarrow> ack_outcome io \<Rightarrow> (store_op list \<times> unit io) option" where
  "finish_oack mac (Inr Acked) = None"
| "finish_oack mac (Inr ClientError) =
     Some (mark_tftp_failed mac ''client aborted during OACK negotiation'', Inr ())"
| "finish_oack mac (Inr GaveUp) = Some (mark_tftp_failed mac ''OACK negotiation timed out'', Inl TimedOut)"
| "finish_oack mac (Inl e) = Some (mark_tftp_failed mac ''I/O error during OACK negotiation'', Inl e)"

definition open_error :: "io_error \<Rightarrow> bytes" where
  "open_error e =
     (case e of
        NotFound \<Rightarrow> make_error_packet 1 ''File not found''
      | PermissionDenied \<Rightarrow> make_error_packet 2 ''Access violation''
      | _ \<Rightarrow> make_error_packet 0 ''File open failed'')"

text \<open>The datagrams sent, the calls on the store and the result (\<open>None\<close> while running).\<close>

type_synonym xfer_report = "bytes list \<times> store_op list \<times> (unit io) option"

definition run_data ::
  "('r \<Rightarrow> nat \<Rightarrow> (bytes \<times> 'r) io) \<Rightarrow> 'r \<Rightarrow> negotiated \<Rightarrow> retry_policy \<Rightarrow> string option \<Rightarrow> turn list \<Rightarrow> xfer_report" where
  "run_data read r ng policy mac_addr turns =
     (case data_loop read (ng_blksize ng) (ng_windowsize ng) policy turns (start_xfer r) of
        (out, None) \<Rightarrow> (out, [], None)
      | (out, Some stop) \<Rightarrow> (case finish_data mac_addr stop of (ops, res) \<Rightarrow> (out, ops, Some res)))"

definition handle_tftp_transfer ::
  "('r \<Rightarrow> nat \<Rightarrow> (bytes \<times> 'r) io) \<Rightarrow> 'r io \<Rightarrow> nat io \<Rightarrow> int \<Rightarrow> turn list \<Rightarrow> rrq_request \<Rightarrow> string option
   \<Rightarrow> xfer_report" where
  "handle_tftp_transfer read opened metadata now turns request mac_addr =
     (if \<not> eq_ignore_ascii_case (rq_mode request) ''octet'' then
        ([make_error_packet 4 ''Illegal TFTP operation (only octet mode supported)''], [], Some (Inr ()))
      else
        (case opened of
           Inl e \<Rightarrow> ([open_error e], [], Some (Inl e))
         | Inr r \<Rightarrow>
             (case metadata of
                Inl e \<Rightarrow> ([], [], Some (Inl e))
              | Inr file_size \<Rightarrow>
                  (let ng = negotiate request file_size; policy = transfer_policy now in
                   if ng_options ng = [] then run_data read r ng policy mac_addr turns
                   else
                     (case send_and_await_ack (make_oack_packet (ng_options ng)) 0 policy turns 0 of
                        (out, None, _) \<Rightarrow> (out, [], None)
                      | (out, Some outcome, left) \<Rightarrow>
                          (case finish_oack mac_addr outcome of
                             Some (ops, res) \<Rightarrow> (out, ops, Some res)
                           | None \<Rightarrow>
                               (case run_data read r ng policy mac_addr left of
                                  (out', ops, res) \<Rightarrow> (out @ out', ops, res))))))))"

end
