(* ===== verification/Tftp_Window.thy ===== *)
theory Tftp_Window
  imports Tftp_Transfer
begin

text \<open>
  Correctness of the data loop of \<open>Tftp_Transfer\<close>. The reference is \<open>file_block\<close>, the
  cut of the file into blocks; the invariant \<open>xfer_inv\<close> relates the window's buffer and
  the reader to it. Proved for every reader that keeps the contract of \<open>Byte_Reader\<close>.
\<close>

section \<open>The file cut into blocks\<close>

definition file_block :: "nat \<Rightarrow> bytes \<Rightarrow> nat \<Rightarrow> bytes" where
  "file_block blksize content k = take blksize (drop ((k - 1) * blksize) content)"

definition num_blocks :: "nat \<Rightarrow> bytes \<Rightarrow> nat" where
  "num_blocks blksize content = length content div blksize + 1"

definition block_packet :: "nat \<Rightarrow> bytes \<Rightarrow> nat \<Rightarrow> bytes" where
  "block_packet blksize content k = make_data_packet (wire_of k) (file_block blksize content k)"

lemma file_block_short:
  assumes "0 < B" "1 \<le> k" "k \<le> num_blocks B C"
  shows "length (file_block B C k) < B \<longleftrightarrow> k = num_blocks B C"
proof (cases "k = num_blocks B C")
  case True
  have "length C - (length C div B) * B = length C mod B"
    by (simp add: minus_div_mult_eq_mod)
  with True assms(1) show ?thesis by (simp add: file_block_def num_blocks_def)
next
  case False
  with assms have "k \<le> length C div B" by (simp add: num_blocks_def)
  then have "k * B \<le> length C"
    by (metis assms(1) less_eq_div_iff_mult_less_eq)
  moreover have "k * B = (k - 1) * B + B" using assms(2) by (cases k) auto
  ultimately have "B \<le> length (drop ((k - 1) * B) C)" by simp
  with False show ?thesis by (simp add: file_block_def)
qed

lemma concat_file_blocks_take:
  "concat (map (file_block B C) [1..<Suc n]) = take (n * B) C"
proof (induction n)
  case 0
  then show ?case by simp
next
  case (Suc n)
  have "concat (map (file_block B C) [1..<Suc (Suc n)])
    = concat (map (file_block B C) [1..<Suc n]) @ file_block B C (Suc n)"
    by simp
  also have "\<dots> = take (n * B) C @ take B (drop (n * B) C)"
    unfolding Suc.IH by (simp add: file_block_def)
  also have "\<dots> = take (n * B + B) C" by (simp add: take_add)
  finally show ?case by (simp add: add.commute)
qed

lemma num_blocks_cover: "0 < B \<Longrightarrow> length C < num_blocks B C * B"
  by (simp add: num_blocks_def) (metis dividend_less_div_times add.commute)

lemma concat_file_blocks: "0 < B \<Longrightarrow> concat (map (file_block B C) [1..<Suc (num_blocks B C)]) = C"
  using num_blocks_cover [of B C] unfolding concat_file_blocks_take by simp

section \<open>Invariant of the window\<close>

text \<open>Blocks \<open>x_base ..< hi\<close> are buffered; \<open>hi\<close> is the next block to read from the file.\<close>

definition xfer_inv_at ::
  "('r \<Rightarrow> bytes) \<Rightarrow> ('r \<Rightarrow> bool) \<Rightarrow> nat \<Rightarrow> nat \<Rightarrow> bytes \<Rightarrow> 'r xfer \<Rightarrow> nat \<Rightarrow> bool" where
  "xfer_inv_at remaining valid B W C x hi \<longleftrightarrow>
     1 \<le> x_base x \<and> x_base x \<le> num_blocks B C \<and> x_base x \<le> x_next x \<and> x_next x \<le> hi \<and>
     hi \<le> x_base x + W \<and> hi \<le> num_blocks B C + 1 \<and>
     (\<forall>k. fmlookup (x_buf x) k
        = (if x_base x \<le> k \<and> k < hi then Some (file_block B C k) else None)) \<and>
     valid (x_file x) \<and>
     (case x_last x of
        None \<Rightarrow> hi \<le> num_blocks B C \<and> remaining (x_file x) = drop ((hi - 1) * B) C
      | Some l \<Rightarrow> l = num_blocks B C \<and> hi = num_blocks B C + 1)"

definition xfer_inv ::
  "('r \<Rightarrow> bytes) \<Rightarrow> ('r \<Rightarrow> bool) \<Rightarrow> nat \<Rightarrow> nat \<Rightarrow> bytes \<Rightarrow> 'r xfer \<Rightarrow> bool" where
  "xfer_inv remaining valid B W C x \<longleftrightarrow> (\<exists>hi. xfer_inv_at remaining valid B W C x hi)"

lemma start_xfer_inv:
  "valid r \<Longrightarrow> remaining r = C \<Longrightarrow> xfer_inv remaining valid B W C (start_xfer r)"
  unfolding xfer_inv_def
  by (rule exI [of _ 1]) (auto simp: xfer_inv_at_def start_xfer_def num_blocks_def)

lemma xfer_inv_bounds:
  assumes "xfer_inv remaining valid B W C x"
  shows "1 \<le> x_base x" "x_base x \<le> num_blocks B C" "x_base x \<le> x_next x"
    "x_next x \<le> x_base x + W" "x_next x \<le> num_blocks B C + 1"
  using assms by (auto simp: xfer_inv_def xfer_inv_at_def)

text \<open>The window's buffer never holds more than \<open>W\<close> blocks.\<close>

lemma xfer_inv_buffer:
  assumes "xfer_inv remaining valid B W C x"
  shows "fm_size (x_buf x) \<le> W"
proof -
  from assms obtain hi where inv: "xfer_inv_at remaining valid B W C x hi"
    by (auto simp: xfer_inv_def)
  have "fset (fmdom (x_buf x)) \<subseteq> {x_base x..<hi}"
    using inv by (auto simp: xfer_inv_at_def fmlookup_dom_iff split: if_splits)
  then have "card (fset (fmdom (x_buf x))) \<le> hi - x_base x"
    using card_mono [of "{x_base x..<hi}"] by fastforce
  moreover have "hi - x_base x \<le> W" using inv by (auto simp: xfer_inv_at_def)
  ultimately show ?thesis by (simp add: fm_size_def fcard.rep_eq)
qed

definition sendable :: "'r xfer \<Rightarrow> bool" where
  "sendable x \<longleftrightarrow> (case x_last x of Some lb \<Rightarrow> \<not> x_next x > lb | None \<Rightarrow> True)"

text \<open>
  How many more passes the loop can make: each pass that does not stop either moves the
  window, and starts a new retry budget, or spends one retry.
\<close>

definition passes_left :: "nat \<Rightarrow> bytes \<Rightarrow> nat \<Rightarrow> 'r xfer \<Rightarrow> nat" where
  "passes_left B C R x = (num_blocks B C + 1 - x_base x) * Suc R + (R - x_retries x)"

definition covered :: "nat \<Rightarrow> bytes \<Rightarrow> bytes set \<Rightarrow> nat \<Rightarrow> bool" where
  "covered B C sent n \<longleftrightarrow> (\<forall>k. 1 \<le> k \<and> k < n \<longrightarrow> block_packet B C k \<in> sent)"

lemma covered_mono: "covered B C S n \<Longrightarrow> S \<subseteq> T \<Longrightarrow> m \<le> n \<Longrightarrow> covered B C T m"
  by (auto simp: covered_def)

lemma passes_left_retry:
  "x_base x' = x_base x \<Longrightarrow> x_retries x' = Suc (x_retries x) \<Longrightarrow> x_retries x < R \<Longrightarrow>
   passes_left B C R x' < passes_left B C R x"
  by (simp add: passes_left_def)

lemma passes_left_advance:
  assumes "x_base x < x_base x'" "x_base x' \<le> num_blocks B C" "x_retries x' = 0"
  shows "passes_left B C R x' < passes_left B C R x"
proof -
  have "num_blocks B C + 1 - x_base x' + 1 \<le> num_blocks B C + 1 - x_base x" using assms by simp
  then have "(num_blocks B C + 1 - x_base x' + 1) * Suc R \<le> (num_blocks B C + 1 - x_base x) * Suc R"
    by (rule mult_le_mono1)
  then show ?thesis using assms(3) by (simp add: passes_left_def)
qed

text \<open>What an acknowledgement does: cumulative retirement, or one retry spent.\<close>

lemma accept_ack_Some:
  assumes inv: "xfer_inv remaining valid B W C x"
    and find: "List.find (\<lambda>n. wire_of n = w) [x_base x..<x_next x] = Some n"
  shows "(\<forall>x'. accept_ack w x = Inr x' \<longrightarrow>
            xfer_inv remaining valid B W C x' \<and> x_base x' = Suc n \<and> x_retries x' = 0 \<and> x_next x' \<le> x_next x)
    \<and> (\<forall>stop. accept_ack w x = Inl stop \<longrightarrow> stop = Finished (num_blocks B C) \<and> x_next x = num_blocks B C + 1)"
proof -
  from find have n: "x_base x \<le> n" "n < x_next x" by (auto dest!: find_Some_in)
  from inv obtain hi where hi: "xfer_inv_at remaining valid B W C x hi" by (auto simp: xfer_inv_def)
  let ?x = "x\<lparr>x_base := Suc n, x_buf := fmfilter (\<lambda>k. k \<ge> Suc n) (x_buf x), x_retries := 0\<rparr>"
  have keep: "xfer_inv_at remaining valid B W C ?x hi"
    "xfer_inv_at remaining valid B W C (?x\<lparr>x_next := Suc n\<rparr>) hi"
    if "Suc n \<le> num_blocks B C"
    using that n hi unfolding xfer_inv_at_def by (simp_all split: option.splits)
  show ?thesis
  proof (cases "x_last x")
    case None
    then have le: "Suc n \<le> num_blocks B C" using n hi by (simp add: xfer_inv_at_def)
    from keep [OF le] have "xfer_inv remaining valid B W C ?x"
      "xfer_inv remaining valid B W C (?x\<lparr>x_next := Suc n\<rparr>)" unfolding xfer_inv_def by blast+
    with None n find show ?thesis by (simp add: accept_ack_def Let_def)
  next
    case (Some lb)
    with hi have lb: "lb = num_blocks B C" by (simp add: xfer_inv_at_def)
    show ?thesis
    proof (cases "Suc n \<le> num_blocks B C")
      case True
      from keep [OF True] have "xfer_inv remaining valid B W C ?x"
        "xfer_inv remaining valid B W C (?x\<lparr>x_next := Suc n\<rparr>)" unfolding xfer_inv_def by blast+
      with Some lb True n find show ?thesis by (simp add: accept_ack_def Let_def)
    next
      case False
      moreover have "x_next x \<le> num_blocks B C + 1" using xfer_inv_bounds [OF inv] by blast
      ultimately show ?thesis using Some lb n find by (simp add: accept_ack_def Let_def)
    qed
  qed
qed

lemma accept_ack_None:
  "List.find (\<lambda>n. wire_of n = w) [x_base x..<x_next x] = None \<Longrightarrow>
   accept_ack w x = Inr (x\<lparr>x_retries := Suc (x_retries x)\<rparr>)"
  by (simp add: accept_ack_def)

lemma xfer_inv_retry:
  assumes "xfer_inv remaining valid B W C x"
  shows "xfer_inv remaining valid B W C (x\<lparr>x_retries := k\<rparr>)"
    "xfer_inv remaining valid B W C (x\<lparr>x_retries := k, x_next := x_base x\<rparr>)"
proof -
  from assms obtain hi where hi: "xfer_inv_at remaining valid B W C x hi" by (auto simp: xfer_inv_def)
  then have "xfer_inv_at remaining valid B W C (x\<lparr>x_retries := k\<rparr>) hi"
    "xfer_inv_at remaining valid B W C (x\<lparr>x_retries := k, x_next := x_base x\<rparr>) hi"
    unfolding xfer_inv_at_def by (simp_all split: option.splits)
  then show "xfer_inv remaining valid B W C (x\<lparr>x_retries := k\<rparr>)"
    "xfer_inv remaining valid B W C (x\<lparr>x_retries := k, x_next := x_base x\<rparr>)"
    unfolding xfer_inv_def by blast+
qed

text \<open>The receive of one pass keeps the invariant and makes progress.\<close>

lemma await_data_ack_spec:
  assumes inv: "xfer_inv remaining valid B W C x" and res: "await_data_ack policy t x = res"
  shows "(\<forall>x'. res = Inr x' \<longrightarrow> xfer_inv remaining valid B W C x' \<and> x_next x' \<le> x_next x
            \<and> passes_left B C (rp_max_retries policy) x' < passes_left B C (rp_max_retries policy) x)
    \<and> (\<forall>n. res = Inl (Finished n) \<longrightarrow> n = num_blocks B C \<and> x_next x = num_blocks B C + 1)"
proof (cases "x_retries x \<ge> rp_max_retries policy \<or> t_now t \<ge> rp_deadline policy")
  case True
  with res show ?thesis by (auto simp: await_data_ack_def)
next
  case False
  let ?R = "rp_max_retries policy"
  let ?retry = "x\<lparr>x_retries := Suc (x_retries x)\<rparr>"
  have retry: "xfer_inv remaining valid B W C ?retry" "passes_left B C ?R ?retry < passes_left B C ?R x"
    using xfer_inv_retry [OF inv] passes_left_retry [of ?retry x] False by auto
  show ?thesis
  proof (cases "t_recv t")
    case (Recv pkt)
    show ?thesis
    proof (cases "is_error_packet (ack_buf pkt) \<or> parse_ack_packet (ack_buf pkt) = None")
      case True
      then have "res = Inl ClientAborted \<or> res = Inr ?retry"
        using Recv False res by (auto simp: await_data_ack_def Let_def split: if_splits)
      with retry show ?thesis by auto
    next
      case not_error: False
      then obtain w where w: "parse_ack_packet (ack_buf pkt) = Some w" by auto
      with Recv False not_error res have acc: "accept_ack w x = res"
        by (auto simp: await_data_ack_def Let_def)
      show ?thesis
      proof (cases "List.find (\<lambda>n. wire_of n = w) [x_base x..<x_next x]")
        case None
        with acc retry show ?thesis by (auto simp: accept_ack_None)
      next
        case (Some n)
        note acked = accept_ack_Some [OF inv Some, unfolded acc]
        from Some have "x_base x < Suc n" by (auto dest!: find_Some_in)
        then have "passes_left B C ?R x' < passes_left B C ?R x" if "res = Inr x'" for x'
          using acked that xfer_inv_bounds(2) [of remaining valid B W C x']
          by (intro passes_left_advance) auto
        with acked show ?thesis by auto
      qed
    qed
  next
    case (RecvErr e)
    with False res show ?thesis by (auto simp: await_data_ack_def)
  next
    case RecvTimeout
    let ?t = "x\<lparr>x_retries := Suc (x_retries x), x_next := x_base x\<rparr>"
    have "passes_left B C ?R ?t < passes_left B C ?R x"
      using passes_left_retry [of ?t x] False by auto
    with RecvTimeout False res xfer_inv_retry(2) [OF inv] xfer_inv_bounds(3) [OF inv] show ?thesis
      by (auto simp: await_data_ack_def)
  qed
qed

lemma fill_window_base:
  assumes "fill_window rd B send limit x = (out, Inr x')"
  shows "x_base x' = x_base x \<and> x_retries x' = x_retries x"
  using assms
proof (induction rd B send limit x arbitrary: out rule: fill_window.induct)
  case (1 rd B send limit x)
  show ?case
  proof (cases "x_next x < limit \<and> sendable x")
    case False
    then show ?thesis using "1.prems"
      by (auto simp: fill_window.simps [of rd B send limit x] sendable_def split: option.splits)
  next
    case True
    then show ?thesis using "1.prems" "1.IH"
      by (auto simp: fill_window.simps [of rd B send limit x] sendable_def dest!: window_block_next
          split: sum.splits prod.splits option.splits if_splits)
  qed
qed

lemma await_data_ack_base: "await_data_ack policy t x = Inr x' \<Longrightarrow> x_base x \<le> x_base x'"
  by (auto simp: await_data_ack_def accept_ack_def Let_def dest!: find_Some_in
      split: if_splits recv.splits option.splits)

lemma data_turn_base: "data_turn rd B W policy t x = (out, Inr x') \<Longrightarrow> x_base x \<le> x_base x'"
  by (auto simp: data_turn_def dest!: await_data_ack_base fill_window_base split: prod.splits sum.splits)

context byte_reader
begin

lemma window_block_inv_at:
  assumes hi: "xfer_inv_at remaining valid B W C x hi" and B: "0 < B"
    and lim: "x_next x < x_base x + W" and send: "sendable x"
    and blk: "window_block read B x = Inr (d, x')"
  shows "d = file_block B C (x_next x) \<and> x_next x \<le> num_blocks B C
    \<and> xfer_inv_at remaining valid B W C (x'\<lparr>x_next := Suc (x_next x)\<rparr>)
         (if x_next x < hi then hi else Suc hi)"
proof -
  show ?thesis
  proof (cases "x_next x < hi")
    case True
    with hi have "fmlookup (x_buf x) (x_next x) = Some (file_block B C (x_next x))"
      by (auto simp: xfer_inv_at_def)
    with blk have d: "d = file_block B C (x_next x)" "x' = x"
      by (auto simp: window_block_def)
    from hi True have "xfer_inv_at remaining valid B W C (x\<lparr>x_next := Suc (x_next x)\<rparr>) hi"
      unfolding xfer_inv_at_def by (simp split: option.splits)
    moreover have "x_next x \<le> num_blocks B C" using hi True by (simp add: xfer_inv_at_def)
    ultimately show ?thesis using d True by simp
  next
    case False
    with hi have nxt: "x_next x = hi" by (auto simp: xfer_inv_at_def)
    with hi send have last: "x_last x = None"
      by (auto simp: xfer_inv_at_def sendable_def split: option.splits)
    with hi have rem: "remaining (x_file x) = drop ((hi - 1) * B) C" and hiN: "1 \<le> hi" "hi \<le> num_blocks B C"
      and val: "valid (x_file x)"
      by (auto simp: xfer_inv_at_def)
    have "fmlookup (x_buf x) hi = None" using hi by (auto simp: xfer_inv_at_def)
    with blk nxt obtain eof r' where rf: "read_fill read (x_file x) B [] = Inr (d, eof, r')"
      and x': "x' = x\<lparr>x_last := (if eof \<or> length d < B then Some hi else x_last x),
                      x_buf := fmupd hi d (x_buf x), x_file := r'\<rparr>"
      by (auto simp: window_block_def split: sum.splits)
    have spec: "d = take B (remaining (x_file x))" "remaining r' = drop B (remaining (x_file x))"
      and val': "valid r'" and eof: "eof \<longleftrightarrow> length d < B"
      using read_fill_spec [OF val _ rf] by simp_all
    have d: "d = file_block B C hi" by (simp add: spec(1) rem file_block_def)
    have "(hi - 1) * B + B = hi * B" using hiN(1) by (cases hi) simp_all
    then have rem': "remaining r' = drop (hi * B) C" by (simp add: spec(2) rem add.commute)
    have short: "length d < B \<longleftrightarrow> hi = num_blocks B C"
      unfolding d by (rule file_block_short [OF B hiN])
    have last': "x_last x' = (if hi = num_blocks B C then Some hi else None)"
      using eof short last by (auto simp: x')
    have base': "x_base x' = x_base x" "x_file x' = r'" "x_buf x' = fmupd hi d (x_buf x)"
      by (simp_all add: x')
    have "xfer_inv_at remaining valid B W C (x'\<lparr>x_next := Suc hi\<rparr>) (Suc hi)"
      using hi nxt hiN lim val' rem' unfolding xfer_inv_at_def
      by (auto simp: last' base' d simp del: One_nat_def)
    with d nxt hiN show ?thesis by simp
  qed
qed

lemma window_block_inv:
  assumes "xfer_inv remaining valid B W C x" "0 < B" "x_next x < x_base x + W" "sendable x"
    "window_block read B x = Inr (d, x')"
  shows "d = file_block B C (x_next x) \<and> x_next x \<le> num_blocks B C
    \<and> xfer_inv remaining valid B W C (x'\<lparr>x_next := Suc (x_next x)\<rparr>)"
  using assms window_block_inv_at [OF _ assms(2-5)] unfolding xfer_inv_def by blast

lemma fill_window_stop:
  assumes "fill_window rd B send limit x = (out, Inl stop)"
  shows "(\<exists>e. stop = ReadFailed e) \<or> (\<exists>e. stop = SendFailed e)"
  using assms
proof (induction rd B send limit x arbitrary: out rule: fill_window.induct)
  case (1 rd B send limit x)
  show ?case
  proof (cases "x_next x < limit \<and> sendable x")
    case False
    then show ?thesis using "1.prems"
      by (auto simp: fill_window.simps [of rd B send limit x] sendable_def split: option.splits)
  next
    case True
    then show ?thesis using "1.prems" "1.IH"
      by (auto simp: fill_window.simps [of rd B send limit x] sendable_def
          split: sum.splits prod.splits option.splits if_splits)
  qed
qed

lemma fill_window_inv:
  assumes "xfer_inv remaining valid B W C x" "0 < B" "limit = x_base x + W"
    "fill_window read B send limit x = (out, res)"
  shows "(\<forall>p \<in> set out. \<exists>k. x_base x \<le> k \<and> k < limit \<and> k \<le> num_blocks B C \<and> p = block_packet B C k)
    \<and> (\<forall>x'. res = Inr x' \<longrightarrow>
         xfer_inv remaining valid B W C x' \<and> x_base x' = x_base x \<and> x_retries x' = x_retries x
         \<and> (\<forall>k. x_next x \<le> k \<and> k < x_next x' \<longrightarrow> block_packet B C k \<in> set out)
         \<and> (x_next x' = limit \<or> x_next x' = num_blocks B C + 1))"
  using assms
proof (induction "limit - x_next x" arbitrary: x out res rule: less_induct)
  case less
  note inv = less.prems(1) and bounds = xfer_inv_bounds [OF less.prems(1)]
  show ?case
  proof (cases "x_next x < limit \<and> sendable x")
    case False
    then have eq: "out = []" "res = Inr x"
      using less.prems(4) by (auto simp: fill_window.simps [of read B send limit x] sendable_def split: option.splits)
    moreover have "x_next x = limit \<or> x_next x = num_blocks B C + 1"
      using False bounds inv less.prems(3)
      by (auto simp: sendable_def xfer_inv_def xfer_inv_at_def split: option.splits)
    ultimately show ?thesis using inv by auto
  next
    case True
    show ?thesis
    proof (cases "window_block read B x")
      case (Inl e)
      with True less.prems(4) show ?thesis
        by (auto simp: fill_window.simps [of read B send limit x] sendable_def)
    next
      case (Inr dx)
      obtain d x1 where dx: "dx = (d, x1)" by (cases dx)
      have blk: "window_block read B x = Inr (d, x1)" using Inr dx by simp
      let ?x1 = "x1\<lparr>x_next := Suc (x_next x)\<rparr>"
      from window_block_inv [OF inv less.prems(2) _ _ blk] True less.prems(3)
      have d: "d = file_block B C (x_next x)" "x_next x \<le> num_blocks B C"
        and inv1: "xfer_inv remaining valid B W C ?x1" by auto
      note same = window_block_next [OF blk]
      show ?thesis
      proof (cases "send (x_next x)")
        case (Some e)
        with True blk less.prems(4) show ?thesis
          by (auto simp: fill_window.simps [of read B send limit x] sendable_def)
      next
        case None
        obtain out1 where rec: "fill_window read B send limit ?x1 = (out1, res)"
          and out: "out = make_data_packet (wire_of (x_next x)) d # out1"
          using True blk None less.prems(4)
          by (auto simp: fill_window.simps [of read B send limit x] sendable_def split: prod.splits)
        have "limit - x_next ?x1 < limit - x_next x" using True by auto
        note hyp = less.hyps [OF this inv1 less.prems(2) _ rec]
        have eqs: "x_base ?x1 = x_base x" "x_retries ?x1 = x_retries x" "x_next ?x1 = Suc (x_next x)"
          using same by simp_all
        have IH1: "\<forall>p \<in> set out1. \<exists>k. x_base x \<le> k \<and> k < limit \<and> k \<le> num_blocks B C \<and> p = block_packet B C k"
          using hyp unfolding eqs using less.prems(3) by blast
        have IH2: "\<forall>x'. res = Inr x' \<longrightarrow>
             xfer_inv remaining valid B W C x' \<and> x_base x' = x_base x \<and> x_retries x' = x_retries x
             \<and> (\<forall>k. Suc (x_next x) \<le> k \<and> k < x_next x' \<longrightarrow> block_packet B C k \<in> set out1)
             \<and> (x_next x' = limit \<or> x_next x' = num_blocks B C + 1)"
          using hyp unfolding eqs using less.prems(3) by blast
        have pkt: "make_data_packet (wire_of (x_next x)) d = block_packet B C (x_next x)"
          by (simp add: block_packet_def d)
        have sent: "\<forall>p \<in> set out. \<exists>k. x_base x \<le> k \<and> k < limit \<and> k \<le> num_blocks B C \<and> p = block_packet B C k"
        proof
          fix p assume "p \<in> set out"
          then consider "p = block_packet B C (x_next x)" | "p \<in> set out1" unfolding out pkt by auto
          then show "\<exists>k. x_base x \<le> k \<and> k < limit \<and> k \<le> num_blocks B C \<and> p = block_packet B C k"
          proof cases
            case 1
            with True bounds(3) d(2) show ?thesis by blast
          next
            case 2
            with IH1 show ?thesis by blast
          qed
        qed
        have cover: "block_packet B C k \<in> set out"
          if "x_next x \<le> k" "k < x_next x'" "res = Inr x'" for k x'
          using IH2 that unfolding out pkt by (cases "k = x_next x") auto
        show ?thesis
          using sent IH2 cover by blast
      qed
    qed
  qed
qed

text \<open>One pass, and the loop.\<close>

lemma data_turn_spec:
  assumes inv: "xfer_inv remaining valid B W C x" and B: "0 < B"
    and turn: "data_turn read B W policy t x = (out, res)"
  shows "(\<forall>p \<in> set out. \<exists>k. x_base x \<le> k \<and> k < x_base x + W \<and> k \<le> num_blocks B C \<and> p = block_packet B C k)
    \<and> (\<forall>x'. res = Inr x' \<longrightarrow> xfer_inv remaining valid B W C x'
         \<and> passes_left B C (rp_max_retries policy) x' < passes_left B C (rp_max_retries policy) x
         \<and> (\<forall>k. x_next x \<le> k \<and> k < x_next x' \<longrightarrow> block_packet B C k \<in> set out))
    \<and> (\<forall>n. res = Inl (Finished n) \<longrightarrow> n = num_blocks B C
         \<and> (\<forall>k. x_next x \<le> k \<and> k \<le> num_blocks B C \<longrightarrow> block_packet B C k \<in> set out))"
proof -
  obtain fres where fill: "fill_window read B (t_send t) (x_base x + W) x = (out, fres)"
    using turn by (auto simp: data_turn_def split: prod.splits sum.splits)
  note spec = fill_window_inv [OF inv B refl fill]
  show ?thesis
  proof (cases fres)
    case (Inl stop)
    with turn fill have res: "res = Inl stop" by (simp add: data_turn_def)
    have "stop \<noteq> Finished n" for n using fill_window_stop [OF fill [unfolded Inl]] by auto
    with spec res show ?thesis by blast
  next
    case (Inr x1)
    with turn fill have res: "await_data_ack policy t x1 = res" by (simp add: data_turn_def)
    from spec Inr have x1: "xfer_inv remaining valid B W C x1" "x_base x1 = x_base x" "x_retries x1 = x_retries x"
      "\<forall>k. x_next x \<le> k \<and> k < x_next x1 \<longrightarrow> block_packet B C k \<in> set out" by blast+
    note ack = await_data_ack_spec [OF x1(1) res]
    have same: "passes_left B C R x1 = passes_left B C R x" for R using x1 by (simp add: passes_left_def)
    have goon: "xfer_inv remaining valid B W C x'
         \<and> passes_left B C (rp_max_retries policy) x' < passes_left B C (rp_max_retries policy) x
         \<and> (\<forall>k. x_next x \<le> k \<and> k < x_next x' \<longrightarrow> block_packet B C k \<in> set out)" if "res = Inr x'" for x'
      using ack that x1(4) unfolding same by auto
    have stop: "n = num_blocks B C
         \<and> (\<forall>k. x_next x \<le> k \<and> k \<le> num_blocks B C \<longrightarrow> block_packet B C k \<in> set out)" if "res = Inl (Finished n)" for n
      using ack that x1(4) by auto
    show ?thesis using spec goon stop by blast
  qed
qed

lemma data_loop_spec:
  assumes "xfer_inv remaining valid B W C x" "0 < B" "data_loop read B W policy turns x = (out, res)"
  shows "(\<forall>p \<in> set out. \<exists>k. x_base x \<le> k \<and> k \<le> num_blocks B C \<and> p = block_packet B C k)
    \<and> (\<forall>n. res = Some (Finished n) \<longrightarrow> n = num_blocks B C
         \<and> (\<forall>k. x_next x \<le> k \<and> k \<le> num_blocks B C \<longrightarrow> block_packet B C k \<in> set out))
    \<and> (passes_left B C (rp_max_retries policy) x < length turns \<longrightarrow> res \<noteq> None)"
  using assms
proof (induction turns arbitrary: x out res)
  case Nil
  then show ?case by simp
next
  case (Cons t ts)
  obtain out1 res1 where turn: "data_turn read B W policy t x = (out1, res1)" by fastforce
  note spec = data_turn_spec [OF Cons.prems(1,2) turn]
  show ?case
  proof (cases res1)
    case (Inl stop)
    with turn Cons.prems(3) have "out = out1" "res = Some stop" by auto
    with spec Inl show ?thesis by blast
  next
    case (Inr x')
    obtain out2 where rec: "data_loop read B W policy ts x' = (out2, res)" and out: "out = out1 @ out2"
      using turn Inr Cons.prems(3) by (auto split: prod.splits)
    from spec Inr have inv': "xfer_inv remaining valid B W C x'"
      and less: "passes_left B C (rp_max_retries policy) x' < passes_left B C (rp_max_retries policy) x"
      and new: "\<forall>k. x_next x \<le> k \<and> k < x_next x' \<longrightarrow> block_packet B C k \<in> set out1" by blast+
    note IH = Cons.IH [OF inv' Cons.prems(2) rec]
    have mono: "x_base x \<le> x_base x'" by (rule data_turn_base [OF turn [unfolded Inr]])
    have sent: "\<forall>p \<in> set out. \<exists>k. x_base x \<le> k \<and> k \<le> num_blocks B C \<and> p = block_packet B C k"
      unfolding out set_append using spec IH mono by (meson Un_iff order_trans)
    have "block_packet B C k \<in> set out"
      if "res = Some (Finished n)" "x_next x \<le> k" "k \<le> num_blocks B C" for n k
      using IH new that unfolding out set_append by (cases "k < x_next x'") auto
    with sent IH less show ?thesis by auto
  qed
qed

end

end
