(* ===== verification/Tftp_Reassembly.thy ===== *)
theory Tftp_Reassembly
  imports Tftp_Window
begin

text \<open>
  What a client at the other end of a lossless link makes of the server's datagrams. The
  client is the receiver of RFC 7440: it appends the payload of a DATA packet that carries
  the 16-bit number of the block it expects and drops every other packet. However often
  the server repeats a window, and however often the block number wraps, the client holds
  a prefix of the file, and the whole file when the server reports the transfer complete.
\<close>

section \<open>The receiving client\<close>

definition client_step :: "bytes \<Rightarrow> nat \<times> bytes \<Rightarrow> nat \<times> bytes" where
  "client_step pkt s =
     (case parse_data_packet pkt of
        Some (w, d) \<Rightarrow> if w = wire_of (fst s) then (Suc (fst s), snd s @ d) else s
      | None \<Rightarrow> s)"

definition reassemble :: "bytes list \<Rightarrow> bytes" where
  "reassemble out = snd (fold client_step out (1, []))"

text \<open>The client expects block \<open>hi\<close> and holds the blocks before it.\<close>

definition client_at :: "nat \<Rightarrow> bytes \<Rightarrow> nat \<Rightarrow> nat \<times> bytes" where
  "client_at B C hi = (hi, take ((hi - 1) * B) C)"

lemma wire_of_eq_iff: "wire_of m = wire_of n \<longleftrightarrow> m mod 65536 = n mod 65536"
proof -
  have "unat (wire_of k) = k mod 65536" for k
    by (simp add: wire_of_def unat_of_nat)
  then show ?thesis by (metis wire_of_def)
qed

lemma wire_of_distinct:
  assumes "m < n" "n - m < 65536"
  shows "wire_of m \<noteq> wire_of n"
proof
  assume "wire_of m = wire_of n"
  then have "65536 dvd n - m" using assms(1) mod_eq_dvd_iff_nat [of m n 65536] by (auto simp: wire_of_eq_iff)
  with assms show False by (auto dest: dvd_imp_le)
qed

lemma client_step_old:
  "k < hi \<Longrightarrow> hi - k < 65536 \<Longrightarrow> client_step (block_packet B C k) (client_at B C hi) = client_at B C hi"
  using wire_of_distinct [of k hi] by (simp add: client_step_def client_at_def block_packet_def wire_simps)

lemma client_step_next:
  "1 \<le> hi \<Longrightarrow> client_step (block_packet B C hi) (client_at B C hi) = client_at B C (Suc hi)"
  using take_add [of "(hi - 1) * B" B C]
  by (cases hi) (simp_all add: client_step_def client_at_def block_packet_def file_block_def wire_simps add.commute)

section \<open>The blocks read so far\<close>

lemma xfer_inv_at_unique:
  assumes "xfer_inv_at remaining valid B W C x hi" "xfer_inv_at remaining valid B W C x' hi'"
    "x_file x' = x_file x" "x_last x' = x_last x" "0 < B"
  shows "hi' = hi"
proof (cases "x_last x")
  case (Some l)
  with assms show ?thesis by (simp add: xfer_inv_at_def)
next
  case None
  have le: "(h - 1) * B \<le> length C" if "h \<le> num_blocks B C" for h
    using that assms(5) by (simp add: num_blocks_def le_diff_conv less_eq_div_iff_mult_less_eq [symmetric])
  from assms None have "drop ((hi - 1) * B) C = drop ((hi' - 1) * B) C" "1 \<le> hi" "1 \<le> hi'"
    "hi \<le> num_blocks B C" "hi' \<le> num_blocks B C"
    by (auto simp: xfer_inv_at_def)
  moreover from this(1) have "length C - (hi - 1) * B = length C - (hi' - 1) * B"
    by (metis length_drop)
  ultimately have "(hi - 1) * B = (hi' - 1) * B" and ge: "1 \<le> hi" "1 \<le> hi'"
    using le [of hi] le [of hi'] by (metis diff_diff_cancel, simp_all)
  with assms(5) have "hi - 1 = hi' - 1" by (metis mult_cancel2 less_numeral_extra(3))
  with ge show ?thesis by simp
qed

lemma await_data_ack_keeps:
  "await_data_ack policy t x = Inr x' \<Longrightarrow> x_file x' = x_file x \<and> x_last x' = x_last x"
  by (auto simp: await_data_ack_def accept_ack_def Let_def split: if_splits recv.splits option.splits)

lemma await_data_ack_inv_at:
  assumes "xfer_inv_at remaining valid B W C x hi" "await_data_ack policy t x = Inr x'" "0 < B"
  shows "xfer_inv_at remaining valid B W C x' hi"
proof -
  have "xfer_inv remaining valid B W C x" using assms(1) by (auto simp: xfer_inv_def)
  from await_data_ack_spec [OF this assms(2)] obtain hi' where "xfer_inv_at remaining valid B W C x' hi'"
    by (auto simp: xfer_inv_def)
  with xfer_inv_at_unique [OF assms(1) this] await_data_ack_keeps [OF assms(2)] assms(3) show ?thesis by simp
qed

section \<open>The client follows the server\<close>

context byte_reader
begin

lemma fill_window_client:
  assumes "xfer_inv_at remaining valid B W C x hi" "0 < B" "W < 65536" "limit = x_base x + W"
    "fill_window read B send limit x = (out, res)"
  shows "\<exists>hi'. hi \<le> hi' \<and> fold client_step out (client_at B C hi) = client_at B C hi'
    \<and> (\<forall>x'. res = Inr x' \<longrightarrow> xfer_inv_at remaining valid B W C x' hi')"
  using assms
proof (induction "limit - x_next x" arbitrary: x hi out rule: less_induct)
  case less
  note inv = less.prems(1)
  show ?case
  proof (cases "x_next x < limit \<and> sendable x")
    case False
    then have "out = []" "res = Inr x"
      using less.prems(5) by (auto simp: fill_window.simps [of read B send limit x] sendable_def split: option.splits)
    with inv show ?thesis by auto
  next
    case True
    show ?thesis
    proof (cases "window_block read B x")
      case (Inl e)
      with True less.prems(5) have "out = []" "res = Inl (ReadFailed e)"
        by (auto simp: fill_window.simps [of read B send limit x] sendable_def)
      then show ?thesis by auto
    next
      case (Inr dx)
      obtain d x1 where dx: "dx = (d, x1)" by (cases dx)
      have blk: "window_block read B x = Inr (d, x1)" using Inr dx by simp
      let ?x1 = "x1\<lparr>x_next := Suc (x_next x)\<rparr>" and ?hi = "if x_next x < hi then hi else Suc hi"
      from window_block_inv_at [OF inv less.prems(2) _ _ blk] True less.prems(4)
      have d: "d = file_block B C (x_next x)" and inv1: "xfer_inv_at remaining valid B W C ?x1 ?hi" by auto
      have bounds: "1 \<le> x_base x" "x_base x \<le> x_next x" "x_next x \<le> hi" "hi \<le> x_base x + W"
        using inv by (auto simp: xfer_inv_at_def)
      have step: "client_step (make_data_packet (wire_of (x_next x)) d) (client_at B C hi) = client_at B C ?hi"
        using client_step_old [of "x_next x" hi B C] client_step_next [of hi B C] bounds less.prems(3)
        by (cases "x_next x < hi") (auto simp: block_packet_def d)
      show ?thesis
      proof (cases "send (x_next x)")
        case (Some e)
        with True blk less.prems(5) have "out = []" "res = Inl (SendFailed e)"
          by (auto simp: fill_window.simps [of read B send limit x] sendable_def)
        then show ?thesis by auto
      next
        case None
        obtain out1 where rec: "fill_window read B send limit ?x1 = (out1, res)"
          and out: "out = make_data_packet (wire_of (x_next x)) d # out1"
          using True blk None less.prems(5)
          by (auto simp: fill_window.simps [of read B send limit x] sendable_def split: prod.splits)
        have "limit - x_next ?x1 < limit - x_next x" "limit = x_base ?x1 + W"
          using True less.prems(4) window_block_next [OF blk] by auto
        from less.hyps [OF this(1) inv1 less.prems(2,3) this(2) rec]
        obtain hi' where "?hi \<le> hi'" "fold client_step out1 (client_at B C ?hi) = client_at B C hi'"
          "\<forall>x'. res = Inr x' \<longrightarrow> xfer_inv_at remaining valid B W C x' hi'" by blast
        moreover have "fold client_step out (client_at B C hi) = fold client_step out1 (client_at B C ?hi)"
          by (simp add: out step)
        ultimately show ?thesis by (intro exI [of _ hi']) (auto split: if_splits)
      qed
    qed
  qed
qed

lemma data_loop_client:
  assumes "xfer_inv_at remaining valid B W C x hi" "0 < B" "W < 65536"
    "data_loop read B W policy turns x = (out, res)"
  shows "\<exists>hi'. fold client_step out (client_at B C hi) = client_at B C hi'
    \<and> (\<forall>n. res = Some (Finished n) \<longrightarrow> hi' = num_blocks B C + 1)"
  using assms
proof (induction turns arbitrary: x hi out)
  case Nil
  then show ?case by auto
next
  case (Cons t ts)
  obtain out1 fres where fill: "fill_window read B (t_send t) (x_base x + W) x = (out1, fres)" by fastforce
  from fill_window_client [OF Cons.prems(1-3) refl fill]
  obtain h1 where h1: "fold client_step out1 (client_at B C hi) = client_at B C h1"
    "\<forall>x'. fres = Inr x' \<longrightarrow> xfer_inv_at remaining valid B W C x' h1" by blast
  show ?case
  proof (cases fres)
    case (Inl stop)
    with fill Cons.prems(4) have "out = out1" "res = Some stop" by (simp_all add: data_turn_def)
    with h1(1) fill_window_stop [OF fill [unfolded Inl]] show ?thesis by auto
  next
    case (Inr x1)
    with h1(2) have inv1: "xfer_inv_at remaining valid B W C x1 h1" by simp
    show ?thesis
    proof (cases "await_data_ack policy t x1")
      case (Inl stop)
      with Inr fill Cons.prems(4) have eq: "out = out1" "res = Some stop" by (simp_all add: data_turn_def)
      have "xfer_inv remaining valid B W C x1" using inv1 by (auto simp: xfer_inv_def)
      from await_data_ack_spec [OF this Inl]
      have "h1 = num_blocks B C + 1" if "stop = Finished n" for n
        using that inv1 by (auto simp: xfer_inv_at_def)
      with eq h1(1) show ?thesis by auto
    next
      case (Inr x2)
      obtain out2 where rec: "data_loop read B W policy ts x2 = (out2, res)" and out: "out = out1 @ out2"
        using fill \<open>fres = Inr x1\<close> Inr Cons.prems(4) by (auto simp: data_turn_def split: prod.splits)
      from Cons.IH [OF await_data_ack_inv_at [OF inv1 Inr Cons.prems(2)] Cons.prems(2,3) rec]
      show ?thesis using h1(1) by (simp add: out)
    qed
  qed
qed

lemma data_loop_reassembles:
  assumes "valid r" "0 < B" "W < 65536" "data_loop read B W policy turns (start_xfer r) = (out, res)"
  shows "\<exists>n. reassemble out = take (n * B) (remaining r)"
    and "res = Some (Finished n) \<Longrightarrow> reassemble out = remaining r"
proof -
  let ?C = "remaining r"
  have "xfer_inv_at remaining valid B W ?C (start_xfer r) 1"
    using assms(1) by (auto simp: xfer_inv_at_def start_xfer_def num_blocks_def)
  from data_loop_client [OF this assms(2-4)]
  obtain hi' where hi': "fold client_step out (client_at B ?C 1) = client_at B ?C hi'"
    "\<forall>n. res = Some (Finished n) \<longrightarrow> hi' = num_blocks B ?C + 1" by blast
  then have eq: "reassemble out = take ((hi' - 1) * B) ?C"
    by (simp add: reassemble_def client_at_def)
  then show "\<exists>n. reassemble out = take (n * B) (remaining r)" by blast
  show "reassemble out = remaining r" if "res = Some (Finished n)"
    using eq hi'(2) that num_blocks_cover [OF assms(2), of ?C] by simp
qed

end

end
