(* ===== verification/Tftp_Liveness.thy ===== *)
theory Tftp_Liveness
  imports Tftp_Reassembly
begin

text \<open>
  The transfer with a client that acknowledges the last block of every window over a link
  that loses nothing: each block goes out exactly once, in order, and the transfer
  completes after one pass per window. The locale \<open>steady_reader\<close> extends the reader's
  contract by reads that do not fail.
\<close>

section \<open>Reads that do not fail\<close>

locale steady_reader = byte_reader +
  assumes read_ok: "valid r \<Longrightarrow> \<exists>bs r'. read r n = Inr (bs, r')"
begin

lemma read_fill_ok:
  "valid r \<Longrightarrow> length acc \<le> n \<Longrightarrow> \<exists>out eof r'. read_fill read r n acc = Inr (out, eof, r')"
proof (induction "n - length acc" arbitrary: r acc rule: less_induct)
  case less
  show ?case
  proof (cases "length acc < n")
    case False
    then show ?thesis by (auto simp: read_fill.simps [of read r n acc])
  next
    case True
    obtain bs r1 where rd: "read r (n - length acc) = Inr (bs, r1)" using read_ok [OF less.prems(1)] by blast
    note laws = read_bytes [OF less.prems(1) rd] read_valid [OF less.prems(1) rd]
    show ?thesis
    proof (cases "bs = []")
      case True
      with rd \<open>length acc < n\<close> show ?thesis by (auto simp: read_fill.simps [of read r n acc])
    next
      case False
      have "n - length (acc @ bs) < n - length acc" "length (acc @ bs) \<le> n"
        using laws True fill_progress [OF True False] by auto
      from less.hyps [OF this(1) laws(2) this(2)] True rd False show ?thesis
        by (simp add: read_fill.simps [of read r n acc])
    qed
  qed
qed

lemma window_block_ok:
  assumes "xfer_inv_at remaining valid B W C x hi"
  shows "\<exists>d x'. window_block read B x = Inr (d, x')"
proof -
  have "valid (x_file x)" using assms by (simp add: xfer_inv_at_def)
  from read_fill_ok [OF this, of "[]" B]
  obtain out eof r' where "read_fill read (x_file x) B [] = Inr (out, eof, r')" by auto
  then show ?thesis by (auto simp: window_block_def split: option.splits)
qed

text \<open>A window sent without errors, from wherever the last pass left it: new blocks or a repetition.\<close>

lemma fill_window_exact:
  assumes "xfer_inv_at remaining valid B W C x hi" "0 < B" "limit = x_base x + W" "\<forall>k. send k = None"
  shows "\<exists>x'. fill_window read B send limit x
        = (map (block_packet B C) [x_next x..<min limit (num_blocks B C + 1)], Inr x')
      \<and> x_next x' = min limit (num_blocks B C + 1)
      \<and> xfer_inv_at remaining valid B W C x' (x_next x') \<and> x_base x' = x_base x"
  using assms
proof (induction "limit - x_next x" arbitrary: x hi rule: less_induct)
  case less
  let ?m = "min limit (num_blocks B C + 1)"
  have bounds: "x_next x \<le> hi" "hi \<le> ?m" "x_next x \<le> limit" "x_next x \<le> num_blocks B C + 1"
    using less.prems(1,3) by (auto simp: xfer_inv_at_def)
  have new: "x_next x < num_blocks B C + 1 \<Longrightarrow> sendable x"
    using less.prems(1) by (auto simp: sendable_def xfer_inv_at_def split: option.splits)
  have over: "sendable x \<Longrightarrow> x_next x < num_blocks B C + 1"
    using less.prems(1) by (auto simp: sendable_def xfer_inv_at_def split: option.splits)
  show ?case
  proof (cases "x_next x < limit \<and> sendable x")
    case False
    then have "\<not> x_next x < limit \<or> \<not> x_next x < num_blocks B C + 1" using new by blast
    with bounds have m: "x_next x = ?m" by (auto simp: min_def)
    then have "hi = x_next x" using bounds(1,2) by linarith
    moreover have "fill_window read B send limit x = ([], Inr x)"
      using False by (auto simp: fill_window.simps [of read B send limit x] sendable_def split: option.splits)
    ultimately show ?thesis using less.prems(1) m by (intro exI [of _ x]) simp
  next
    case True
    then have lt: "x_next x < ?m" using over by simp
    obtain d x1 where blk: "window_block read B x = Inr (d, x1)" using window_block_ok [OF less.prems(1)] by blast
    let ?x1 = "x1\<lparr>x_next := Suc (x_next x)\<rparr>" and ?hi = "if x_next x < hi then hi else Suc hi"
    from window_block_inv_at [OF less.prems(1,2) _ _ blk] True less.prems(3)
    have d: "d = file_block B C (x_next x)" and inv1: "xfer_inv_at remaining valid B W C ?x1 ?hi" by auto
    have "limit - x_next ?x1 < limit - x_next x" "limit = x_base ?x1 + W"
      using True less.prems(3) window_block_next [OF blk] by auto
    from less.hyps [OF this(1) inv1 less.prems(2) this(2) less.prems(4)]
    obtain x' where rec: "fill_window read B send limit ?x1 = (map (block_packet B C) [Suc (x_next x)..<?m], Inr x')"
      and x': "x_next x' = ?m" "xfer_inv_at remaining valid B W C x' (x_next x')" "x_base x' = x_base x"
      using window_block_next [OF blk] by auto
    have "fill_window read B send limit x
      = (block_packet B C (x_next x) # map (block_packet B C) [Suc (x_next x)..<?m], Inr x')"
      using True blk less.prems(4) rec
      by (simp add: fill_window.simps [of read B send limit x] sendable_def block_packet_def d)
    then show ?thesis using x' lt by (intro exI [of _ x']) (simp add: upt_conv_Cons)
  qed
qed

end

interpretation steady: steady_reader file_read fr_data "\<lambda>r. None \<notin> set (fr_plan r)"
  by unfold_locales (auto simp: file_read_def split: list.splits option.splits)

section \<open>The cooperative client\<close>

definition good_turn :: "nat \<Rightarrow> nat \<Rightarrow> int \<Rightarrow> nat \<Rightarrow> turn" where
  "good_turn W N now i = \<lparr>t_send = \<lambda>_. None, t_now = now, t_recv = Recv (make_ack_packet (wire_of (min (i * W) N)))\<rparr>"

lemma find_wire_of:
  assumes "b \<le> n" "n < m" "m - b < 65536"
  shows "List.find (\<lambda>k. wire_of k = wire_of n) [b..<m] = Some n"
proof -
  have "[b..<m] = [b..<n] @ n # [Suc n..<m]"
    using assms(1,2) by (metis less_imp_le_nat upt_conv_Cons upt_add_eq_append le_add_diff_inverse)
  moreover have "wire_of k \<noteq> wire_of n" if "k \<in> set [b..<n]" for k
    using that assms by (intro wire_of_distinct) auto
  then have "List.find (\<lambda>k. wire_of k = wire_of n) [b..<n] = None" by (auto simp: find_None_iff)
  moreover have "List.find P (xs @ ys) = (case List.find P xs of None \<Rightarrow> List.find P ys | Some y \<Rightarrow> Some y)"
    for P :: "nat \<Rightarrow> bool" and xs ys by (induction xs) auto
  ultimately show ?thesis by simp
qed

lemma ack_buf_ack: "ack_buf (make_ack_packet w) = make_ack_packet w"
  by (simp add: ack_buf_def make_ack_packet_def)

text \<open>Acknowledging the last block that was sent.\<close>

lemma await_full_ack:
  assumes "x_base x \<le> n" "Suc n = x_next x" "x_next x - x_base x < 65536"
    "t_recv t = Recv (make_ack_packet (wire_of n))" "t_now t < rp_deadline policy" "x_retries x < rp_max_retries policy"
  shows "await_data_ack policy t x
    = (let x' = x\<lparr>x_base := Suc n, x_buf := fmfilter (\<lambda>k. k \<ge> Suc n) (x_buf x), x_retries := 0\<rparr>
       in case x_last x of Some lb \<Rightarrow> if Suc n > lb then Inl (Finished lb) else Inr x' | None \<Rightarrow> Inr x')"
proof -
  have "List.find (\<lambda>k. wire_of k = wire_of n) [x_base x..<x_next x] = Some n"
    using assms(1-3) by (intro find_wire_of) auto
  with assms show ?thesis
    by (simp add: await_data_ack_def accept_ack_def ack_buf_ack make_ack_not_error wire_simps Let_def split: option.splits)
qed

context steady_reader
begin

lemma good_pass:
  assumes inv: "xfer_inv_at remaining valid B W C x (x_next x)" and B: "0 < B" and W: "0 < W" "W < 65536"
    and x: "x_base x = Suc (i * W)" "x_next x = Suc (i * W)" "x_retries x = 0"
    and policy: "now < rp_deadline policy" "0 < rp_max_retries policy"
    and n: "n = min (Suc i * W) (num_blocks B C)"
  shows "\<exists>x'. data_turn read B W policy (good_turn W (num_blocks B C) now (Suc i)) x
        = (map (block_packet B C) [Suc (i * W)..<Suc n], if n = num_blocks B C then Inl (Finished n) else Inr x')
      \<and> (n < num_blocks B C \<longrightarrow> xfer_inv_at remaining valid B W C x' (x_next x')
            \<and> x_base x' = Suc n \<and> x_next x' = Suc n \<and> x_retries x' = 0)"
proof -
  let ?t = "good_turn W (num_blocks B C) now (Suc i)"
  have m: "min (x_base x + W) (num_blocks B C + 1) = Suc n" using x n by (simp add: add.commute)
  have t: "\<forall>k. t_send ?t k = None" "t_now ?t = now" "t_recv ?t = Recv (make_ack_packet (wire_of n))"
    by (simp_all add: good_turn_def n)
  from fill_window_exact [OF inv B refl t(1)] m x(2)
  obtain x1 where fill: "fill_window read B (t_send ?t) (x_base x + W) x
      = (map (block_packet B C) [Suc (i * W)..<Suc n], Inr x1)"
    and x1: "x_next x1 = Suc n" "xfer_inv_at remaining valid B W C x1 (Suc n)" "x_base x1 = Suc (i * W)"
    using x(1) by auto
  have retries: "x_retries x1 = 0" using fill_window_base [OF fill] x(3) by simp
  have le: "Suc (i * W) \<le> n" using W(1) n x1(2,3) by (auto simp: xfer_inv_at_def)
  have "x_next x1 - x_base x1 < 65536" using x1 n W(2) by auto
  then have ack: "await_data_ack policy ?t x1 =
      (let x' = x1\<lparr>x_base := Suc n, x_buf := fmfilter (\<lambda>k. k \<ge> Suc n) (x_buf x1), x_retries := 0\<rparr>
       in case x_last x1 of Some lb \<Rightarrow> if Suc n > lb then Inl (Finished lb) else Inr x' | None \<Rightarrow> Inr x')"
    using x1 le t policy retries by (intro await_full_ack) auto
  show ?thesis
  proof (cases "n = num_blocks B C")
    case True
    then have "x_last x1 = Some n" using x1(2) by (auto simp: xfer_inv_at_def split: option.splits)
    with ack have "await_data_ack policy ?t x1 = Inl (Finished n)" by simp
    with fill True show ?thesis by (simp add: data_turn_def)
  next
    case False
    then have last: "x_last x1 = None" and lt: "n < num_blocks B C"
      using x1(2) n by (auto simp: xfer_inv_at_def split: option.splits)
    let ?x' = "x1\<lparr>x_base := Suc n, x_buf := fmfilter (\<lambda>k. k \<ge> Suc n) (x_buf x1), x_retries := 0\<rparr>"
    have res: "await_data_ack policy ?t x1 = Inr ?x'" using ack last by simp
    have "xfer_inv_at remaining valid B W C ?x' (Suc n)"
      by (rule await_data_ack_inv_at [OF x1(2) res B])
    with res fill lt x1(1) show ?thesis by (intro exI [of _ ?x']) (simp add: data_turn_def)
  qed
qed

lemma good_loop:
  assumes "xfer_inv_at remaining valid B W C x (x_next x)" "0 < B" "0 < W" "W < 65536"
    "x_base x = Suc (i * W)" "x_next x = Suc (i * W)" "x_retries x = 0"
    "now < rp_deadline policy" "0 < rp_max_retries policy" "num_blocks B C \<le> m * W"
  shows "data_loop read B W policy (map (good_turn W (num_blocks B C) now) [Suc i..<Suc m]) x
    = (map (block_packet B C) [Suc (i * W)..<Suc (num_blocks B C)], Some (Finished (num_blocks B C)))"
  using assms(1,5-7)
proof (induction "m - i" arbitrary: i x rule: less_induct)
  case less
  have "Suc (i * W) \<le> num_blocks B C" using less.prems(1,2) by (auto simp: xfer_inv_at_def)
  with assms(10) have "i * W < m * W" by linarith
  then have im: "i < m" by simp
  then have upt: "[Suc i..<Suc m] = Suc i # [Suc (Suc i)..<Suc m]" by (simp add: upt_conv_Cons)
  define n where "n = min (Suc i * W) (num_blocks B C)"
  from good_pass [OF less.prems(1) assms(2-4) less.prems(2-4) assms(8,9) n_def]
  obtain x' where turn: "data_turn read B W policy (good_turn W (num_blocks B C) now (Suc i)) x
        = (map (block_packet B C) [Suc (i * W)..<Suc n], if n = num_blocks B C then Inl (Finished n) else Inr x')"
      and next_x: "n < num_blocks B C \<longrightarrow> xfer_inv_at remaining valid B W C x' (x_next x')
            \<and> x_base x' = Suc n \<and> x_next x' = Suc n \<and> x_retries x' = 0" by blast
  show ?case
  proof (cases "n = num_blocks B C")
    case True
    with turn show ?thesis unfolding upt by (simp del: upt_Suc)
  next
    case False
    then have n: "n = Suc i * W" "n < num_blocks B C" by (auto simp: n_def)
    with next_x have "xfer_inv_at remaining valid B W C x' (x_next x')" "x_base x' = Suc (Suc i * W)"
      "x_next x' = Suc (Suc i * W)" "x_retries x' = 0" by auto
    from less.hyps [OF _ this] im
    have rec: "data_loop read B W policy (map (good_turn W (num_blocks B C) now) [Suc (Suc i)..<Suc m]) x'
      = (map (block_packet B C) [Suc n..<Suc (num_blocks B C)], Some (Finished (num_blocks B C)))"
      using n(1) by simp
    have "Suc (i * W) \<le> Suc n" "Suc n \<le> Suc (num_blocks B C)" using n by auto
    then have "[Suc (i * W)..<Suc n] @ [Suc n..<Suc (num_blocks B C)] = [Suc (i * W)..<Suc (num_blocks B C)]"
      by (metis le_add_diff_inverse upt_add_eq_append)
    then show ?thesis using turn rec False unfolding upt
      by (simp del: upt_Suc add: map_append [symmetric])
  qed
qed

end

end
