(* ===== verification/Tftp_Service.thy ===== *)
theory Tftp_Service
  imports Tftp_Liveness
begin

text \<open>
  Properties of a whole transfer, \<open>handle_tftp_transfer\<close> on a file read in arbitrary
  portions: what it sends, what the client ends up with, when it stops, and what it
  records in the state store.
\<close>

section \<open>The option acknowledgement\<close>

lemma send_and_await_ack_spec:
  "send_and_await_ack packet expected policy turns k = (out, res, left) \<Longrightarrow>
   set out \<subseteq> {packet} \<and> length out \<le> rp_max_retries policy - k
   \<and> (res = None \<longrightarrow> length turns < rp_max_retries policy - k)
   \<and> length turns \<le> length left + (rp_max_retries policy - k)"
proof (induction turns arbitrary: k out res left)
  case Nil
  then show ?case by (auto split: if_splits)
next
  case (Cons t ts)
  let ?R = "rp_max_retries policy"
  show ?case
  proof (cases "k < ?R \<and> t_now t < rp_deadline policy \<and> t_send t 0 = None \<and>
      (t_recv t = RecvTimeout \<or> (\<exists>pkt. t_recv t = Recv pkt \<and> \<not> is_error_packet (ack_buf pkt)
         \<and> parse_ack_packet (ack_buf pkt) \<noteq> Some expected))")
    case False
    with Cons.prems show ?thesis
      by (cases "t_recv t") (auto simp: Let_def split: option.splits if_splits)
  next
    case True
    obtain out2 res2 left2 where rec: "send_and_await_ack packet expected policy ts (Suc k) = (out2, res2, left2)"
      by (metis prod_cases3)
    with True Cons.prems have "out = packet # out2" "res = res2" "left = left2"
      by (auto simp: Let_def split: option.splits if_splits)
    with Cons.IH [OF rec] True show ?thesis by auto
  qed
qed

text \<open>An option acknowledgement is no DATA packet, so the receiving client ignores it.\<close>

lemma client_step_oack: "client_step (make_oack_packet opts) s = s"
  by (simp add: client_step_def parse_data_packet_def make_oack_packet_def op_defs)

lemma fold_client_oack: "set out \<subseteq> {make_oack_packet opts} \<Longrightarrow> fold client_step out s = s"
  by (induction out) (auto simp: client_step_oack)

section \<open>The data phase\<close>

lemma mark_tftp_failed_not_completed [simp]: "UpdateHost m Completed n t i a \<notin> set (mark_tftp_failed mac r)"
  by (simp add: mark_tftp_failed_def split: option.splits)

lemma start_passes: "passes_left B C R (start_xfer r) = num_blocks B C * Suc R + R"
  by (simp add: passes_left_def start_xfer_def)

lemma run_data_spec:
  assumes "run_data file_read r ng policy mac turns = (out, ops, res)" "0 < ng_blksize ng" "ng_windowsize ng < 65536"
  shows "(\<exists>n. reassemble out = take n (fr_data r))
    \<and> (UpdateHost m Completed None None None None \<in> set ops \<longrightarrow> reassemble out = fr_data r \<and> res = Some (Inr ()))
    \<and> (\<forall>p \<in> set out. \<exists>k. 1 \<le> k \<and> k \<le> num_blocks (ng_blksize ng) (fr_data r) \<and> p = block_packet (ng_blksize ng) (fr_data r) k)
    \<and> (num_blocks (ng_blksize ng) (fr_data r) * Suc (rp_max_retries policy) + rp_max_retries policy < length turns
        \<longrightarrow> res \<noteq> None)"
proof -
  obtain stop where loop: "data_loop file_read (ng_blksize ng) (ng_windowsize ng) policy turns (start_xfer r) = (out, stop)"
    and fin: "(ops, res) = (case stop of None \<Rightarrow> ([], None) | Some s \<Rightarrow> (fst (finish_data mac s), Some (snd (finish_data mac s))))"
    using assms(1) by (auto simp: run_data_def split: prod.splits option.splits)
  have inv: "xfer_inv fr_data (\<lambda>_. True) (ng_blksize ng) (ng_windowsize ng) (fr_data r) (start_xfer r)"
    by (intro start_xfer_inv) auto
  note spec = portioned.data_loop_spec [OF inv assms(2) loop]
  note client = portioned.data_loop_reassembles [OF TrueI assms(2,3) loop]
  have complete: "stop = Some (Finished (num_blocks (ng_blksize ng) (fr_data r))) \<and> res = Some (Inr ())"
    if "UpdateHost m Completed None None None None \<in> set ops"
  proof (cases stop)
    case None
    with fin that show ?thesis by simp
  next
    case (Some s)
    with fin that spec show ?thesis by (cases s) auto
  qed
  have base: "x_base (start_xfer r) = 1" by (simp add: start_xfer_def)
  have "\<exists>n. reassemble out = take n (fr_data r)" using client(1) by blast
  moreover have "UpdateHost m Completed None None None None \<in> set ops \<Longrightarrow> reassemble out = fr_data r \<and> res = Some (Inr ())"
    using complete client(2) by blast
  moreover have "\<forall>p \<in> set out. \<exists>k. 1 \<le> k \<and> k \<le> num_blocks (ng_blksize ng) (fr_data r) \<and> p = block_packet (ng_blksize ng) (fr_data r) k"
    using conjunct1 [OF spec] unfolding base .
  moreover have "stop \<noteq> None \<Longrightarrow> res \<noteq> None" using fin by (auto split: option.splits)
  moreover have "num_blocks (ng_blksize ng) (fr_data r) * Suc (rp_max_retries policy) + rp_max_retries policy < length turns
      \<Longrightarrow> stop \<noteq> None"
    using conjunct2 [OF conjunct2 [OF spec]] unfolding start_passes by (rule mp)
  ultimately show ?thesis by blast
qed

lemma run_data_blocks:
  assumes "run_data file_read r ng policy mac turns = (out, ops, res)" "0 < ng_blksize ng" "ng_windowsize ng < 65536"
    "p \<in> set out"
  shows "\<exists>k \<in> {1..num_blocks (ng_blksize ng) (fr_data r)}. p = block_packet (ng_blksize ng) (fr_data r) k"
proof -
  have "\<exists>k. 1 \<le> k \<and> k \<le> num_blocks (ng_blksize ng) (fr_data r) \<and> p = block_packet (ng_blksize ng) (fr_data r) k"
    using conjunct1 [OF conjunct2 [OF conjunct2 [OF run_data_spec [OF assms(1-3)]]]] assms(4) by blast
  then show ?thesis by auto
qed

section \<open>The phases of a transfer\<close>

definition is_octet :: "rrq_request \<Rightarrow> bool" where
  "is_octet request \<longleftrightarrow> eq_ignore_ascii_case (rq_mode request) ''octet''"

definition oack_of :: "rrq_request \<Rightarrow> nat \<Rightarrow> bytes" where
  "oack_of request sz = make_oack_packet (ng_options (negotiate request sz))"

lemma finish_oack_marks: "finish_oack mac oc = Some (ops, res) \<Longrightarrow> \<exists>r. ops = mark_tftp_failed mac r"
  by (cases "(mac, oc)" rule: finish_oack.cases) auto

lemma handle_cases:
  assumes run: "handle_tftp_transfer read opened metadata now turns request mac = (out, ops, res)"
  obtains (rejected) "\<not> is_octet request" "out = [make_error_packet 4 ''Illegal TFTP operation (only octet mode supported)'']"
      "ops = []" "res = Some (Inr ())"
    | (unopened) e where "is_octet request" "opened = Inl e" "out = [open_error e]" "ops = []" "res = Some (Inl e)"
    | (no_metadata) r e where "is_octet request" "opened = Inr r" "metadata = Inl e" "out = []" "ops = []" "res = Some (Inl e)"
    | (oack) r sz result where "is_octet request" "opened = Inr r" "metadata = Inr sz"
      "set out \<subseteq> {oack_of request sz}" "result = None \<Longrightarrow> length turns < MAX_RETRIES"
      "case result of None \<Rightarrow> ops = [] \<and> res = None
       | Some outcome \<Rightarrow> (\<exists>r. finish_oack mac outcome = Some (ops, r) \<and> res = Some r)"
    | (data) r sz out0 out1 left where "is_octet request" "opened = Inr r" "metadata = Inr sz"
      "out = out0 @ out1" "set out0 \<subseteq> {oack_of request sz}" "length turns \<le> length left + MAX_RETRIES"
      "run_data read r (negotiate request sz) (transfer_policy now) mac left = (out1, ops, res)"
proof -
  consider "\<not> is_octet request" | e where "is_octet request" "opened = Inl e"
    | r e where "is_octet request" "opened = Inr r" "metadata = Inl e"
    | r sz where "is_octet request" "opened = Inr r" "metadata = Inr sz"
    by (metis sum.exhaust)
  then show thesis
  proof cases
    case 1
    then show thesis using rejected run by (simp add: handle_tftp_transfer_def is_octet_def)
  next
    case 2
    then show thesis using unopened run by (simp add: handle_tftp_transfer_def is_octet_def)
  next
    case 3
    then show thesis using no_metadata run by (simp add: handle_tftp_transfer_def is_octet_def)
  next
    case (4 r sz)
    let ?ng = "negotiate request sz" and ?p = "transfer_policy now"
    show thesis
    proof (cases "ng_options ?ng = []")
      case True
      with 4 run have "run_data read r ?ng ?p mac turns = (out, ops, res)"
        by (simp add: handle_tftp_transfer_def is_octet_def)
      with 4 show thesis by (intro data [of r sz "[]" out turns]) auto
    next
      case False
      obtain o0 oc left where sw: "send_and_await_ack (make_oack_packet (ng_options ?ng)) 0 ?p turns 0 = (o0, oc, left)"
        by (metis prod_cases3)
      have max: "rp_max_retries ?p = MAX_RETRIES" by (simp add: transfer_policy_def)
      note spec = send_and_await_ack_spec [OF sw, unfolded max, folded oack_of_def]
      show thesis
      proof (cases "oc = Some (Inr Acked)")
        case True
        with 4 False run sw obtain o1 where "out = o0 @ o1" "run_data read r ?ng ?p mac left = (o1, ops, res)"
          by (auto simp: handle_tftp_transfer_def is_octet_def Let_def split: prod.splits)
        with 4 spec show thesis by (intro data [of r sz o0 o1 left]) auto
      next
        case other: False
        have "out = o0 \<and> (case oc of None \<Rightarrow> ops = [] \<and> res = None
           | Some outcome \<Rightarrow> (\<exists>r. finish_oack mac outcome = Some (ops, r) \<and> res = Some r))"
        proof (cases oc)
          case None
          with 4 False run sw show ?thesis by (simp add: handle_tftp_transfer_def is_octet_def Let_def)
        next
          case (Some outcome)
          with other have "outcome \<noteq> Inr Acked" by simp
          then obtain ops' res' where "finish_oack mac outcome = Some (ops', res')"
            by (cases "(mac, outcome)" rule: finish_oack.cases) auto
          with 4 False run sw Some show ?thesis by (simp add: handle_tftp_transfer_def is_octet_def Let_def)
        qed
        with 4 spec show thesis by (intro oack [of r sz oc]) auto
      qed
    qed
  qed
qed

lemmas reassemble_simps = reassemble_def client_step_def parse_data_packet_def make_error_packet_def op_defs

lemma handle_window: "0 < ng_blksize (negotiate q sz)" "ng_windowsize (negotiate q sz) < 65536"
  using negotiate_ranges [of q sz] by (simp_all add: limit_defs)

section \<open>Properties\<close>

text \<open>
  C1. Whatever the network, the clock and the reads do, a client on a lossless link that
  keeps the blocks it expects holds a prefix of the file. If the server records the
  transfer as completed, the client holds the whole file and the task returned without
  an error.
\<close>

theorem transfer_delivers_file:
  assumes "handle_tftp_transfer file_read (Inr r) metadata now turns request mac = (out, ops, res)"
  shows "(\<exists>n. reassemble out = take n (fr_data r))
    \<and> (UpdateHost m Completed None None None None \<in> set ops \<longrightarrow> reassemble out = fr_data r \<and> res = Some (Inr ()))"
  using assms
proof (cases rule: handle_cases)
  case rejected
  then have "reassemble out = []" by (simp add: reassemble_simps)
  with rejected show ?thesis by (auto intro: exI [of _ 0])
next
  case (oack r' sz result)
  then have "reassemble out = []" by (simp add: reassemble_def fold_client_oack oack_of_def)
  with oack show ?thesis by (auto intro: exI [of _ 0] dest!: finish_oack_marks split: option.splits)
next
  case (data r' sz out0 out1 left)
  then have "reassemble out = reassemble out1" by (simp add: reassemble_def fold_client_oack oack_of_def)
  with run_data_spec [OF data(7) handle_window, of m] data(2) show ?thesis by auto
qed (auto simp: reassemble_def intro: exI [of _ 0])

text \<open>What evaluates a transfer on concrete inputs.\<close>

lemmas transfer_eval = handle_tftp_transfer_def negotiate_def run_data_def data_turn_def start_xfer_def
  fill_window.simps window_block_def read_fill.simps file_read_def whole_file_def await_data_ack_def accept_ack_def
  good_turn_def ack_buf_def mark_tftp_completed_def mark_tftp_failed_def transfer_policy_def from_secs_def
  limit_defs MAX_RETRIES_def TRANSFER_DEADLINE_def wire_of_def make_data_packet_def make_ack_packet_def op_defs
  to_be16_def is_error_packet_def parse_ack_packet_def opcode_def from_be16_def
  eq_ignore_ascii_case_def dec_of_nat.simps digit_char_eval

definition sample_request :: rrq_request where
  "sample_request = plain_request ''a'' ''octet''"

lemma transfer_delivers_file_witness:
  "reassemble (fst (handle_tftp_transfer file_read (Inr (whole_file [1, 2, 3])) (Inr 3) 0 [good_turn 1 1 0 1] sample_request (Some ''m'')))
   = [1, 2, 3]"
proof -
  have run: "handle_tftp_transfer file_read (Inr (whole_file [1, 2, 3])) (Inr 3) 0 [good_turn 1 1 0 1] sample_request (Some ''m'')
    = ([[0, 3, 0, 1, 1, 2, 3]],
       [UpdateHost ''m'' Completed None None None None,
        LogEvent ''INFO'' (Some ''m'') ''TFTP transfer completed: 1 blocks sent''], Some (Inr ()))"
    by (simp add: transfer_eval sample_request_def plain_request_def)
  show ?thesis using transfer_delivers_file [OF run, of "''m''"] by (simp add: run [simplified whole_file_def, simplified] whole_file_def)
qed

text \<open>
  C2. A transfer ends: with \<open>N\<close> blocks, \<open>6 * N + 11\<close> passes of its two loops are enough,
  whatever the client, the network and the file do. Each pass but the last either spends
  one of the five retries or moves the window forward.
\<close>

theorem transfer_stops:
  assumes "handle_tftp_transfer file_read opened metadata now turns request mac = (out, ops, res)"
    and enough: "\<And>r sz. opened = Inr r \<Longrightarrow> metadata = Inr sz \<Longrightarrow>
      6 * num_blocks (ng_blksize (negotiate request sz)) (fr_data r) + 11 \<le> length turns"
  shows "res \<noteq> None"
  using assms(1)
proof (cases rule: handle_cases)
  case (oack r sz result)
  with enough [of r sz] show ?thesis by (auto simp: MAX_RETRIES_def split: option.splits)
next
  case (data r sz out0 out1 left)
  have "num_blocks (ng_blksize (negotiate request sz)) (fr_data r) * Suc MAX_RETRIES + MAX_RETRIES < length left"
    using data(6) enough [OF data(2,3)] by (simp add: MAX_RETRIES_def)
  with run_data_spec [OF data(7) handle_window] show ?thesis by (simp add: transfer_policy_def)
qed simp_all

definition silent_turn :: turn where
  "silent_turn = \<lparr>t_send = \<lambda>_. None, t_now = 0, t_recv = RecvTimeout\<rparr>"

lemma transfer_stops_witness:
  "snd (snd (handle_tftp_transfer file_read (Inr (whole_file [1])) (Inr 1) 0 (replicate 17 silent_turn) sample_request None)) \<noteq> None"
proof -
  obtain out ops res where run:
    "handle_tftp_transfer file_read (Inr (whole_file [1])) (Inr 1) 0 (replicate 17 silent_turn) sample_request None = (out, ops, res)"
    by (metis prod_cases3)
  have "ng_blksize (negotiate sample_request 1) = 512"
    by (simp add: negotiate_def sample_request_def plain_request_def limit_defs)
  then have "num_blocks (ng_blksize (negotiate sample_request 1)) (fr_data (whole_file [1])) = 1"
    by (simp add: num_blocks_def whole_file_def)
  then have "res \<noteq> None" by (intro transfer_stops [OF run]) auto
  with run show ?thesis by simp
qed

text \<open>
  The server never sends anything but an error packet, the option acknowledgement and
  blocks of the file it opened, cut at the negotiated size.
\<close>

theorem transfer_datagrams:
  assumes "handle_tftp_transfer file_read opened metadata now turns request mac = (out, ops, res)" "p \<in> set out"
  shows "(\<exists>code msg. p = make_error_packet code msg \<and> out = [p] \<and> ops = [])
    \<or> (\<exists>r sz. opened = Inr r \<and> metadata = Inr sz \<and>
         (p = make_oack_packet (ng_options (negotiate request sz)) \<or>
          (\<exists>k \<in> {1..num_blocks (ng_blksize (negotiate request sz)) (fr_data r)}.
             p = block_packet (ng_blksize (negotiate request sz)) (fr_data r) k)))"
  using assms(1)
proof (cases rule: handle_cases)
  case (unopened e)
  with assms(2) show ?thesis by (auto simp: open_error_def split: io_error.splits)
next
  case (oack r sz result)
  with assms(2) show ?thesis by (auto simp: oack_of_def)
next
  case (data r sz out0 out1 left)
  have "p \<in> set out0 \<or> p \<in> set out1" using assms(2) data(4) by auto
  then show ?thesis
  proof
    assume "p \<in> set out0"
    with data show ?thesis by (auto simp: oack_of_def)
  next
    assume "p \<in> set out1"
    with run_data_blocks [OF data(7) handle_window]
    have "\<exists>k \<in> {1..num_blocks (ng_blksize (negotiate request sz)) (fr_data r)}.
             p = block_packet (ng_blksize (negotiate request sz)) (fr_data r) k" by blast
    with data(2,3) show ?thesis by blast
  qed
qed (use assms(2) in auto)

lemma transfer_datagrams_witness:
  "handle_tftp_transfer file_read (Inl NotFound) (Inr 0) 0 [] sample_request None
     = ([make_error_packet 1 ''File not found''], [], Some (Inl NotFound))
   \<and> (\<exists>code msg. make_error_packet 1 ''File not found'' = make_error_packet code msg)"
proof -
  have run: "handle_tftp_transfer file_read (Inl NotFound) (Inr 0) 0 [] sample_request None
    = ([make_error_packet 1 ''File not found''], [], Some (Inl NotFound))"
    by (simp add: handle_tftp_transfer_def sample_request_def plain_request_def eq_ignore_ascii_case_def open_error_def)
  show ?thesis using transfer_datagrams [OF run, of "make_error_packet 1 ''File not found''"] run by auto
qed

text \<open>The turns of a client that acknowledges the options and then every window.\<close>

definition oack_turns :: "negotiated \<Rightarrow> int \<Rightarrow> turn list" where
  "oack_turns ng now =
     (if ng_options ng = [] then []
      else [\<lparr>t_send = \<lambda>_. None, t_now = now, t_recv = Recv (make_ack_packet 0)\<rparr>])"

definition oack_packets :: "negotiated \<Rightarrow> bytes list" where
  "oack_packets ng = (if ng_options ng = [] then [] else [make_oack_packet (ng_options ng)])"

text \<open>A client that takes part in the options: what is left is the data phase.\<close>

lemma handle_after_oack:
  assumes "is_octet request" "ng = negotiate request sz" "t < now + int TRANSFER_DEADLINE"
    and "run_data read r ng (transfer_policy now) mac ts = (out, ops, res)"
  shows "handle_tftp_transfer read (Inr r) (Inr sz) now (oack_turns ng t @ ts) request mac
    = (oack_packets ng @ out, ops, res)"
proof (cases "ng_options ng = []")
  case True
  with assms show ?thesis by (simp add: handle_tftp_transfer_def is_octet_def oack_turns_def oack_packets_def)
next
  case False
  have policy: "t < rp_deadline (transfer_policy now)" "0 < rp_max_retries (transfer_policy now)"
    using assms(3) by (simp_all add: transfer_policy_def MAX_RETRIES_def)
  have "send_and_await_ack (make_oack_packet (ng_options ng)) 0 (transfer_policy now)
      (oack_turns ng t @ ts) 0 = ([make_oack_packet (ng_options ng)], Some (Inr Acked), ts)"
    using policy False by (simp add: oack_turns_def ack_buf_ack make_ack_not_error wire_simps Let_def)
  with assms False show ?thesis
    by (simp add: handle_tftp_transfer_def is_octet_def oack_packets_def assms(2) [symmetric] Let_def)
qed

lemma run_data_good:
  assumes "None \<notin> set (fr_plan r)" "now < rp_deadline policy" "0 < rp_max_retries policy"
    "0 < ng_blksize ng" "0 < ng_windowsize ng" "ng_windowsize ng < 65536" "N = num_blocks (ng_blksize ng) (fr_data r)"
    "N \<le> m * ng_windowsize ng"
  shows "run_data file_read r ng policy mac (map (good_turn (ng_windowsize ng) N now) [1..<Suc m])
    = (map (block_packet (ng_blksize ng) (fr_data r)) [1..<Suc N], mark_tftp_completed mac N, Some (Inr ()))"
proof -
  have "xfer_inv_at fr_data (\<lambda>r. None \<notin> set (fr_plan r)) (ng_blksize ng) (ng_windowsize ng) (fr_data r) (start_xfer r) 1"
    using assms(1) by (auto simp: xfer_inv_at_def start_xfer_def num_blocks_def)
  then have "data_loop file_read (ng_blksize ng) (ng_windowsize ng) policy
      (map (good_turn (ng_windowsize ng) N now) [Suc 0..<Suc m]) (start_xfer r)
    = (map (block_packet (ng_blksize ng) (fr_data r)) [Suc (0 * ng_windowsize ng)..<Suc N], Some (Finished N))"
    unfolding assms(7)
    by (intro steady.good_loop) (use assms in \<open>simp_all add: start_xfer_def\<close>)
  then show ?thesis by (simp add: run_data_def del: upt_Suc)
qed

text \<open>
  With a client that acknowledges every window, a link that loses nothing and reads
  that do not fail, the transfer completes: the option acknowledgement goes out if
  options were asked for, then every block exactly once and in order, one window per
  pass; the host is recorded as completed.
\<close>

theorem transfer_completes:
  assumes "is_octet request" "None \<notin> set (fr_plan r)"
    and "ng = negotiate request sz" "N = num_blocks (ng_blksize ng) (fr_data r)" "N \<le> m * ng_windowsize ng"
    and "t < now + int TRANSFER_DEADLINE"
  shows "handle_tftp_transfer file_read (Inr r) (Inr sz) now
      (oack_turns ng t @ map (good_turn (ng_windowsize ng) N t) [1..<Suc m]) request mac
    = (oack_packets ng @ map (block_packet (ng_blksize ng) (fr_data r)) [1..<Suc N],
       mark_tftp_completed mac N, Some (Inr ()))"
proof -
  have policy: "t < rp_deadline (transfer_policy now)" "0 < rp_max_retries (transfer_policy now)"
    using assms(6) by (simp_all add: transfer_policy_def MAX_RETRIES_def)
  have "0 < ng_blksize ng" "0 < ng_windowsize ng" "ng_windowsize ng < 65536"
    using negotiate_ranges [of request sz] by (simp_all add: assms(3) limit_defs)
  note data = run_data_good [OF assms(2) policy this assms(4,5), of mac]
  from handle_after_oack [OF assms(1,3,6) data] show ?thesis .
qed

lemma transfer_completes_witness:
  "handle_tftp_transfer file_read (Inr (whole_file [7])) (Inr 1) 0
      (oack_turns (negotiate sample_request 1) 5 @ map (good_turn 1 1 5) [1..<Suc 1]) sample_request None
   = ([make_data_packet 1 [7]], [], Some (Inr ()))"
proof -
  have ng: "ng_windowsize (negotiate sample_request (Suc 0)) = 1" "ng_blksize (negotiate sample_request (Suc 0)) = 512"
    "oack_packets (negotiate sample_request (Suc 0)) = []"
    by (simp_all add: negotiate_def sample_request_def plain_request_def oack_packets_def limit_defs)
  have N: "num_blocks 512 [7 :: u8] = 1" by (simp add: num_blocks_def)
  have "is_octet sample_request"
    by (simp add: is_octet_def sample_request_def plain_request_def eq_ignore_ascii_case_def)
  with transfer_completes [of sample_request "whole_file [7]" "negotiate sample_request 1" 1 1 1 5 0 None]
  show ?thesis
    by (simp add: ng N whole_file_def TRANSFER_DEADLINE_def from_secs_def mark_tftp_completed_def block_packet_def
        file_block_def wire_of_def)
qed

text \<open>What a transfer records of a host \<open>m\<close> when it has ended, and how it ended.\<close>

definition records_failure :: "string \<Rightarrow> store_op list \<Rightarrow> bool" where
  "records_failure m ops \<longleftrightarrow> (\<exists>reason. ops = mark_tftp_failed (Some m) reason)"

definition records_success :: "string \<Rightarrow> store_op list \<Rightarrow> bool" where
  "records_success m ops \<longleftrightarrow> (\<exists>n. ops = mark_tftp_completed (Some m) n)"

lemma finish_data_records:
  "(\<exists>e. stop = ReadFailed e \<and> finish_data (Some m) stop = ([], Inl e)) \<or>
   records_failure m (fst (finish_data (Some m) stop)) \<or>
   records_success m (fst (finish_data (Some m) stop)) \<and> snd (finish_data (Some m) stop) = Inr ()"
  by (cases stop) (auto simp: records_failure_def records_success_def)



end
