(* ===== verification/File_System.thy ===== *)
theory File_System
  imports Prelude
begin

text \<open>
  What the sources use of \<open>std::path\<close> on Unix and of the file system under it. A path is
  the string of its bytes; \<open>components\<close>, \<open>path_join\<close>, \<open>file_name\<close> and \<open>ancestors\<close> are
  the methods of \<open>Path\<close>. A file system maps canonical paths (lists of names from the
  root) to nodes, and \<open>resolve_path\<close> follows a path through directories and symbolic
  links as the kernel does, with its bound of 40 links: it is \<open>Path::canonicalize\<close>, and
  \<open>Path::exists\<close> is its success.
\<close>

section \<open>Paths\<close>

fun split_on :: "char \<Rightarrow> string \<Rightarrow> string list" where
  "split_on d [] = [[]]"
| "split_on d (c # s) =
     (if c = d then [] # split_on d s
      else (case split_on d s of [] \<Rightarrow> [[c]] | w # ws \<Rightarrow> (c # w) # ws))"

fun join_with :: "string \<Rightarrow> string list \<Rightarrow> string" where
  "join_with sep [] = []"
| "join_with sep [w] = w"
| "join_with sep (w # ws) = w @ sep @ join_with sep ws"

datatype component = RootDir | CurDir | ParentDir | Normal string

definition is_absolute :: "string \<Rightarrow> bool" where
  "is_absolute p = (p \<noteq> [] \<and> hd p = CHR ''/'')"

definition component_of :: "string \<Rightarrow> component" where
  "component_of s = (if s = ''..'' then ParentDir else Normal s)"

definition body_segments :: "string \<Rightarrow> string list" where
  "body_segments p = filter (\<lambda>s. s \<noteq> [] \<and> s \<noteq> ''.'') (split_on (CHR ''/'') p)"

definition components :: "string \<Rightarrow> component list" where
  "components p =
     (if is_absolute p then [RootDir]
      else if hd (split_on (CHR ''/'') p) = ''.'' then [CurDir] else [])
     @ map component_of (body_segments p)"

fun component_text :: "component \<Rightarrow> string" where
  "component_text RootDir = []"
| "component_text CurDir = ''.''"
| "component_text ParentDir = ''..''"
| "component_text (Normal s) = s"

definition render :: "component list \<Rightarrow> string" where
  "render cs = (if cs = [RootDir] then ''/'' else join_with ''/'' (map component_text cs))"

definition path_join :: "string \<Rightarrow> string \<Rightarrow> string" where
  "path_join p q =
     (if is_absolute q then q
      else if p = [] \<or> last p = CHR ''/'' then p @ q
      else p @ ''/'' @ q)"

definition file_name :: "string \<Rightarrow> string option" where
  "file_name p =
     (if components p = [] then None
      else (case last (components p) of Normal s \<Rightarrow> Some s | _ \<Rightarrow> None))"

text \<open>
  The path itself, then its parents, nearest first. A parent is given by its components:
  a path does not resolve differently for a repeated separator in it.
\<close>

fun proper_prefixes :: "'a list \<Rightarrow> 'a list list" where
  "proper_prefixes [] = []"
| "proper_prefixes (x # xs) = map (Cons x) (proper_prefixes xs) @ [[]]"

definition ancestors :: "string \<Rightarrow> string list" where
  "ancestors p =
     p # map render (filter (\<lambda>cs. \<not> (is_absolute p \<and> cs = [])) (proper_prefixes (components p)))"

lemma split_on_nonempty [simp]: "split_on d s \<noteq> []"
  by (induction s) (auto split: list.splits)

lemma split_on_free: "w \<in> set (split_on d s) \<Longrightarrow> d \<notin> set w"
  by (induction s arbitrary: w) (auto split: if_splits list.splits)

lemma split_on_append: "d \<notin> set w \<Longrightarrow> split_on d (w @ d # s) = w # split_on d s"
  by (induction w) auto

lemma split_on_whole: "d \<notin> set w \<Longrightarrow> split_on d w = [w]"
  by (induction w) auto

lemma split_join_with: "ws \<noteq> [] \<Longrightarrow> \<forall>w \<in> set ws. d \<notin> set w \<Longrightarrow> split_on d (join_with [d] ws) = ws"
proof (induction "[d]" ws rule: join_with.induct)
  case (2 w)
  then show ?case by (simp add: split_on_whole)
next
  case (3 w v vs)
  then show ?case using split_on_append [of d w] by simp
qed simp

section \<open>File systems\<close>

type_synonym cpath = "string list"

datatype node = Regular bytes | Directory | Symlink string

type_synonym fs = "cpath \<Rightarrow> node option"

definition MAX_SYMLINKS :: nat where "MAX_SYMLINKS = 40"

fun walk :: "fs \<Rightarrow> nat \<Rightarrow> cpath \<Rightarrow> string list \<Rightarrow> cpath option" where
  "walk fs n cur [] = Some cur"
| "walk fs n cur (seg # rest) =
     (if fs cur \<noteq> Some Directory then None
      else if seg = [] \<or> seg = ''.'' then walk fs n cur rest
      else if seg = ''..'' then walk fs n (butlast cur) rest
      else
        (case fs (cur @ [seg]) of
           None \<Rightarrow> None
         | Some (Symlink t) \<Rightarrow>
             (case n of
                0 \<Rightarrow> None
              | Suc m \<Rightarrow> walk fs m (if is_absolute t then [] else cur) (split_on (CHR ''/'') t @ rest))
         | Some (Regular _) \<Rightarrow> walk fs n (cur @ [seg]) rest
         | Some Directory \<Rightarrow> walk fs n (cur @ [seg]) rest))"

definition resolve_path :: "fs \<Rightarrow> cpath \<Rightarrow> string \<Rightarrow> cpath option" where
  "resolve_path fs cwd p =
     (if p = [] \<or> CHR 0x00 \<in> set p then None
      else walk fs MAX_SYMLINKS (if is_absolute p then [] else cwd) (split_on (CHR ''/'') p))"

definition path_of :: "cpath \<Rightarrow> string" where
  "path_of c = ''/'' @ join_with ''/'' c"

text \<open>What the kernel maintains: the root is a directory and names are proper names.\<close>

definition plain_name :: "string \<Rightarrow> bool" where
  "plain_name s \<longleftrightarrow> s \<noteq> [] \<and> s \<noteq> ''.'' \<and> s \<noteq> ''..'' \<and> CHR ''/'' \<notin> set s \<and> CHR 0x00 \<notin> set s"

definition wf_fs :: "fs \<Rightarrow> bool" where
  "wf_fs fs \<longleftrightarrow> fs [] = Some Directory \<and> (\<forall>c. fs c \<noteq> None \<longrightarrow> (\<forall>s \<in> set c. plain_name s))"

text \<open>A location reached without a link: every name on the way is a directory.\<close>

definition real :: "fs \<Rightarrow> cpath \<Rightarrow> bool" where
  "real fs c \<longleftrightarrow> (\<forall>k < length c. fs (take k c) = Some Directory)
     \<and> (fs c = Some Directory \<or> (\<exists>bs. fs c = Some (Regular bs)))"

lemma real_root: "wf_fs fs \<Longrightarrow> real fs []"
  by (simp add: real_def wf_fs_def)

lemma real_butlast: "real fs c \<Longrightarrow> real fs (butlast c)"
  by (cases "c = []") (auto simp: real_def butlast_conv_take min_def)

lemma real_extend:
  "real fs c \<Longrightarrow> fs c = Some Directory \<Longrightarrow> fs (c @ [s]) = Some Directory \<or> fs (c @ [s]) = Some (Regular bs) \<Longrightarrow>
   real fs (c @ [s])"
  by (auto simp: real_def less_Suc_eq)

lemma walk_real: "walk fs n cur segs = Some c \<Longrightarrow> wf_fs fs \<Longrightarrow> real fs cur \<Longrightarrow> real fs c"
proof (induction fs n cur segs rule: walk.induct)
  case (2 fs n cur seg rest)
  show ?case
  proof (cases "seg = [] \<or> seg = ''.'' \<or> seg = ''..''")
    case True
    with "2.prems" "2.IH" real_butlast [of fs cur] show ?thesis by (auto split: if_splits)
  next
    case False
    with "2.prems" obtain nd where nd: "fs cur = Some Directory" "fs (cur @ [seg]) = Some nd"
      by (auto split: if_splits option.splits)
    show ?thesis
    proof (cases nd)
      case (Symlink t)
      with "2.prems" nd False obtain m where "n = Suc m" by (auto split: nat.splits)
      with Symlink "2.prems" nd False "2.IH" real_root show ?thesis by (auto split: if_splits)
    qed (use "2.prems" nd False "2.IH" real_extend [of fs cur seg] in auto)
  qed
qed simp

lemma walk_real_path:
  assumes "wf_fs fs" "real fs c" "k \<le> length c"
  shows "walk fs n (take k c) (drop k c) = Some c"
  using assms(3)
proof (induction "length c - k" arbitrary: k)
  case 0
  then show ?case by simp
next
  case (Suc j)
  then have k: "k < length c" by simp
  then have seg: "drop k c = c ! k # drop (Suc k) c" "take (Suc k) c = take k c @ [c ! k]"
    by (simp_all add: Cons_nth_drop_Suc take_Suc_conv_app_nth)
  have dir: "fs (take k c) = Some Directory" using assms(2) k by (simp add: real_def)
  have nd: "fs (take (Suc k) c) = Some Directory \<or> (\<exists>bs. fs (take (Suc k) c) = Some (Regular bs))"
    using assms(2) k by (cases "Suc k = length c") (auto simp: real_def)
  have "fs c \<noteq> None" using assms(2) by (auto simp: real_def)
  then have "plain_name (c ! k)" using assms(1) k unfolding wf_fs_def by (metis nth_mem)
  moreover have "walk fs n (take (Suc k) c) (drop (Suc k) c) = Some c"
    using Suc.hyps k by (intro Suc.hyps(1)) auto
  ultimately show ?case using dir nd by (auto simp: seg plain_name_def)
qed

section \<open>The contract of a resolver\<close>

text \<open>
  What \<open>safe_join\<close> relies on: the canonical path resolves to itself, and the empty path
  does not resolve.
\<close>

locale path_resolver =
  fixes resolve :: "string \<Rightarrow> cpath option"
  assumes resolve_canonical: "resolve p = Some c \<Longrightarrow> resolve (path_of c) = Some c"
    and resolve_empty: "resolve [] = None"

text \<open>A process's view: a file system and a working directory in it.\<close>

typedef process_fs = "{(f, cwd). wf_fs f \<and> real f cwd}"
proof -
  define f :: fs where "f = (\<lambda>c. if c = [] then Some Directory else None)"
  then have "wf_fs f" by (simp add: wf_fs_def)
  with real_root have "(f, []) \<in> {(f, cwd). wf_fs f \<and> real f cwd}" by auto
  then show ?thesis by blast
qed

setup_lifting type_definition_process_fs

lift_definition resolve_in :: "process_fs \<Rightarrow> string \<Rightarrow> cpath option"
  is "\<lambda>(f, cwd). resolve_path f cwd" .

lift_definition node_at :: "process_fs \<Rightarrow> cpath \<Rightarrow> node option"
  is "\<lambda>(f, cwd). f" .

lemma resolve_path_real:
  assumes "wf_fs fs" "real fs cwd" "resolve_path fs cwd p = Some c"
  shows "real fs c"
  using assms walk_real real_root by (auto simp: resolve_path_def split: if_splits)

lemma resolve_path_of:
  assumes "wf_fs fs" "real fs c"
  shows "resolve_path fs cwd (path_of c) = Some c"
proof -
  have "fs c \<noteq> None" using assms(2) by (auto simp: real_def)
  then have names: "\<forall>s \<in> set c. plain_name s" using assms(1) by (auto simp: wf_fs_def)
  have "CHR 0x00 \<notin> set (join_with ''/'' c)"
    using names by (induction "''/''" c rule: join_with.induct) (auto simp: plain_name_def)
  moreover have dir: "fs [] = Some Directory" using assms(1) by (simp add: wf_fs_def)
  moreover have "walk fs n [] (split_on (CHR ''/'') (path_of c)) = Some c" for n
  proof (cases "c = []")
    case True
    with dir show ?thesis by (simp add: path_of_def)
  next
    case False
    have "split_on (CHR ''/'') (join_with ''/'' c) = c"
      using names False by (intro split_join_with) (auto simp: plain_name_def)
    with dir walk_real_path [OF assms, of 0 n] show ?thesis by (simp add: path_of_def)
  qed
  ultimately show ?thesis by (simp add: resolve_path_def path_of_def is_absolute_def)
qed

interpretation kernel: path_resolver "resolve_in v" for v
proof
  show "resolve_in v (path_of c) = Some c" if "resolve_in v p = Some c" for p c
    using that by transfer (auto dest: resolve_path_real resolve_path_of)
  show "resolve_in v [] = None"
    by transfer (auto simp: resolve_path_def)
qed

end
