(* ===== verification/Path_Join.thy ===== *)
theory Path_Join
  imports File_System Rust_Str
begin

text \<open>
  \<^verbatim>\<open>crates/bootycall-core/src/path.rs\<close>: \<open>safe_join\<close>, which every server uses to turn a
  requested path into one under a configured root. The resolver it calls is an argument;
  the lemmas in \<open>path_resolver\<close> show that what it returns cannot resolve to a place
  outside the root, and when it returns something.
\<close>

section \<open>safe_join\<close>

definition allowed_component :: "component \<Rightarrow> bool" where
  "allowed_component c =
     (case c of ParentDir \<Rightarrow> False | RootDir \<Rightarrow> False | CurDir \<Rightarrow> True | Normal _ \<Rightarrow> True)"

definition safe_join :: "(string \<Rightarrow> cpath option) \<Rightarrow> string \<Rightarrow> string \<Rightarrow> string option" where
  "safe_join resolve root requested =
     (let normalized = replace_char (CHR 0x5C) (CHR ''/'') requested in
      if \<not> list_all allowed_component (components normalized) then None
      else
        (let candidate = path_join root normalized in
         case resolve root of
           None \<Rightarrow> None
         | Some canonical_root \<Rightarrow>
             (case resolve candidate of
                Some canonical_candidate \<Rightarrow>
                  if prefix canonical_root canonical_candidate then Some (path_of canonical_candidate) else None
              | None \<Rightarrow>
                  (case List.find (\<lambda>a. resolve a \<noteq> None) (ancestors candidate) of
                     None \<Rightarrow> None
                   | Some existing_ancestor \<Rightarrow>
                       (case resolve existing_ancestor of
                          None \<Rightarrow> None
                        | Some canonical_ancestor \<Rightarrow>
                            if prefix canonical_root canonical_ancestor then Some candidate else None)))))"

definition traversal_free :: "string \<Rightarrow> bool" where
  "traversal_free requested \<longleftrightarrow> list_all allowed_component (components (replace_char (CHR 0x5C) (CHR ''/'') requested))"

lemma safe_join_cases:
  assumes "safe_join resolve root requested = Some p"
  obtains (existing) croot c where "traversal_free requested" "resolve root = Some croot" "p = path_of c"
      "resolve (path_join root (replace_char (CHR 0x5C) (CHR ''/'') requested)) = Some c" "prefix croot c"
    | (missing) croot a ca where "traversal_free requested" "resolve root = Some croot"
      "p = path_join root (replace_char (CHR 0x5C) (CHR ''/'') requested)" "resolve p = None"
      "a \<in> set (ancestors p)" "resolve a = Some ca" "prefix croot ca"
  using assms
  by (auto simp: safe_join_def Let_def traversal_free_def split: if_splits option.splits dest!: find_Some_in)

context path_resolver
begin

lemma safe_join_inside:
  assumes "safe_join resolve root requested = Some p"
  shows "\<exists>croot. resolve root = Some croot \<and> (\<forall>c. resolve p = Some c \<longrightarrow> prefix croot c)"
  using assms
proof (cases rule: safe_join_cases)
  case (existing croot c)
  then show ?thesis using resolve_canonical by auto
qed auto

lemma safe_join_nonempty: "resolve a = Some c \<Longrightarrow> a \<noteq> []"
  using resolve_empty by auto

end

section \<open>Which requests are free of traversal\<close>

lemma body_free:
  "list_all allowed_component (map component_of ss) \<longleftrightarrow> ''..'' \<notin> set ss"
  by (induction ss) (auto simp: component_of_def allowed_component_def)

lemma traversal_free_iff:
  "traversal_free requested \<longleftrightarrow>
     \<not> is_absolute (replace_char (CHR 0x5C) (CHR ''/'') requested)
     \<and> ''..'' \<notin> set (split_on (CHR ''/'') (replace_char (CHR 0x5C) (CHR ''/'') requested))"
  by (auto simp: traversal_free_def components_def body_free body_segments_def allowed_component_def)

section \<open>Properties\<close>

text \<open>
  C10. No request escapes the root: for every file system with whatever symbolic links, a
  path \<open>safe_join\<close> returns either does not resolve or resolves to the canonical root or a
  place below it, and the request had no parent segment and was not absolute.
\<close>

theorem safe_join_no_escape:
  assumes "safe_join (resolve_in v) root requested = Some p"
  shows "traversal_free requested \<and>
    (\<exists>croot. resolve_in v root = Some croot \<and> (\<forall>c. resolve_in v p = Some c \<longrightarrow> prefix croot c))"
  using kernel.safe_join_inside [OF assms] safe_join_cases [OF assms] by metis

definition sample_fs :: fs where
  "sample_fs = map_of
     [([], Directory), ([''srv''], Directory), ([''srv'', ''boot''], Regular [1]),
      ([''srv'', ''out''], Symlink ''/etc''), ([''srv'', ''in''], Symlink ''boot''),
      ([''etc''], Directory), ([''etc'', ''passwd''], Regular [2])]"

lemma sample_fs_wf: "wf_fs sample_fs"
  by (auto simp: wf_fs_def sample_fs_def plain_name_def map_of_eq_None_iff split: if_splits)

lift_definition sample_view :: process_fs is "(sample_fs, [])"
  using sample_fs_wf real_root by auto

lemma safe_join_no_escape_witness:
  "safe_join (resolve_in sample_view) ''/srv'' ''in'' = Some ''/srv/boot'' \<and> traversal_free ''in''
   \<and> safe_join (resolve_in sample_view) ''/srv'' ''out/passwd'' = None"
proof -
  have eval: "resolve_in sample_view = resolve_path sample_fs []" by (rule ext, transfer) simp
  have run: "safe_join (resolve_in sample_view) ''/srv'' ''in'' = Some ''/srv/boot''"
    unfolding eval by code_simp
  have "safe_join (resolve_in sample_view) ''/srv'' ''out/passwd'' = None"
    unfolding eval by code_simp
  with run safe_join_no_escape [OF run] show ?thesis by blast
qed

end
