(* ===== verification/Sock_Addr.thy ===== *)
theory Sock_Addr
  imports Rust_Str
begin

text \<open>
  \<open>std::net::SocketAddr\<close> as the sources use it: \<open>config.rs\<close> parses the three bind
  addresses with \<open>str::parse\<close>, and the TFTP and HTTP servers print the address of a peer.
  The parser is the recursive descent of \<open>core::net::parser\<close> on the bytes of the string;
  the lemmas give the round trip for IPv4.
\<close>

datatype ip_addr = V4 bytes | V6 "u16 list"

datatype sock_addr = SocketAddr ip_addr nat

section \<open>Parsing\<close>

type_synonym 'a parser = "string \<Rightarrow> ('a \<times> string) option"

definition hex_value :: "char \<Rightarrow> nat" where
  "hex_value c = (if is_ascii_digit c then of_char c - 48 else of_char (ascii_lower c) - 87)"

definition is_digit :: "nat \<Rightarrow> char \<Rightarrow> bool" where
  "is_digit radix c = (if radix = 10 then is_ascii_digit c else is_ascii_hexdigit c)"

definition digits_value :: "nat \<Rightarrow> string \<Rightarrow> nat" where
  "digits_value radix ds = foldl (\<lambda>acc c. acc * radix + hex_value c) 0 ds"

definition read_number :: "nat \<Rightarrow> nat option \<Rightarrow> bool \<Rightarrow> nat \<Rightarrow> nat parser" where
  "read_number radix max_digits allow_zero_prefix bound s =
     (let ds = takeWhile (is_digit radix) s in
      if ds = [] then None
      else if (case max_digits of Some m \<Rightarrow> length ds > m | None \<Rightarrow> False) then None
      else if \<not> allow_zero_prefix \<and> hd ds = CHR ''0'' \<and> length ds > 1 then None
      else if digits_value radix ds < bound then Some (digits_value radix ds, drop (length ds) s)
      else None)"

definition read_given_char :: "char \<Rightarrow> string \<Rightarrow> string option" where
  "read_given_char c s = (case s of x # r \<Rightarrow> if x = c then Some r else None | [] \<Rightarrow> None)"

text \<open>\<open>read_separator\<close>: the separator stands before every item but the first.\<close>

definition read_separator :: "char \<Rightarrow> nat \<Rightarrow> 'a parser \<Rightarrow> 'a parser" where
  "read_separator sep i inner s =
     (if i = 0 then inner s
      else (case read_given_char sep s of Some r \<Rightarrow> inner r | None \<Rightarrow> None))"

definition read_octet :: "nat parser" where
  "read_octet = read_number 10 (Some 3) False 256"

fun read_octets :: "nat \<Rightarrow> nat \<Rightarrow> bytes parser" where
  "read_octets i 0 s = Some ([], s)"
| "read_octets i (Suc n) s =
     (case read_separator (CHR ''.'') i read_octet s of
        None \<Rightarrow> None
      | Some (v, r) \<Rightarrow>
          (case read_octets (Suc i) n r of
             None \<Rightarrow> None
           | Some (vs, r') \<Rightarrow> Some (of_nat v # vs, r')))"

definition read_ipv4_addr :: "bytes parser" where
  "read_ipv4_addr s = read_octets 0 4 s"

text \<open>The groups read, and whether they end in an embedded IPv4 address.\<close>

fun read_groups :: "nat \<Rightarrow> nat \<Rightarrow> string \<Rightarrow> u16 list \<times> bool \<times> string" where
  "read_groups i 0 s = ([], False, s)"
| "read_groups i (Suc left) s =
     (case (if 0 < left then read_separator (CHR '':'') i read_ipv4_addr s else None) of
        Some (v4, r) \<Rightarrow> ([from_be16 (v4 ! 0) (v4 ! 1), from_be16 (v4 ! 2) (v4 ! 3)], True, r)
      | None \<Rightarrow>
          (case read_separator (CHR '':'') i (read_number 16 (Some 4) True 65536) s of
             None \<Rightarrow> ([], False, s)
           | Some (g, r) \<Rightarrow>
               (case read_groups (Suc i) left r of
                  (gs, v4, r') \<Rightarrow> (of_nat g # gs, v4, r'))))"

definition read_ipv6_addr :: "u16 list parser" where
  "read_ipv6_addr s =
     (case read_groups 0 8 s of
        (head, head_ipv4, r) \<Rightarrow>
          if length head = 8 then Some (head, r)
          else if head_ipv4 then None
          else
            (case Option.bind (read_given_char (CHR '':'') r) (read_given_char (CHR '':'')) of
               None \<Rightarrow> None
             | Some r' \<Rightarrow>
                 (case read_groups 0 (8 - (length head + 1)) r' of
                    (tail, _, r'') \<Rightarrow>
                      Some (head @ replicate (8 - length head - length tail) 0 @ tail, r''))))"

definition read_port :: "nat parser" where
  "read_port s =
     (case read_given_char (CHR '':'') s of
        Some r \<Rightarrow> read_number 10 None True 65536 r
      | None \<Rightarrow> None)"

definition read_scope_id :: "nat parser" where
  "read_scope_id s =
     (case read_given_char (CHR ''%'') s of
        Some r \<Rightarrow> read_number 10 None True (2 ^ 32) r
      | None \<Rightarrow> None)"

definition read_socket_addr_v4 :: "sock_addr parser" where
  "read_socket_addr_v4 s =
     (case read_ipv4_addr s of
        None \<Rightarrow> None
      | Some (ip, r) \<Rightarrow>
          (case read_port r of None \<Rightarrow> None | Some (port, r') \<Rightarrow> Some (SocketAddr (V4 ip) port, r')))"

definition read_socket_addr_v6 :: "sock_addr parser" where
  "read_socket_addr_v6 s =
     (case Option.bind (read_given_char (CHR ''['') s) read_ipv6_addr of
        None \<Rightarrow> None
      | Some (ip, r) \<Rightarrow>
          (let r1 = (case read_scope_id r of Some (_, q) \<Rightarrow> q | None \<Rightarrow> r) in
           case Option.bind (read_given_char (CHR '']'') r1) read_port of
             None \<Rightarrow> None
           | Some (port, r') \<Rightarrow> Some (SocketAddr (V6 ip) port, r')))"

definition parse_socket_addr :: "string \<Rightarrow> sock_addr option" where
  "parse_socket_addr s =
     (case (case read_socket_addr_v4 s of Some x \<Rightarrow> Some x | None \<Rightarrow> read_socket_addr_v6 s) of
        Some (addr, []) \<Rightarrow> Some addr
      | _ \<Rightarrow> None)"

section \<open>Printing\<close>

definition ipv4_to_string :: "bytes \<Rightarrow> string" where
  "ipv4_to_string v4 =
     dec_of_nat (unat (v4 ! 0)) @ ''.'' @ dec_of_nat (unat (v4 ! 1)) @ ''.''
     @ dec_of_nat (unat (v4 ! 2)) @ ''.'' @ dec_of_nat (unat (v4 ! 3))"

fun hex_of_nat :: "nat \<Rightarrow> string" where
  "hex_of_nat n = (if n < 16 then [hex_digit n] else hex_of_nat (n div 16) @ [hex_digit (n mod 16)])"

declare hex_of_nat.simps [simp del]

fun colon_groups :: "u16 list \<Rightarrow> string" where
  "colon_groups [] = []"
| "colon_groups [g] = hex_of_nat (unat g)"
| "colon_groups (g # gs) = hex_of_nat (unat g) @ '':'' @ colon_groups gs"

text \<open>The longest run of zero groups, the first of several: index, spans so far (start, length).\<close>

fun zero_span :: "nat \<Rightarrow> u16 list \<Rightarrow> nat \<times> nat \<Rightarrow> nat \<times> nat \<Rightarrow> nat \<times> nat" where
  "zero_span i [] current longest = longest"
| "zero_span i (g # gs) current longest =
     (if g = 0 then
        (let current' = (if snd current = 0 then i else fst current, snd current + 1) in
         zero_span (Suc i) gs current' (if snd current' > snd longest then current' else longest))
      else zero_span (Suc i) gs (0, 0) longest)"

definition ipv6_to_string :: "u16 list \<Rightarrow> string" where
  "ipv6_to_string gs =
     (if take 6 gs = [0, 0, 0, 0, 0, 0xFFFF] then
        ''::ffff:'' @ ipv4_to_string (to_be16 (gs ! 6) @ to_be16 (gs ! 7))
      else
        (case zero_span 0 gs (0, 0) (0, 0) of
           (start, len) \<Rightarrow>
             if len > 1 then colon_groups (take start gs) @ ''::'' @ colon_groups (drop (start + len) gs)
             else colon_groups gs))"

fun ip_to_string :: "ip_addr \<Rightarrow> string" where
  "ip_to_string (V4 v4) = ipv4_to_string v4"
| "ip_to_string (V6 gs) = ipv6_to_string gs"

fun addr_ip :: "sock_addr \<Rightarrow> ip_addr" where
  "addr_ip (SocketAddr ip port) = ip"

fun socket_addr_to_string :: "sock_addr \<Rightarrow> string" where
  "socket_addr_to_string (SocketAddr (V4 v4) port) = ipv4_to_string v4 @ '':'' @ dec_of_nat port"
| "socket_addr_to_string (SocketAddr (V6 gs) port) = ''['' @ ipv6_to_string gs @ '']:'' @ dec_of_nat port"

section \<open>Round trip\<close>

lemma digits_value_dec: "dec_value acc ds = Some n \<Longrightarrow> foldl (\<lambda>acc c. acc * 10 + hex_value c) acc ds = n"
proof (induction ds arbitrary: acc)
  case (Cons c ds)
  then have "is_ascii_digit c" "dec_value (acc * 10 + (of_char c - 48)) ds = Some n"
    by (auto simp: mult.commute split: if_splits)
  with Cons.IH show ?case by (simp add: hex_value_def)
qed simp

lemma takeWhile_dec: "r = [] \<or> \<not> is_ascii_digit (hd r) \<Longrightarrow>
  takeWhile (is_digit 10) (dec_of_nat n @ r) = dec_of_nat n"
  using dec_of_nat_digits [of _ n]
  by (cases r) (auto simp: is_digit_def takeWhile_append)

lemma dec_of_nat_no_zero: "1 < length (dec_of_nat n) \<Longrightarrow> hd (dec_of_nat n) \<noteq> CHR ''0''"
proof (induction n rule: dec_of_nat.induct)
  case (1 n)
  then have n: "\<not> n < 10" by (auto simp: dec_of_nat.simps [of n] split: if_splits)
  show ?case
  proof (cases "n div 10 < 10")
    case True
    have "n div 10 \<noteq> 0" using n by simp
    then have "(of_char (digit_char (n div 10)) :: nat) \<noteq> 48" using True by simp
    then have "digit_char (n div 10) \<noteq> CHR ''0''" by auto
    with True n show ?thesis by (simp add: dec_of_nat.simps [of n] dec_of_nat.simps [of "n div 10"])
  next
    case False
    then have "1 < length (dec_of_nat (n div 10))"
      by (simp add: dec_of_nat.simps [of "n div 10"])
    with 1 n show ?thesis by (simp add: dec_of_nat.simps [of n])
  qed
qed

lemma length_dec_256: "n < 256 \<Longrightarrow> length (dec_of_nat n) \<le> 3"
  by (simp add: dec_of_nat.simps [of n] dec_of_nat.simps [of "n div 10"] dec_of_nat.simps [of "n div 100"]
      div_mult2_eq [symmetric])

lemma read_octet_dec:
  "n < 256 \<Longrightarrow> r = [] \<or> \<not> is_ascii_digit (hd r) \<Longrightarrow> read_octet (dec_of_nat n @ r) = Some (n, r)"
  using length_dec_256 [of n] dec_of_nat_no_zero [of n] digits_value_dec [OF dec_value_dec_of_nat [of n]]
  by (auto simp: read_octet_def read_number_def takeWhile_dec digits_value_def Let_def)

lemma read_port_dec:
  assumes "port < 65536"
  shows "read_port (CHR '':'' # dec_of_nat port) = Some (port, [])"
proof -
  have "takeWhile (is_digit 10) (dec_of_nat port) = dec_of_nat port"
    using takeWhile_dec [of "[]" port] by simp
  then show ?thesis using assms digits_value_dec [OF dec_value_dec_of_nat [of port]]
    unfolding read_port_def read_given_char_def read_number_def Let_def
    by (simp add: digits_value_def del: takeWhile_eq_all_conv)
qed

lemma read_ipv4_to_string:
  assumes "length v4 = 4" "r = [] \<or> \<not> is_ascii_digit (hd r)"
  shows "read_ipv4_addr (ipv4_to_string v4 @ r) = Some (v4, r)"
proof -
  obtain a b c d where v4: "v4 = [a, b, c, d]"
    using assms(1) by (auto simp: length_Suc_conv eval_nat_numeral)
  have "\<not> is_ascii_digit (CHR ''.'')" by (simp add: is_ascii_digit_def)
  moreover have four: "4 = Suc (Suc (Suc (Suc 0)))" by simp
  ultimately show ?thesis using assms(2)
    unfolding read_ipv4_addr_def four
    by (simp add: v4 ipv4_to_string_def read_separator_def read_given_char_def read_octet_dec unat_u8_less)
qed

lemma parse_socket_addr_v4:
  assumes "length v4 = 4" "port < 65536"
  shows "parse_socket_addr (socket_addr_to_string (SocketAddr (V4 v4) port)) = Some (SocketAddr (V4 v4) port)"
proof -
  have "\<not> is_ascii_digit (CHR '':'')" by (simp add: is_ascii_digit_def)
  with assms show ?thesis
    by (simp add: parse_socket_addr_def read_socket_addr_v4_def read_ipv4_to_string read_port_dec)
qed

text \<open>What evaluates the parser on a literal.\<close>

lemmas parse_eval = parse_socket_addr_def read_socket_addr_v4_def read_socket_addr_v6_def read_ipv4_addr_def
  read_ipv6_addr_def read_port_def read_scope_id_def read_octet_def read_number_def read_separator_def
  read_given_char_def is_digit_def is_ascii_digit_def is_ascii_hexdigit_def digits_value_def hex_value_def

lemma read_octets_numeral:
  "read_octets i (numeral n) s =
     (case read_separator (CHR ''.'') i read_octet s of
        None \<Rightarrow> None
      | Some (v, r) \<Rightarrow>
          (case read_octets (Suc i) (pred_numeral n) r of
             None \<Rightarrow> None
           | Some (vs, r') \<Rightarrow> Some (of_nat v # vs, r')))"
  by (simp add: numeral_eq_Suc)

lemma read_groups_numeral:
  "read_groups i (numeral n) s =
     (case (if 0 < pred_numeral n then read_separator (CHR '':'') i read_ipv4_addr s else None) of
        Some (v4, r) \<Rightarrow> ([from_be16 (v4 ! 0) (v4 ! 1), from_be16 (v4 ! 2) (v4 ! 3)], True, r)
      | None \<Rightarrow>
          (case read_separator (CHR '':'') i (read_number 16 (Some 4) True 65536) s of
             None \<Rightarrow> ([], False, s)
           | Some (g, r) \<Rightarrow>
               (case read_groups (Suc i) (pred_numeral n) r of
                  (gs, v4, r') \<Rightarrow> (of_nat g # gs, v4, r'))))"
  by (simp add: numeral_eq_Suc)

end
