(* ===== verification/Config.thy ===== *)
theory Config
  imports Mac Sock_Addr File_System
begin

text \<open>
  \<^verbatim>\<open>crates/bootycall-core/src/config.rs\<close>: the configuration records with their defaults,
  \<open>load\<close>, \<open>validate\<close>, \<open>find_host\<close> and the thread of \<open>watch_config\<close> that reloads the file.
  The YAML parser and the file watcher are third-party code: the parser is an argument of
  \<open>load\<close> that returns the fields it found, and what the watcher delivers is a sequence of
  inputs to the reload thread. The lemmas show that \<open>validate\<close> accepts exactly the
  well-formed configurations and that a reload never installs another one.
\<close>

section \<open>Data\<close>

record server_config =
  sc_http_bind :: string
  sc_tftp_bind :: string
  sc_tftp_root :: string
  sc_proxy_dhcp_bind :: string
  sc_cache_dir :: string
  sc_static_dir :: string
  sc_bootloader_amd64 :: string
  sc_bootloader_arm64 :: string
  sc_bootloader_bios :: string
  sc_oled_enabled :: bool
  sc_oled_brightness :: u8
  sc_api_token :: "string option"
  sc_max_artifact_bytes :: "nat option"

record host_config =
  hc_mac :: string
  hc_name :: string
  hc_image_path :: string
  hc_bootloader :: "string option"
  hc_kernel_path :: "string option"
  hc_initrd_path :: "string option"
  hc_cmdline :: "string option"

record config =
  cf_server :: server_config
  cf_hosts :: "host_config list"

text \<open>The fields a YAML file gives; those with a \<open>serde\<close> default may be missing.\<close>

record yaml_config =
  yc_http_bind :: string
  yc_tftp_bind :: string
  yc_tftp_root :: string
  yc_proxy_dhcp_bind :: string
  yc_cache_dir :: string
  yc_static_dir :: "string option"
  yc_bootloader_amd64 :: string
  yc_bootloader_arm64 :: string
  yc_bootloader_bios :: "string option"
  yc_oled_enabled :: "bool option"
  yc_oled_brightness :: "u8 option"
  yc_api_token :: "string option"
  yc_max_artifact_bytes :: "nat option"
  yc_hosts :: "host_config list"

definition default_oled_enabled :: bool where "default_oled_enabled = True"
definition default_oled_brightness :: u8 where "default_oled_brightness = 255"
definition default_static_dir :: string where "default_static_dir = ''./static''"
definition default_bootloader_bios :: string where "default_bootloader_bios = ''boot/x64/undionly.kpxe''"

definition or_default :: "'a \<Rightarrow> 'a option \<Rightarrow> 'a" where
  "or_default d x = (case x of Some v \<Rightarrow> v | None \<Rightarrow> d)"

definition fill_defaults :: "yaml_config \<Rightarrow> config" where
  "fill_defaults y =
     \<lparr>cf_server =
        \<lparr>sc_http_bind = yc_http_bind y, sc_tftp_bind = yc_tftp_bind y, sc_tftp_root = yc_tftp_root y,
         sc_proxy_dhcp_bind = yc_proxy_dhcp_bind y, sc_cache_dir = yc_cache_dir y,
         sc_static_dir = or_default default_static_dir (yc_static_dir y),
         sc_bootloader_amd64 = yc_bootloader_amd64 y, sc_bootloader_arm64 = yc_bootloader_arm64 y,
         sc_bootloader_bios = or_default default_bootloader_bios (yc_bootloader_bios y),
         sc_oled_enabled = or_default default_oled_enabled (yc_oled_enabled y),
         sc_oled_brightness = or_default default_oled_brightness (yc_oled_brightness y),
         sc_api_token = yc_api_token y, sc_max_artifact_bytes = yc_max_artifact_bytes y\<rparr>,
      cf_hosts = yc_hosts y\<rparr>"

section \<open>Validation\<close>

text \<open>The message of \<open>InvalidConfig\<close>, as the values it is formatted from.\<close>

datatype config_problem =
    BadBind string string
  | EmptyBootloader string
  | EmptyToken
  | ZeroArtifactLimit
  | InvalidHostMac string string
  | DuplicateMac string
  | EmptyHostName
  | DuplicateName string

datatype core_error = Io io_error | Yaml | Watcher | InvalidConfig config_problem

text \<open>The text of the message; how \<open>Debug\<close> shows a string depends on Unicode tables and is an argument.\<close>

definition problem_message :: "(string \<Rightarrow> string) \<Rightarrow> config_problem \<Rightarrow> string" where
  "problem_message debug p =
     (case p of
        BadBind field value \<Rightarrow>
          ''server.'' @ field @ '' = '' @ debug value @ '' is not a valid socket address (expected e.g. ''
            @ [CHR 0x22] @ ''0.0.0.0:69'' @ [CHR 0x22] @ '')''
      | EmptyBootloader field \<Rightarrow> ''server.'' @ field @ '' must not be empty''
      | EmptyToken \<Rightarrow> ''server.api_token is set but empty; unset it to disable auth or provide a real secret''
      | ZeroArtifactLimit \<Rightarrow> ''server.max_artifact_bytes is 0 (rejects all artifacts); unset it for unbounded''
      | InvalidHostMac name mac \<Rightarrow>
          ''host '' @ debug name @ '' has an invalid MAC address '' @ debug mac @ '' (expected aa:bb:cc:dd:ee:ff)''
      | DuplicateMac mac \<Rightarrow> ''duplicate host MAC '' @ debug mac @ '' (each host MAC must be unique)''
      | EmptyHostName \<Rightarrow> ''a host has an empty name''
      | DuplicateName name \<Rightarrow> ''duplicate host name '' @ debug name @ '' (each host name must be unique)'')"

fun check_binds :: "(string \<times> string) list \<Rightarrow> core_error + unit" where
  "check_binds [] = Inr ()"
| "check_binds ((field, value) # rest) =
     (if parse_socket_addr value = None then Inl (InvalidConfig (BadBind field value)) else check_binds rest)"

fun check_bootloaders :: "(string \<times> string) list \<Rightarrow> core_error + unit" where
  "check_bootloaders [] = Inr ()"
| "check_bootloaders ((field, value) # rest) =
     (if trim value = [] then Inl (InvalidConfig (EmptyBootloader field)) else check_bootloaders rest)"

fun check_hosts :: "string list \<Rightarrow> string list \<Rightarrow> host_config list \<Rightarrow> core_error + unit" where
  "check_hosts seen_macs seen_names [] = Inr ()"
| "check_hosts seen_macs seen_names (host # rest) =
     (if \<not> is_valid_mac (hc_mac host) then Inl (InvalidConfig (InvalidHostMac (hc_name host) (hc_mac host)))
      else if hc_mac host \<in> set seen_macs then Inl (InvalidConfig (DuplicateMac (hc_mac host)))
      else if trim (hc_name host) = [] then Inl (InvalidConfig EmptyHostName)
      else if hc_name host \<in> set seen_names then Inl (InvalidConfig (DuplicateName (hc_name host)))
      else check_hosts (hc_mac host # seen_macs) (hc_name host # seen_names) rest)"

definition validate :: "config \<Rightarrow> core_error + unit" where
  "validate c =
     (let s = cf_server c in
      case check_binds [(''http_bind'', sc_http_bind s), (''tftp_bind'', sc_tftp_bind s),
                        (''proxy_dhcp_bind'', sc_proxy_dhcp_bind s)] of
        Inl e \<Rightarrow> Inl e
      | Inr _ \<Rightarrow>
          (case check_bootloaders [(''default_bootloader_amd64'', sc_bootloader_amd64 s),
                                   (''default_bootloader_arm64'', sc_bootloader_arm64 s),
                                   (''default_bootloader_bios'', sc_bootloader_bios s)] of
             Inl e \<Rightarrow> Inl e
           | Inr _ \<Rightarrow>
               if sc_api_token s = Some [] then Inl (InvalidConfig EmptyToken)
               else if sc_max_artifact_bytes s = Some 0 then Inl (InvalidConfig ZeroArtifactLimit)
               else check_hosts [] [] (cf_hosts c)))"

definition find_host :: "config \<Rightarrow> string \<Rightarrow> host_config option" where
  "find_host c mac = List.find (\<lambda>h. hc_mac h = normalize_mac mac) (cf_hosts c)"

definition normalize_hosts :: "config \<Rightarrow> config" where
  "normalize_hosts c = c\<lparr>cf_hosts := map (\<lambda>h. h\<lparr>hc_mac := normalize_mac (hc_mac h)\<rparr>) (cf_hosts c)\<rparr>"

definition load_config :: "(string \<Rightarrow> yaml_config option) \<Rightarrow> string io \<Rightarrow> core_error + config" where
  "load_config parse_yaml file_content =
     (case file_content of
        Inl e \<Rightarrow> Inl (Io e)
      | Inr text \<Rightarrow>
          (case parse_yaml text of
             None \<Rightarrow> Inl Yaml
           | Some y \<Rightarrow>
               (let config = normalize_hosts (fill_defaults y) in
                case validate config of Inl e \<Rightarrow> Inl e | Inr _ \<Rightarrow> Inr config)))"

section \<open>What a valid configuration is\<close>

definition valid_config :: "config \<Rightarrow> bool" where
  "valid_config c \<longleftrightarrow>
     (\<forall>b \<in> {sc_http_bind (cf_server c), sc_tftp_bind (cf_server c), sc_proxy_dhcp_bind (cf_server c)}.
        parse_socket_addr b \<noteq> None)
     \<and> (\<forall>b \<in> {sc_bootloader_amd64 (cf_server c), sc_bootloader_arm64 (cf_server c), sc_bootloader_bios (cf_server c)}.
          trim b \<noteq> [])
     \<and> sc_api_token (cf_server c) \<noteq> Some [] \<and> sc_max_artifact_bytes (cf_server c) \<noteq> Some 0
     \<and> (\<forall>h \<in> set (cf_hosts c). is_valid_mac (hc_mac h) \<and> trim (hc_name h) \<noteq> [])
     \<and> distinct (map hc_mac (cf_hosts c)) \<and> distinct (map hc_name (cf_hosts c))"

lemma check_hosts_ok:
  "is_ok (check_hosts ms ns hs) \<longleftrightarrow>
     (\<forall>h \<in> set hs. is_valid_mac (hc_mac h) \<and> trim (hc_name h) \<noteq> [] \<and> hc_mac h \<notin> set ms \<and> hc_name h \<notin> set ns)
     \<and> distinct (map hc_mac hs) \<and> distinct (map hc_name hs)"
  by (induction ms ns hs rule: check_hosts.induct) (auto simp: image_iff)

lemma check_errors:
  "check_binds bs = Inl e \<Longrightarrow> \<exists>p. e = InvalidConfig p"
  "check_bootloaders bs = Inl e \<Longrightarrow> \<exists>p. e = InvalidConfig p"
  "check_hosts ms ns hs = Inl e \<Longrightarrow> \<exists>p. e = InvalidConfig p"
proof -
  show "check_binds bs = Inl e \<Longrightarrow> \<exists>p. e = InvalidConfig p"
    by (induction bs rule: check_binds.induct) (auto split: if_splits)
  show "check_bootloaders bs = Inl e \<Longrightarrow> \<exists>p. e = InvalidConfig p"
    by (induction bs rule: check_bootloaders.induct) (auto split: if_splits)
  show "check_hosts ms ns hs = Inl e \<Longrightarrow> \<exists>p. e = InvalidConfig p"
    by (induction ms ns hs rule: check_hosts.induct) (auto split: if_splits)
qed

lemma validate_iff: "validate c = Inr () \<longleftrightarrow> valid_config c"
proof -
  have "validate c = Inr () \<longleftrightarrow> is_ok (validate c)" by (cases "validate c") auto
  then show ?thesis
    by (auto simp: validate_def valid_config_def check_hosts_ok Let_def split: sum.splits)
qed

lemma load_config_valid:
  assumes "load_config parse_yaml file = Inr c"
  shows "valid_config c"
proof -
  obtain y where "c = normalize_hosts (fill_defaults y)" "\<exists>u. validate c = Inr u"
    using assms by (auto simp: load_config_def Let_def split: sum.splits option.splits)
  then have "validate c = Inr ()" by auto
  then show ?thesis by (simp add: validate_iff)
qed

lemma find_host_sound: "find_host c mac = Some h \<Longrightarrow> h \<in> set (cf_hosts c) \<and> hc_mac h = normalize_mac mac"
  by (auto simp: find_host_def dest: find_Some_in)

lemma find_host_unique:
  assumes "valid_config c" "h \<in> set (cf_hosts c)" "hc_mac h = normalize_mac mac"
  shows "find_host c mac = Some h"
proof (cases "find_host c mac")
  case None
  with assms(2,3) show ?thesis by (auto simp: find_host_def find_None_iff)
next
  case (Some h')
  from find_host_sound [OF this] have "h' \<in> set (cf_hosts c)" "hc_mac h' = hc_mac h" using assms(3) by auto
  with assms(1,2) have "h' = h" by (auto simp: valid_config_def distinct_map dest: inj_onD)
  with Some show ?thesis by simp
qed

section \<open>The reload thread\<close>

datatype event_kind = Modify | Create | Remove | Access | OtherKind

record notify_event =
  ev_kind :: event_kind
  ev_paths :: "string list"

definition event_targets_config :: "unit + notify_event \<Rightarrow> string option \<Rightarrow> bool" where
  "event_targets_config res watch_name =
     (case res of
        Inl _ \<Rightarrow> False
      | Inr event \<Rightarrow>
          if ev_kind event \<noteq> Modify \<and> ev_kind event \<noteq> Create then False
          else (case watch_name of
                  None \<Rightarrow> True
                | Some name \<Rightarrow> list_ex (\<lambda>p. file_name p = Some name) (ev_paths event)))"

text \<open>The directory that is watched and the name its events are filtered by.\<close>

definition path_parent :: "string \<Rightarrow> string option" where
  "path_parent p = (case ancestors p of _ # q # _ \<Rightarrow> Some q | _ \<Rightarrow> None)"

definition watch_target :: "string \<Rightarrow> string \<times> string option" where
  "watch_target p =
     ((case path_parent p of Some d \<Rightarrow> if d = [] then ''.'' else d | None \<Rightarrow> ''.''), file_name p)"

text \<open>
  One input of the thread: a message of the watcher, 200 ms without one (with what the
  configuration file holds then, or \<open>None\<close> when reading it panics), or the end of the
  channel. \<open>Draining\<close> carries the local \<open>dirty\<close>.
\<close>

datatype watch_input = Message "unit + notify_event" | Quiet "string io option" | Disconnected

datatype watch_state = Blocked | Draining bool | Exited

fun watch_step ::
  "(string \<Rightarrow> yaml_config option) \<Rightarrow> string option \<Rightarrow> watch_state \<Rightarrow> watch_input
   \<Rightarrow> watch_state \<times> config option" where
  "watch_step parse_yaml name Blocked (Message res) = (Draining (event_targets_config res name), None)"
| "watch_step parse_yaml name Blocked (Quiet _) = (Blocked, None)"
| "watch_step parse_yaml name Blocked Disconnected = (Exited, None)"
| "watch_step parse_yaml name (Draining dirty) (Message res) =
     (Draining (event_targets_config res name \<or> dirty), None)"
| "watch_step parse_yaml name (Draining dirty) (Quiet file) =
     (Blocked,
      if \<not> dirty then None
      else (case file of
              None \<Rightarrow> None
            | Some content \<Rightarrow> ok_option (load_config parse_yaml content)))"
| "watch_step parse_yaml name (Draining dirty) Disconnected = (Exited, None)"
| "watch_step parse_yaml name Exited _ = (Exited, None)"

text \<open>The configurations handed to \<open>on_reload\<close>, in order.\<close>

fun watch_run ::
  "(string \<Rightarrow> yaml_config option) \<Rightarrow> string option \<Rightarrow> watch_state \<Rightarrow> watch_input list
   \<Rightarrow> watch_state \<times> config list" where
  "watch_run parse_yaml name st [] = (st, [])"
| "watch_run parse_yaml name st (i # ins) =
     (case watch_step parse_yaml name st i of
        (st', out) \<Rightarrow>
          (case watch_run parse_yaml name st' ins of
             (st'', outs) \<Rightarrow> (st'', (case out of Some c \<Rightarrow> [c] | None \<Rightarrow> []) @ outs)))"

text \<open>
  \<open>watch_config\<close>: the watcher is created and put on the directory, or the call fails; then
  the thread runs, and every message of the watcher reaches it through the channel.
\<close>

definition watch_config ::
  "(string \<Rightarrow> yaml_config option) \<Rightarrow> bool \<Rightarrow> (string \<Rightarrow> bool) \<Rightarrow> string \<Rightarrow> watch_input list
   \<Rightarrow> core_error + watch_state \<times> config list" where
  "watch_config parse_yaml created watches path inputs =
     (if \<not> created then Inl Watcher
      else
        (let (watch_dir, watch_name) = watch_target path in
         if \<not> watches watch_dir then Inl Watcher
         else Inr (watch_run parse_yaml watch_name Blocked inputs)))"

lemma watch_step_valid: "watch_step parse_yaml name st i = (st', Some c) \<Longrightarrow> valid_config c"
  by (cases "(parse_yaml, name, st, i)" rule: watch_step.cases)
    (auto split: if_splits option.splits intro: load_config_valid)

lemma watch_run_valid: "\<forall>c \<in> set (snd (watch_run parse_yaml name st inputs)). valid_config c"
proof (induction inputs arbitrary: st)
  case (Cons i ins)
  obtain st' out where "watch_step parse_yaml name st i = (st', out)" by fastforce
  with Cons.IH [of st'] watch_step_valid [of parse_yaml name st i st'] show ?case
    by (cases out) (auto split: prod.splits)
qed simp

lemma watch_run_append:
  "watch_run p n st (xs @ ys) =
     (case watch_run p n st xs of (st1, o1) \<Rightarrow> case watch_run p n st1 ys of (st2, o2) \<Rightarrow> (st2, o1 @ o2))"
  by (induction xs arbitrary: st) (auto split: prod.splits)

lemma watch_run_messages:
  "watch_run p n (Draining d) (map Message ms) = (Draining (d \<or> (\<exists>m \<in> set ms. event_targets_config m n)), [])"
  by (induction ms arbitrary: d) auto

section \<open>Properties\<close>

text \<open>
  C12. \<open>validate\<close> decides well-formedness: it accepts a configuration exactly when the three
  bind addresses parse, the default bootloaders and host names are not blank, the token
  is not empty, the artifact limit is not zero, and the hosts have valid and pairwise
  different MACs and names. What it rejects, it rejects with an \<open>InvalidConfig\<close>.
\<close>

theorem validate_decides:
  "(validate c = Inr () \<longleftrightarrow> valid_config c) \<and> (validate c = Inr () \<or> (\<exists>p. validate c = Inl (InvalidConfig p)))"
proof (cases "validate c")
  case (Inl e)
  then have "\<exists>p. e = InvalidConfig p"
    by (auto simp: validate_def Let_def dest!: check_errors split: sum.splits if_splits)
  with Inl show ?thesis by (simp add: validate_iff [symmetric])
qed (simp add: validate_iff [symmetric])

text \<open>
  In a loaded configuration a host is found under every spelling of its MAC (upper
  case, dashes, surrounding blanks), it is the only one with that MAC, and no other
  string finds it.
\<close>

theorem loaded_host_lookup:
  assumes "load_config parse_yaml file = Inr c" "h \<in> set (cf_hosts c)"
  shows "find_host c mac = Some h \<longleftrightarrow> normalize_mac mac = hc_mac h"
  using find_host_unique [OF load_config_valid [OF assms(1)] assms(2), of mac] find_host_sound [of c mac h] by auto

definition sample_host :: host_config where
  "sample_host = \<lparr>hc_mac = ''52:54:00:AB:cd:01'', hc_name = ''n1'', hc_image_path = ''n1.iso'',
     hc_bootloader = None, hc_kernel_path = None, hc_initrd_path = None, hc_cmdline = None\<rparr>"

definition sample_yaml :: yaml_config where
  "sample_yaml =
     \<lparr>yc_http_bind = ''0.0.0.0:80'', yc_tftp_bind = ''0.0.0.0:69'', yc_tftp_root = ''/srv/tftp'',
      yc_proxy_dhcp_bind = ''[::]:4011'', yc_cache_dir = ''/var/cache'', yc_static_dir = None,
      yc_bootloader_amd64 = ''a.efi'', yc_bootloader_arm64 = ''b.efi'', yc_bootloader_bios = None,
      yc_oled_enabled = None, yc_oled_brightness = None, yc_api_token = Some ''s'',
      yc_max_artifact_bytes = None, yc_hosts = [sample_host]\<rparr>"

definition sample_config :: config where
  "sample_config = normalize_hosts (fill_defaults sample_yaml)"

lemma sample_addrs:
  "parse_socket_addr ''0.0.0.0:80'' \<noteq> None" "parse_socket_addr ''0.0.0.0:69'' \<noteq> None"
  "parse_socket_addr ''[::]:4011'' \<noteq> None"
  by (simp_all add: parse_eval read_octets_numeral read_groups_numeral)

lemma sample_mac: "normalize_mac ''52:54:00:AB:cd:01'' = ''52:54:00:ab:cd:01''"
  by code_simp

lemma sample_config_valid: "valid_config sample_config"
proof -
  have "trim ''a.efi'' \<noteq> []" "trim ''b.efi'' \<noteq> []" "trim ''boot/x64/undionly.kpxe'' \<noteq> []" "trim ''n1'' \<noteq> []"
    "is_valid_mac ''52:54:00:ab:cd:01''"
    by code_simp+
  then show ?thesis
    using sample_addrs
    by (simp add: valid_config_def sample_config_def sample_yaml_def sample_host_def normalize_hosts_def fill_defaults_def
        or_default_def default_bootloader_bios_def sample_mac)
qed

lemma sample_load: "load_config (\<lambda>_. Some sample_yaml) (Inr text) = Inr sample_config"
  using sample_config_valid by (simp add: load_config_def Let_def sample_config_def validate_iff [symmetric])

lemma loaded_host_lookup_witness:
  "find_host sample_config '' 52-54-00-ab-CD-01 '' = Some (sample_host\<lparr>hc_mac := ''52:54:00:ab:cd:01''\<rparr>)"
proof -
  have "normalize_mac '' 52-54-00-ab-CD-01 '' = ''52:54:00:ab:cd:01''" by code_simp
  moreover have "sample_host\<lparr>hc_mac := ''52:54:00:ab:cd:01''\<rparr> \<in> set (cf_hosts sample_config)"
    by (simp add: sample_config_def sample_yaml_def normalize_hosts_def fill_defaults_def sample_host_def sample_mac)
  ultimately show ?thesis
    using loaded_host_lookup [OF sample_load, of "sample_host\<lparr>hc_mac := ''52:54:00:ab:cd:01''\<rparr>"] by simp
qed

text \<open>
  C13. Whatever the watcher delivers and whatever is in the file at each reload, the
  reload thread hands over valid configurations only; and after a burst of events that
  names the file and a quiet period, it hands over the content of the file then, if that
  loads, and nothing if it does not.
\<close>

theorem reload_installs_valid:
  "list_all valid_config (snd (watch_run parse_yaml name Blocked inputs))
   \<and> watch_run parse_yaml name Blocked (Message m # map Message ms @ [Quiet file])
     = (Blocked,
        if event_targets_config m name \<or> list_ex (\<lambda>m'. event_targets_config m' name) ms
        then (case Option.bind file (\<lambda>content. ok_option (load_config parse_yaml content)) of
                Some c \<Rightarrow> [c] | None \<Rightarrow> [])
        else [])"
proof
  show "list_all valid_config (snd (watch_run parse_yaml name Blocked inputs))"
    using watch_run_valid by (auto simp: list_all_iff)
  show "watch_run parse_yaml name Blocked (Message m # map Message ms @ [Quiet file])
     = (Blocked,
        if event_targets_config m name \<or> list_ex (\<lambda>m'. event_targets_config m' name) ms
        then (case Option.bind file (\<lambda>content. ok_option (load_config parse_yaml content)) of
                Some c \<Rightarrow> [c] | None \<Rightarrow> [])
        else [])"
    by (auto simp: watch_run_append watch_run_messages list_ex_iff split: option.splits)
qed

end
