(* ===== verification/Host_Registry.thy ===== *)
theory Host_Registry
  imports State_Store
begin

text \<open>
  The contract of the state store that the servers rely on, as a locale: what a lookup
  returns after each kind of call. The client lemmas give the status a host has after a
  whole sequence of calls. The interpretation on \<open>State_Store\<close> discharges the contract,
  and the properties of the store follow.
\<close>

section \<open>The interface\<close>

fun touches :: "string \<Rightarrow> store_op \<Rightarrow> host_status option" where
  "touches k (UpdateHost mac status _ _ _ _) = (if normalize_mac mac = normalize_mac k then Some status else None)"
| "touches k _ = None"

fun is_sweep :: "store_op \<Rightarrow> bool" where
  "is_sweep (CleanStale _) = True"
| "is_sweep _ = False"

text \<open>The override target a call assigns to a host.\<close>

fun assigns :: "string \<Rightarrow> store_op \<Rightarrow> string option" where
  "assigns k (UpdateHost mac _ _ target _ _) = (if normalize_mac mac = normalize_mac k then target else None)"
| "assigns k _ = None"

text \<open>The status of the last call for a host, or the one it had.\<close>

fun last_status :: "string \<Rightarrow> store_op list \<Rightarrow> host_status \<Rightarrow> host_status" where
  "last_status k [] s = s"
| "last_status k (op # ops) s = last_status k ops (case touches k op of Some s' \<Rightarrow> s' | None \<Rightarrow> s)"

locale host_registry =
  fixes apply_call :: "int \<Rightarrow> store_op \<Rightarrow> 's \<Rightarrow> 's"
    and get :: "string \<Rightarrow> 's \<Rightarrow> host_state option"
    and full :: "string \<Rightarrow> 's \<Rightarrow> bool"
  assumes get_update: "get k (apply_call now (UpdateHost mac status name target ip arch) s) =
      (if full mac s \<or> normalize_mac k \<noteq> normalize_mac mac then get k s
       else Some (merged_host now status name target ip arch
              (case get mac s of Some h \<Rightarrow> h | None \<Rightarrow> blank_host mac)))"
    and get_log: "get k (apply_call now (LogEvent level m msg) s) = get k s"
    and get_sweep: "get k (apply_call now (CleanStale secs) s) =
      (case get k s of Some h \<Rightarrow> if retain_host now secs h then Some h else None | None \<Rightarrow> None)"
    and full_absent: "full mac s \<Longrightarrow> get mac s = None"
    and get_normalized: "normalize_mac k = normalize_mac k' \<Longrightarrow> get k s = get k' s"
begin

lemma tracked_status_step:
  assumes "get k s = Some h" "\<not> is_sweep op"
  shows "\<exists>h'. get k (apply_call now op s) = Some h'
    \<and> hs_status h' = (case touches k op of Some st \<Rightarrow> st | None \<Rightarrow> hs_status h)"
proof (cases op)
  case (UpdateHost mac status name target ip arch)
  show ?thesis
  proof (cases "normalize_mac mac = normalize_mac k")
    case True
    then have "get mac s = Some h" using get_normalized [of mac k s] assms(1) by simp
    moreover from this have "\<not> full mac s" using full_absent by auto
    ultimately show ?thesis using True by (simp add: UpdateHost get_update merged_host_def)
  next
    case False
    then show ?thesis using assms(1) by (auto simp: UpdateHost get_update)
  qed
qed (use assms in \<open>auto simp: get_log\<close>)

text \<open>A tracked host has the status of the last call that names it.\<close>

lemma tracked_status:
  assumes "get k s = Some h" "\<forall>op \<in> set ops. \<not> is_sweep op"
  shows "\<exists>h'. get k (fold (apply_call now) ops s) = Some h' \<and> hs_status h' = last_status k ops (hs_status h)"
  using assms
proof (induction ops arbitrary: s h)
  case (Cons op ops)
  from Cons.prems tracked_status_step [of k s h op now] obtain h1 where
    "get k (apply_call now op s) = Some h1"
    "hs_status h1 = (case touches k op of Some st \<Rightarrow> st | None \<Rightarrow> hs_status h)" by auto
  with Cons.IH [of "apply_call now op s" h1] Cons.prems(2) show ?case by simp
qed simp

text \<open>An override target stays until a sweep or another override.\<close>

lemma target_stays_step:
  assumes "get k s = Some h" "hs_assigned_target h = Some t" "\<not> is_sweep op" "assigns k op = None"
  shows "\<exists>h'. get k (apply_call now op s) = Some h' \<and> hs_assigned_target h' = Some t"
proof (cases op)
  case (UpdateHost mac status name target ip arch)
  show ?thesis
  proof (cases "normalize_mac mac = normalize_mac k")
    case True
    then have "get mac s = Some h" using get_normalized [of mac k s] assms(1) by simp
    moreover from this have "\<not> full mac s" using full_absent by auto
    moreover have "target = None" using assms(4) True by (simp add: UpdateHost)
    ultimately show ?thesis using True assms(2) by (simp add: UpdateHost get_update merged_host_def merge_opt_def)
  next
    case False
    then show ?thesis using assms(1,2) by (auto simp: UpdateHost get_update)
  qed
qed (use assms in \<open>auto simp: get_log\<close>)

lemma target_stays:
  assumes "get k s = Some h" "hs_assigned_target h = Some t"
    "list_all (\<lambda>(now, op). \<not> is_sweep op \<and> assigns k op = None) calls"
  shows "\<exists>h'. get k (fold (\<lambda>(now, op). apply_call now op) calls s) = Some h' \<and> hs_assigned_target h' = Some t"
  using assms
proof (induction calls arbitrary: s h)
  case (Cons c calls)
  obtain now op where c: "c = (now, op)" by (cases c)
  with Cons.prems target_stays_step [of k s h t op now] obtain h1 where
    "get k (apply_call now op s) = Some h1" "hs_assigned_target h1 = Some t" by auto
  with Cons.IH [of "apply_call now op s" h1] Cons.prems(3) c show ?case by simp
qed simp

text \<open>No call invents a host: a host that was absent is there only if a call names it.\<close>

lemma absent_stays:
  "get k s = None \<Longrightarrow> \<forall>op \<in> set ops. touches k op = None \<Longrightarrow> get k (fold (apply_call now) ops s) = None"
proof (induction ops arbitrary: s)
  case (Cons op ops)
  have "get k (apply_call now op s) = None"
    using Cons.prems by (cases op) (auto simp: get_update get_log get_sweep split: if_splits)
  with Cons show ?case by simp
qed simp

end

interpretation registry: host_registry apply_op get_host store_full
  by unfold_locales
    (auto simp: get_host_def store_simps merged_host_def store_full_def split: option.splits)

section \<open>Sequences of calls\<close>

lemma wf_apply_calls: "wf_store st \<Longrightarrow> wf_store (fold (\<lambda>(now, op). apply_op now op) calls st)"
  by (induction calls arbitrary: st) (auto intro: wf_apply_op)

lemma wf_apply_ops: "wf_store st \<Longrightarrow> wf_store (apply_ops now ops st)"
  unfolding apply_ops_def by (induction ops arbitrary: st) (auto intro: wf_apply_op)

lemma drop_drop_end: "drop (length (drop (length xs - n) xs @ ys) - n) (drop (length xs - n) xs @ ys)
    = drop (length (xs @ ys) - n) (xs @ ys)"
  by (cases "length xs \<le> n") (auto simp: add.commute)

definition log_entry :: "int \<times> string \<times> string option \<times> string \<Rightarrow> log_record" where
  "log_entry e = (case e of (now, level, mac, message) \<Rightarrow>
     \<lparr>le_timestamp = now, le_level = level, le_mac = map_option normalize_mac mac, le_message = message\<rparr>)"

lemma log_event_logs: "ss_logs (log_event now level mac msg st) = evict_oldest (ss_logs st @ [log_entry (now, level, mac, msg)])"
  by (simp add: log_event_def log_entry_def)

section \<open>Properties\<close>

text \<open>
  C11. The memory of the store is bounded under any traffic: after any sequence of calls
  at any times there are at most 4096 hosts and 200 log events, and every host is filed
  under its own normalised MAC.
\<close>

theorem store_bounded:
  "let st = fold (\<lambda>(now, op). apply_op now op) calls new_store
   in fm_size (ss_hosts st) \<le> 4096 \<and> length (list_logs st) \<le> 200
      \<and> (\<forall>k. pred_option (\<lambda>h. hs_mac h = k \<and> normalize_mac k = k) (fmlookup (ss_hosts st) k))"
  using wf_apply_calls [OF wf_new_store, of calls]
  by (auto simp: wf_store_def MAX_TRACKED_HOSTS_def MAX_LOGS_def list_logs_def Let_def pred_option_def elem_set)

text \<open>
  What a lookup returns after an update, under any spelling of the MAC: the merged
  entry for the updated host (an absent field keeps its old value, the status and the
  time are the new ones), the old entry for every other; an update for an unknown host
  changes no lookup when the table is full.
\<close>

theorem get_after_update:
  "get_host k (update_host_status now mac status name target ip arch st) =
     (if store_full mac st then get_host k st
      else if normalize_mac k = normalize_mac mac then
           (let h = (case get_host mac st of Some h \<Rightarrow> h | None \<Rightarrow> blank_host mac)
            in Some (h\<lparr>hs_status := status, hs_last_seen := now,
                       hs_name := merge_opt name (hs_name h),
                       hs_assigned_target := merge_opt target (hs_assigned_target h),
                       hs_client_ip := merge_opt ip (hs_client_ip h),
                       hs_architecture := merge_opt arch (hs_architecture h)\<rparr>))
      else get_host k st)"
  using registry.get_update [of k now mac status name target ip arch st]
  by (simp add: merged_host_def Let_def)

text \<open>
  The log is a ring: after any number of events, whatever their times, it holds the
  last 200 of all events so far, oldest first.
\<close>

theorem log_keeps_latest:
  "list_logs (fold (\<lambda>(now, level, mac, message). log_event now level mac message) events new_store)
   = drop (length events - 200) (map log_entry events)"
proof (induction events rule: rev_induct)
  case Nil
  then show ?case by (simp add: list_logs_def new_store_def)
next
  case (snoc e events)
  obtain now level mac message where e: "e = (now, level, mac, message)" by (metis prod_cases4)
  define xs where "xs = map log_entry events"
  have "ss_logs (fold (\<lambda>(now, level, mac, message). log_event now level mac message) events new_store)
    = drop (length xs - 200) xs" using snoc by (simp add: list_logs_def xs_def)
  then have "list_logs (fold (\<lambda>(now, level, mac, message). log_event now level mac message) (events @ [e]) new_store)
    = evict_oldest (drop (length xs - 200) xs @ [log_entry e])"
    by (simp add: e list_logs_def log_event_logs)
  also have "\<dots> = drop (length (xs @ [log_entry e]) - 200) (xs @ [log_entry e])"
    unfolding evict_oldest_eq MAX_LOGS_def by (rule drop_drop_end)
  finally show ?case by (simp add: xs_def)
qed

text \<open>
  The sweep removes exactly the hosts whose last contact lies at least the limit, in
  whole seconds, in the past. A host seen after \<open>now\<close> (the clock was stepped back) stays.
\<close>

theorem sweep_exact:
  "get_host k (clean_stale_hosts now secs st) =
     Option.bind (get_host k st)
       (\<lambda>h. if hs_last_seen h + int secs * 1000000000 \<le> now \<and> hs_last_seen h \<le> now then None else Some h)"
proof -
  have "retain_host now secs h \<longleftrightarrow> \<not> (hs_last_seen h + int secs * 1000000000 \<le> now \<and> hs_last_seen h \<le> now)" for h
  proof (cases "hs_last_seen h \<le> now")
    case True
    then have "retain_host now secs h \<longleftrightarrow> nat (now - hs_last_seen h) div 1000000000 < secs"
      by (simp add: retain_host_def duration_since_def as_secs_def)
    also have "\<dots> \<longleftrightarrow> nat (now - hs_last_seen h) < secs * 1000000000"
      by (simp add: div_less_iff_less_mult)
    also have "\<dots> \<longleftrightarrow> \<not> hs_last_seen h + int secs * 1000000000 \<le> now" using True by linarith
    finally show ?thesis using True by simp
  qed (simp add: retain_host_def duration_since_def)
  then show ?thesis
    using registry.get_sweep [of k now secs st] by (cases "get_host k st") auto
qed

end
