(* ===== verification/Tftp_Listener.thy ===== *)
theory Tftp_Listener
  imports Tftp_Service Path_Join Config Host_Registry
begin

text \<open>
  The listener of \<^verbatim>\<open>crates/bootycall-tftp/src/server.rs\<close>, \<open>run_tftp_server_with_limit\<close>:
  the dispatch on the opcode, the choice of the file and the host for a read request, the
  limit on concurrent transfers and the start of a transfer task. \<open>listener_step\<close> is one
  pass of its loop; \<open>tftp_step\<close> interleaves the listener with the ends of the transfers it
  started. The lemmas show that a request is served only from below the TFTP root, that
  the limit holds in every reachable state, and what the store shows of a host.
\<close>

section \<open>One pass of the listener\<close>

text \<open>How the system calls that set up the transfer socket go.\<close>

datatype socket_setup = SocketReady | BindFailed | ConnectFailed

datatype dispatch = Serve | Refuse bytes

definition dispatch_opcode :: "bytes \<Rightarrow> dispatch" where
  "dispatch_opcode packet =
     (if length packet \<ge> 2 then
        (let op = from_be16 (packet ! 0) (packet ! 1) in
         if op = OP_RRQ then Serve
         else if op = OP_WRQ then Refuse (make_error_packet 4 ''Illegal TFTP operation (WRQ not supported)'')
         else Refuse (make_error_packet 4 ''Illegal TFTP operation''))
      else Serve)"

definition client_host :: "host_order \<Rightarrow> state_store \<Rightarrow> sock_addr \<Rightarrow> host_state option" where
  "client_host order st src =
     List.find (\<lambda>h. hs_client_ip h = Some (ip_to_string (addr_ip src))) (list_hosts order st)"

definition custom_bootloader :: "config \<Rightarrow> string \<Rightarrow> string option" where
  "custom_bootloader config mac = Option.bind (find_host config mac) hc_bootloader"

definition is_default_request :: "config \<Rightarrow> string \<Rightarrow> bool" where
  "is_default_request config filename \<longleftrightarrow>
     filename = sc_bootloader_amd64 (cf_server config) \<or> filename = sc_bootloader_arm64 (cf_server config)"

definition final_filename :: "config \<Rightarrow> host_state option \<Rightarrow> string \<Rightarrow> string" where
  "final_filename config host filename =
     (case host of
        None \<Rightarrow> filename
      | Some hs \<Rightarrow>
          (case custom_bootloader config (hs_mac hs) of
             None \<Rightarrow> filename
           | Some boot \<Rightarrow> if is_default_request config filename then boot else filename))"

text \<open>A transfer task to start: the file, the request and the host it is for.\<close>

record job =
  jb_path :: string
  jb_request :: rrq_request
  jb_mac :: "string option"

text \<open>What one packet leads to: datagrams to its sender, calls on the store, a task.\<close>

record reaction =
  re_replies :: "bytes list"
  re_ops :: "store_op list"
  re_job :: "job option"

definition ignored :: reaction where
  "ignored = \<lparr>re_replies = [], re_ops = [], re_job = None\<rparr>"

definition booting_ops :: "string option \<Rightarrow> string \<Rightarrow> string \<Rightarrow> store_op list" where
  "booting_ops mac_addr filename path =
     (case mac_addr of
        Some mac \<Rightarrow>
          [UpdateHost mac Booting None None None None,
           LogEvent ''INFO'' (Some mac)
             (''Starting TFTP bootloader transfer: '' @ filename @ '' (mapped to '' @ path @ '')'')]
      | None \<Rightarrow> [])"

definition start_transfer :: "socket_setup \<Rightarrow> nat \<Rightarrow> string \<Rightarrow> rrq_request \<Rightarrow> string option \<Rightarrow> reaction" where
  "start_transfer sock slots path request mac_addr =
     (let ops = booting_ops mac_addr (rq_filename request) path in
      case sock of
        BindFailed \<Rightarrow> \<lparr>re_replies = [], re_ops = ops, re_job = None\<rparr>
      | ConnectFailed \<Rightarrow> \<lparr>re_replies = [], re_ops = ops, re_job = None\<rparr>
      | SocketReady \<Rightarrow>
          if slots = 0 then
            \<lparr>re_replies = [make_error_packet 0 ''Server busy''], re_ops = ops, re_job = None\<rparr>
          else
            \<lparr>re_replies = [], re_ops = ops,
             re_job = Some \<lparr>jb_path = path, jb_request = request, jb_mac = mac_addr\<rparr>\<rparr>)"

definition listener_step ::
  "(string \<Rightarrow> cpath option) \<Rightarrow> host_order \<Rightarrow> config \<Rightarrow> socket_setup \<Rightarrow> nat \<Rightarrow> state_store \<Rightarrow> bytes \<Rightarrow> sock_addr
   \<Rightarrow> reaction" where
  "listener_step resolve order config sock slots st datagram src =
     (let packet = take 1500 datagram in
      case dispatch_opcode packet of
        Refuse err \<Rightarrow> \<lparr>re_replies = [err], re_ops = [], re_job = None\<rparr>
      | Serve \<Rightarrow>
          (case parse_rrq packet of
             None \<Rightarrow> ignored
           | Some request \<Rightarrow>
               (let host = client_host order st src;
                    mac_addr = map_option hs_mac host;
                    name = final_filename config host (rq_filename request)
                in case safe_join resolve (sc_tftp_root (cf_server config)) name of
                     None \<Rightarrow>
                       if sock = BindFailed then ignored
                       else \<lparr>re_replies = [make_error_packet 2 ''Access violation (path traversal)''],
                             re_ops = [], re_job = None\<rparr>
                   | Some path \<Rightarrow> start_transfer sock slots path request mac_addr)))"

section \<open>The server\<close>

text \<open>The store, the running tasks and the free slots of the semaphore.\<close>

record tftp_server =
  tf_store :: state_store
  tf_jobs :: "job list"
  tf_slots :: nat

definition start_server :: "nat \<Rightarrow> state_store \<Rightarrow> tftp_server" where
  "start_server limit st = \<lparr>tf_store = st, tf_jobs = [], tf_slots = limit\<rparr>"

definition receive_packet ::
  "(string \<Rightarrow> cpath option) \<Rightarrow> host_order \<Rightarrow> config \<Rightarrow> int \<Rightarrow> socket_setup \<Rightarrow> bytes \<Rightarrow> sock_addr \<Rightarrow> tftp_server \<Rightarrow> tftp_server" where
  "receive_packet resolve order config now sock datagram src s =
     (let r = listener_step resolve order config sock (tf_slots s) (tf_store s) datagram src
      in case re_job r of
           None \<Rightarrow> s\<lparr>tf_store := apply_ops now (re_ops r) (tf_store s)\<rparr>
         | Some j \<Rightarrow> \<lparr>tf_store = apply_ops now (re_ops r) (tf_store s), tf_jobs = j # tf_jobs s,
                      tf_slots = tf_slots s - 1\<rparr>)"

definition finish_job :: "int \<Rightarrow> job \<Rightarrow> store_op list \<Rightarrow> tftp_server \<Rightarrow> tftp_server" where
  "finish_job now j ops s =
     \<lparr>tf_store = apply_ops now ops (tf_store s), tf_jobs = remove1 j (tf_jobs s), tf_slots = Suc (tf_slots s)\<rparr>"

text \<open>
  A task may end with whatever its transfer on some file, network and clock ends with;
  other servers may call the store between two steps.
\<close>

inductive tftp_step ::
  "(string \<Rightarrow> cpath option) \<Rightarrow> host_order \<Rightarrow> tftp_server \<Rightarrow> tftp_server \<Rightarrow> bool"
  for resolve :: "string \<Rightarrow> cpath option" and order :: host_order where
  packet: "tftp_step resolve order s (receive_packet resolve order config now sock datagram src s)"
| finished: "j \<in> set (tf_jobs s) \<Longrightarrow>
    handle_tftp_transfer file_read opened metadata start turns (jb_request j) (jb_mac j) = (out, ops, Some res) \<Longrightarrow>
    tftp_step resolve order s (finish_job now j ops s)"
| others: "tftp_step resolve order s (s\<lparr>tf_store := apply_op now op (tf_store s)\<rparr>)"

inductive tftp_reachable ::
  "(string \<Rightarrow> cpath option) \<Rightarrow> host_order \<Rightarrow> nat \<Rightarrow> tftp_server \<Rightarrow> bool"
  for resolve :: "string \<Rightarrow> cpath option" and order :: host_order and limit :: nat where
  start: "tftp_reachable resolve order limit (start_server limit new_store)"
| step: "tftp_reachable resolve order limit s \<Longrightarrow> tftp_step resolve order s s' \<Longrightarrow> tftp_reachable resolve order limit s'"

inductive_cases tftp_stepE: "tftp_step resolve order s s'"

text \<open>Every task holds one slot, and the store is well-formed.\<close>

definition slots_inv :: "nat \<Rightarrow> tftp_server \<Rightarrow> bool" where
  "slots_inv limit s \<longleftrightarrow> length (tf_jobs s) + tf_slots s = limit \<and> wf_store (tf_store s)"

lemma listener_job:
  assumes "re_job (listener_step resolve order config sock slots st datagram src) = Some j"
  shows "0 < slots \<and> sock = SocketReady
    \<and> parse_rrq (take 1500 datagram) = Some (jb_request j)
    \<and> jb_mac j = map_option hs_mac (client_host order st src)
    \<and> safe_join resolve (sc_tftp_root (cf_server config))
        (final_filename config (client_host order st src) (rq_filename (jb_request j))) = Some (jb_path j)
    \<and> re_ops (listener_step resolve order config sock slots st datagram src)
        = booting_ops (jb_mac j) (rq_filename (jb_request j)) (jb_path j)
    \<and> re_replies (listener_step resolve order config sock slots st datagram src) = []"
  using assms
  by (auto simp: listener_step_def start_transfer_def ignored_def Let_def
      split: dispatch.splits option.splits socket_setup.splits if_splits)

lemma listener_jobI:
  assumes "0 < slots" "sock = SocketReady" "parse_rrq (take 1500 datagram) = Some (jb_request j)"
    "jb_mac j = map_option hs_mac (client_host order st src)"
    "safe_join resolve (sc_tftp_root (cf_server config))
       (final_filename config (client_host order st src) (rq_filename (jb_request j))) = Some (jb_path j)"
  shows "re_job (listener_step resolve order config sock slots st datagram src) = Some j"
proof -
  have "opcode (take 1500 datagram) = Some OP_RRQ" using assms(3) by (rule parse_rrq_opcode)
  with assms show ?thesis
    by (cases j) (auto simp: listener_step_def start_transfer_def dispatch_opcode_def opcode_def Let_def split: if_splits)
qed

lemma slots_inv_step:
  assumes "slots_inv limit s" "tftp_step resolve order s s'"
  shows "slots_inv limit s'"
  using assms(2)
proof (cases rule: tftp_step.cases)
  case (packet config now sock datagram src)
  show ?thesis
  proof (cases "re_job (listener_step resolve order config sock (tf_slots s) (tf_store s) datagram src)")
    case None
    with assms(1) packet show ?thesis by (simp add: receive_packet_def slots_inv_def Let_def wf_apply_ops)
  next
    case (Some j)
    with listener_job [OF this] assms(1) packet show ?thesis
      by (simp add: receive_packet_def slots_inv_def Let_def wf_apply_ops)
  qed
next
  case (finished j opened metadata start turns out ops res now)
  then obtain n where "length (tf_jobs s) = Suc n" by (cases "length (tf_jobs s)") auto
  with finished assms(1) show ?thesis
    by (auto simp: finish_job_def slots_inv_def wf_apply_ops length_remove1)
next
  case (others now op)
  with assms(1) show ?thesis by (simp add: slots_inv_def wf_apply_op)
qed

lemma slots_inv_reachable: "tftp_reachable resolve order limit s \<Longrightarrow> slots_inv limit s"
proof (induction rule: tftp_reachable.induct)
  case start
  then show ?case by (simp add: slots_inv_def start_server_def)
next
  case (step s s')
  then show ?case by (blast intro: slots_inv_step)
qed

section \<open>Properties\<close>

text \<open>
  In every reachable state of the TFTP server, whatever packets arrive, however the
  transfers end and whatever the other servers do to the store, at most the configured
  number of transfers runs, every free slot is accounted for, and the store is
  well-formed.
\<close>

theorem transfers_bounded:
  assumes "tftp_reachable resolve order MAX_CONCURRENT_TRANSFERS s"
  shows "length (tf_jobs s) \<le> 128 \<and> tf_slots s = 128 - length (tf_jobs s) \<and> wf_store (tf_store s)"
  using slots_inv_reachable [OF assms] by (auto simp: slots_inv_def MAX_CONCURRENT_TRANSFERS_def)

lemma transfers_bounded_witness:
  "length (tf_jobs (start_server MAX_CONCURRENT_TRANSFERS new_store)) \<le> 128
   \<and> tf_slots (start_server MAX_CONCURRENT_TRANSFERS new_store) = 128"
  using transfers_bounded [OF tftp_reachable.start]
  by (simp add: start_server_def)

text \<open>
  A packet starts a transfer exactly when it is a read request, the slots are not
  used up, the transfer socket can be set up and the requested file, or the custom boot
  loader that replaces a default one for a known host, joins safely onto the TFTP root;
  the task gets that path and the MAC of the host last seen at the sender's address.
\<close>

theorem listener_starts:
  "re_job (listener_step resolve order config sock slots st datagram src) = Some j \<longleftrightarrow>
     0 < slots \<and> sock = SocketReady
     \<and> parse_rrq (take 1500 datagram) = Some (jb_request j)
     \<and> jb_mac j = map_option hs_mac (client_host order st src)
     \<and> safe_join resolve (sc_tftp_root (cf_server config))
         (final_filename config (client_host order st src) (rq_filename (jb_request j))) = Some (jb_path j)"
  using listener_job [of resolve order config sock slots st datagram src j]
    listener_jobI [of slots sock datagram j order st src resolve config] by blast

text \<open>
  C5. A transfer never reads outside the TFTP root: the path of a started task does not
  resolve, or resolves to the canonical root or below it.
\<close>

theorem transfer_inside_root:
  assumes "re_job (listener_step (resolve_in v) order config sock slots st datagram src) = Some j"
  shows "\<exists>croot. resolve_in v (sc_tftp_root (cf_server config)) = Some croot
    \<and> (\<forall>c. resolve_in v (jb_path j) = Some c \<longrightarrow> prefix croot c)"
proof -
  from listener_job [OF assms]
  have "safe_join (resolve_in v) (sc_tftp_root (cf_server config))
      (final_filename config (client_host order st src) (rq_filename (jb_request j))) = Some (jb_path j)" by blast
  then show ?thesis by (rule kernel.safe_join_inside)
qed

definition sample_tftp_config :: config where
  "sample_tftp_config = sample_config\<lparr>cf_server := (cf_server sample_config)\<lparr>sc_tftp_root := ''/srv''\<rparr>\<rparr>"

definition sample_src :: sock_addr where
  "sample_src = SocketAddr (V4 [10, 0, 0, 7]) 1024"

definition sample_rrq :: bytes where
  "sample_rrq = make_rrq_packet ''in'' ''octet'' []"

lemma sample_rrq_parse: "parse_rrq (take 1500 sample_rrq) = Some (plain_request ''in'' ''octet'')"
proof -
  have "wire_text ''in''" "wire_text ''octet''" by (auto simp: wire_text_def intro!: is_utf8_ascii)
  from parse_make_rrq [OF this, of "[]"] show ?thesis
    by (simp add: sample_rrq_def wire_options_def with_options_def make_rrq_packet_def)
qed

lemma sample_view_eval: "resolve_in sample_view = resolve_path sample_fs []"
  by (rule ext, transfer) simp

lemma sample_join: "safe_join (resolve_in sample_view) ''/srv'' ''in'' = Some ''/srv/boot''"
  unfolding sample_view_eval by code_simp

lemma sample_job:
  "re_job (listener_step (resolve_in sample_view) (\<lambda>_. []) sample_tftp_config SocketReady 1 new_store sample_rrq sample_src)
   = Some \<lparr>jb_path = ''/srv/boot'', jb_request = plain_request ''in'' ''octet'', jb_mac = None\<rparr>"
  by (rule listener_jobI)
    (simp_all add: sample_rrq_parse sample_join client_host_def list_hosts_def final_filename_def plain_request_def
      sample_tftp_config_def)

lemma transfer_inside_root_witness:
  "\<exists>croot. resolve_in sample_view ''/srv'' = Some croot
    \<and> (\<forall>c. resolve_in sample_view ''/srv/boot'' = Some c \<longrightarrow> prefix croot c)"
  using transfer_inside_root [OF sample_job] by (simp add: sample_tftp_config_def)

text \<open>
  C17. When the file of a started task for a tracked host cannot be opened, the host stays
  in the status \<open>Booting\<close> the listener gave it: the task ends with an error packet to the
  client and without a call on the store.
\<close>

theorem open_failure_leaves_booting:
  assumes "re_job (listener_step resolve order config sock slots st datagram src) = Some j"
    and "jb_mac j = Some m" "get_host m st = Some h" "is_octet (jb_request j)"
    and "handle_tftp_transfer read (Inl e) metadata start turns (jb_request j) (jb_mac j) = (out, ops, res)"
  shows "res = Some (Inl e) \<and> out = [open_error e]
    \<and> map_option hs_status (get_host m (apply_ops t2 ops (apply_ops t1
         (re_ops (listener_step resolve order config sock slots st datagram src)) st))) = Some Booting"
proof -
  have ended: "out = [open_error e]" "ops = []" "res = Some (Inl e)"
    using assms(4,5) by (simp_all add: handle_tftp_transfer_def is_octet_def)
  have "re_ops (listener_step resolve order config sock slots st datagram src)
      = booting_ops (Some m) (rq_filename (jb_request j)) (jb_path j)"
    using listener_job [OF assms(1), unfolded assms(2)] by blast
  with registry.tracked_status [OF assms(3), of "booting_ops (Some m) (rq_filename (jb_request j)) (jb_path j)" t1]
  show ?thesis by (auto simp: ended booting_ops_def apply_ops_def)
qed

definition sample_known_mac :: string where
  "sample_known_mac = ''52:54:00:ab:cd:01''"

definition booted_store :: state_store where
  "booted_store = update_host_status 0 sample_known_mac Polling None None (Some ''10.0.0.7'') None new_store"

definition sample_order :: host_order where
  "sample_order hosts = (case fmlookup hosts sample_known_mac of Some h \<Rightarrow> [h] | None \<Rightarrow> [])"

lemma sample_known: "normalize_mac sample_known_mac = sample_known_mac"
  by code_simp

definition booted_host :: host_state where
  "booted_host = merged_host 0 Polling None None (Some ''10.0.0.7'') None (blank_host sample_known_mac)"

lemma booted_lookup: "fmlookup (ss_hosts booted_store) sample_known_mac = Some booted_host"
  by (simp add: booted_store_def store_simps sample_known store_full_def get_host_def new_store_def MAX_TRACKED_HOSTS_def
      booted_host_def)

lemma sample_known_job:
  "re_job (listener_step (resolve_in sample_view) sample_order sample_tftp_config SocketReady 1 booted_store sample_rrq sample_src)
   = Some \<lparr>jb_path = ''/srv/boot'', jb_request = plain_request ''in'' ''octet'', jb_mac = Some sample_known_mac\<rparr>"
proof -
  have ip: "hs_client_ip booted_host = Some ''10.0.0.7''" "hs_mac booted_host = sample_known_mac"
    by (simp_all add: booted_host_def merged_host_def merge_opt_def blank_host_def sample_known)
  have "ip_to_string (addr_ip sample_src) = ''10.0.0.7''"
    by (simp add: sample_src_def ipv4_to_string_def dec_of_nat.simps digit_char_eval)
  then have host: "client_host sample_order booted_store sample_src = Some booted_host"
    by (simp add: client_host_def list_hosts_def sample_order_def booted_lookup ip)
  have "\<not> is_default_request sample_tftp_config ''in''"
    by (simp add: is_default_request_def sample_tftp_config_def sample_config_def normalize_hosts_def fill_defaults_def
        sample_yaml_def)
  then have "final_filename sample_tftp_config (client_host sample_order booted_store sample_src) ''in'' = ''in''"
    by (simp add: final_filename_def split: option.split)
  then show ?thesis
    by (intro listener_jobI)
      (simp_all add: sample_rrq_parse sample_join host ip plain_request_def sample_tftp_config_def)
qed

lemma open_failure_leaves_booting_witness:
  "map_option hs_status (get_host sample_known_mac (apply_ops 2
     (fst (snd (handle_tftp_transfer file_read (Inl PermissionDenied) (Inr 0) 0 [] (plain_request ''in'' ''octet'') (Some sample_known_mac))))
     (apply_ops 1 (re_ops (listener_step (resolve_in sample_view) sample_order sample_tftp_config SocketReady 1
        booted_store sample_rrq sample_src)) booted_store))) = Some Booting"
proof -
  obtain out ops res where run: "handle_tftp_transfer file_read (Inl PermissionDenied) (Inr 0) 0 [] (plain_request ''in'' ''octet'')
      (Some sample_known_mac) = (out, ops, res)" by (metis prod_cases3)
  have "is_octet (plain_request ''in'' ''octet'')"
    by (simp add: is_octet_def plain_request_def eq_ignore_ascii_case_def)
  then show ?thesis
    using open_failure_leaves_booting [OF sample_known_job, of sample_known_mac booted_host file_read PermissionDenied
        "Inr 0" 0 "[]" out ops res 2 1] run
    by (simp add: get_host_def sample_known booted_lookup)
qed

end
