(* ===== verification/Dhcp.thy ===== *)
theory Dhcp
  imports Config Host_Registry
begin

text \<open>
  \<^verbatim>\<open>crates/bootycall-dhcp/src/server.rs\<close>: the proxy DHCP server. \<open>dhcp_step\<close> is one pass of
  its loop from a received datagram to the calls on the store and the reply. The codec
  \<open>dhcproto\<close> is third-party code: decoding and encoding are arguments, a message is the
  record of the accessors the server uses, and the codes of two architectures it names
  are arguments too. The routing table is asked through \<open>probe\<close>: the local address of a
  UDP socket connected to a target.
\<close>

section \<open>Messages\<close>

type_synonym ipv4 = bytes

definition unspecified :: ipv4 where "unspecified = [0, 0, 0, 0]"
definition broadcast_ip :: ipv4 where "broadcast_ip = [255, 255, 255, 255]"

definition is_unspecified :: "ip_addr \<Rightarrow> bool" where
  "is_unspecified ip = (case ip of V4 a \<Rightarrow> a = unspecified | V6 g \<Rightarrow> g = replicate 8 0)"

definition addr_port :: "sock_addr \<Rightarrow> nat" where
  "addr_port a = (case a of SocketAddr _ p \<Rightarrow> p)"

datatype message_type = Discover | Offer | Request | Decline | Ack | Nak | Release | Inform | OtherType

datatype opcode_kind = BootRequest | BootReply

record dhcp_options =
  op_msg_type :: "message_type option"
  op_server_id :: "ipv4 option"
  op_class_id :: "bytes option"
  op_architecture :: "u16 option"
  op_client_id :: "bytes option"
  op_tftp_server :: "bytes option"
  op_bootfile :: "bytes option"

record dhcp_flags =
  fl_broadcast :: bool
  fl_reserved :: u16

record dhcp_message =
  dm_opcode :: opcode_kind
  dm_xid :: u32
  dm_flags :: dhcp_flags
  dm_ciaddr :: ipv4
  dm_yiaddr :: ipv4
  dm_siaddr :: ipv4
  dm_giaddr :: ipv4
  dm_chaddr :: bytes
  dm_opts :: dhcp_options

definition no_options :: dhcp_options where
  "no_options = \<lparr>op_msg_type = None, op_server_id = None, op_class_id = None, op_architecture = None,
     op_client_id = None, op_tftp_server = None, op_bootfile = None\<rparr>"

section \<open>Constants and addresses\<close>

definition ARCH_BIOS_X86 :: u16 where "ARCH_BIOS_X86 = 0"
definition ARCH_ARM64 :: u16 where "ARCH_ARM64 = 11"
definition DHCP_SERVER_PORT :: nat where "DHCP_SERVER_PORT = 67"
definition DHCP_CLIENT_PORT :: nat where "DHCP_CLIENT_PORT = 68"
definition PXE_PROXY_PORT :: nat where "PXE_PROXY_PORT = 4011"

lemmas port_defs = DHCP_SERVER_PORT_def DHCP_CLIENT_PORT_def PXE_PROXY_PORT_def

definition get_local_ip_for_target :: "(ipv4 \<Rightarrow> ip_addr option) \<Rightarrow> ipv4 \<Rightarrow> ipv4 option" where
  "get_local_ip_for_target probe target =
     (case probe target of Some (V4 ip) \<Rightarrow> Some ip | _ \<Rightarrow> None)"

definition get_default_local_ip :: "(ipv4 \<Rightarrow> ip_addr option) \<Rightarrow> ipv4" where
  "get_default_local_ip probe =
     (case get_local_ip_for_target probe [8, 8, 8, 8] of Some ip \<Rightarrow> ip | None \<Rightarrow> [127, 0, 0, 1])"

definition probe_if_set :: "(ipv4 \<Rightarrow> ip_addr option) \<Rightarrow> ipv4 \<Rightarrow> ipv4 option" where
  "probe_if_set probe a = (if a \<noteq> unspecified then get_local_ip_for_target probe a else None)"

definition resolve_local_ip :: "(ipv4 \<Rightarrow> ip_addr option) \<Rightarrow> dhcp_message \<Rightarrow> sock_addr io \<Rightarrow> ipv4" where
  "resolve_local_ip probe request local_addr =
     (case probe_if_set probe (dm_ciaddr request) of
        Some ip \<Rightarrow> ip
      | None \<Rightarrow>
          (case probe_if_set probe (dm_giaddr request) of
             Some ip \<Rightarrow> ip
           | None \<Rightarrow>
               (case local_addr of
                  Inr (SocketAddr (V4 ip) _) \<Rightarrow> if ip \<noteq> unspecified then ip else get_default_local_ip probe
                | _ \<Rightarrow> get_default_local_ip probe)))"

definition windows :: "nat \<Rightarrow> 'a list \<Rightarrow> 'a list list" where
  "windows n xs = map (\<lambda>i. take n (drop i xs)) [0..<Suc (length xs) - n]"

definition is_pxe_client :: "dhcp_message \<Rightarrow> bool" where
  "is_pxe_client request =
     (case op_class_id (dm_opts request) of
        Some bs \<Rightarrow> list_ex (\<lambda>w. w = as_bytes ''PXEClient'') (windows 9 bs)
      | None \<Rightarrow> False)"

definition select_default_bootloader :: "server_config \<Rightarrow> u16 option \<Rightarrow> string" where
  "select_default_bootloader server arch =
     (case arch of
        Some a \<Rightarrow>
          if a = ARCH_ARM64 then sc_bootloader_arm64 server
          else if a = ARCH_BIOS_X86 then sc_bootloader_bios server
          else sc_bootloader_amd64 server
      | None \<Rightarrow> sc_bootloader_amd64 server)"

definition choose_reply_dest :: "nat \<Rightarrow> sock_addr \<Rightarrow> ipv4 \<Rightarrow> ipv4 \<Rightarrow> bool \<Rightarrow> sock_addr" where
  "choose_reply_dest local_port src_addr giaddr ciaddr broadcast_flag =
     (let client_port = (if addr_port src_addr = PXE_PROXY_PORT then PXE_PROXY_PORT else DHCP_CLIENT_PORT) in
      if broadcast_flag \<and> giaddr = unspecified then SocketAddr (V4 broadcast_ip) client_port
      else if local_port \<noteq> DHCP_SERVER_PORT then src_addr
      else if giaddr \<noteq> unspecified then SocketAddr (V4 giaddr) DHCP_SERVER_PORT
      else if ciaddr \<noteq> unspecified then SocketAddr (V4 ciaddr) DHCP_CLIENT_PORT
      else if \<not> is_unspecified (addr_ip src_addr) then src_addr
      else SocketAddr (V4 broadcast_ip) client_port)"

section \<open>One pass of the server\<close>

definition arch_name :: "u16 \<Rightarrow> u16 \<Rightarrow> u16 option \<Rightarrow> string" where
  "arch_name x64 bc arch =
     (case arch of
        Some a \<Rightarrow>
          if a = x64 then ''x86_64''
          else if a = bc then ''BC (x86_64)''
          else if a = ARCH_ARM64 then ''aarch64''
          else if a = ARCH_BIOS_X86 then ''x86 (BIOS)''
          else ''other''
      | None \<Rightarrow> ''unknown'')"

definition client_ip_of :: "dhcp_message \<Rightarrow> sock_addr \<Rightarrow> ipv4" where
  "client_ip_of request src_addr =
     (if dm_ciaddr request \<noteq> unspecified then dm_ciaddr request
      else (case src_addr of SocketAddr (V4 ip) _ \<Rightarrow> ip | _ \<Rightarrow> unspecified))"

definition response_type :: "message_type option \<Rightarrow> message_type option" where
  "response_type t =
     (case t of
        Some Discover \<Rightarrow> Some Offer
      | Some Request \<Rightarrow> Some Ack
      | Some Inform \<Rightarrow> Some Ack
      | _ \<Rightarrow> None)"

definition bootloader_for :: "config \<Rightarrow> string \<Rightarrow> u16 option \<Rightarrow> string" where
  "bootloader_for config mac arch =
     (case Option.bind (find_host config mac) hc_bootloader of
        Some override_path \<Rightarrow> override_path
      | None \<Rightarrow> select_default_bootloader (cf_server config) arch)"

definition dhcp_ops :: "config \<Rightarrow> string \<Rightarrow> string \<Rightarrow> string \<Rightarrow> string \<Rightarrow> ipv4 \<Rightarrow> store_op list" where
  "dhcp_ops config mac ip arch bootloader our_ip =
     [UpdateHost mac Polling (map_option hc_name (find_host config mac)) None (Some ip) (Some arch),
      LogEvent ''INFO'' (Some mac)
        (''Serving PXE redirection (Bootloader: '' @ bootloader @ '', Next-Server: '' @ ipv4_to_string our_ip
         @ '') for '' @ arch)]"

definition make_reply :: "dhcp_message \<Rightarrow> message_type \<Rightarrow> ipv4 \<Rightarrow> string \<Rightarrow> dhcp_message" where
  "make_reply request reply_type our_ip bootloader =
     \<lparr>dm_opcode = BootReply, dm_xid = dm_xid request, dm_flags = dm_flags request,
      dm_ciaddr = dm_ciaddr request, dm_yiaddr = unspecified, dm_siaddr = our_ip,
      dm_giaddr = dm_giaddr request, dm_chaddr = dm_chaddr request,
      dm_opts = no_options
        \<lparr>op_msg_type := Some reply_type, op_server_id := Some our_ip,
         op_class_id := Some (as_bytes ''PXEClient''),
         op_tftp_server := Some (as_bytes (ipv4_to_string our_ip)),
         op_bootfile := Some (as_bytes bootloader),
         op_client_id := op_client_id (dm_opts request)\<rparr>\<rparr>"

text \<open>The reply leaves the server only if it can be encoded; a failed send is only logged.\<close>

definition reply_datagram ::
  "(dhcp_message \<Rightarrow> bytes option) \<Rightarrow> sock_addr io \<Rightarrow> dhcp_message \<Rightarrow> sock_addr \<Rightarrow> dhcp_message \<Rightarrow> (bytes \<times> sock_addr) option" where
  "reply_datagram encode local_addr request src_addr reply =
     (case encode reply of
        None \<Rightarrow> None
      | Some response \<Rightarrow>
          (let local_port = (case local_addr of Inr a \<Rightarrow> addr_port a | Inl _ \<Rightarrow> 0);
               dest_addr = choose_reply_dest local_port src_addr (dm_giaddr request) (dm_ciaddr request)
                             (fl_broadcast (dm_flags request))
           in Some (response, dest_addr)))"

definition dhcp_step ::
  "(bytes \<Rightarrow> dhcp_message option) \<Rightarrow> (dhcp_message \<Rightarrow> bytes option) \<Rightarrow> u16 \<Rightarrow> u16
   \<Rightarrow> (ipv4 \<Rightarrow> ip_addr option) \<Rightarrow> sock_addr io \<Rightarrow> config \<Rightarrow> bytes \<Rightarrow> sock_addr
   \<Rightarrow> store_op list \<times> (bytes \<times> sock_addr) option" where
  "dhcp_step decode encode x64 bc probe local_addr config datagram src_addr =
     (case decode (take 1500 datagram) of
        None \<Rightarrow> ([], None)
      | Some request \<Rightarrow>
          if length (dm_chaddr request) < 6 then ([], None)
          else if \<not> is_pxe_client request then ([], None)
          else
            (let mac_str = format_mac (take 6 (dm_chaddr request));
                 arch = op_architecture (dm_opts request);
                 client_ip_str = ipv4_to_string (client_ip_of request src_addr)
             in case response_type (op_msg_type (dm_opts request)) of
                  None \<Rightarrow> ([], None)
                | Some reply_type \<Rightarrow>
                    (let bootloader_path = bootloader_for config mac_str arch;
                         our_ip = resolve_local_ip probe request local_addr;
                         ops = dhcp_ops config mac_str client_ip_str (arch_name x64 bc arch) bootloader_path our_ip
                     in (ops, reply_datagram encode local_addr request src_addr
                                (make_reply request reply_type our_ip bootloader_path)))))"

section \<open>Facts\<close>

lemma windows_sublist: "w \<in> set (windows n xs) \<longleftrightarrow> length w = n \<and> sublist w xs"
proof
  assume "w \<in> set (windows n xs)"
  then obtain i where "i < Suc (length xs) - n" "w = take n (drop i xs)" by (auto simp: windows_def)
  moreover have "xs = take i xs @ take n (drop i xs) @ drop n (drop i xs)" by (metis append_take_drop_id)
  ultimately show "length w = n \<and> sublist w xs" unfolding sublist_def by auto
next
  assume w: "length w = n \<and> sublist w xs"
  then obtain ps ss where xs: "xs = ps @ w @ ss" by (auto simp: sublist_def)
  with w have "w = take n (drop (length ps) xs)" "length ps < Suc (length xs) - n" by auto
  then show "w \<in> set (windows n xs)" unfolding windows_def by (auto intro!: image_eqI [of _ _ "length ps"])
qed

lemma is_pxe_client_iff:
  "is_pxe_client request \<longleftrightarrow> (\<exists>bs. op_class_id (dm_opts request) = Some bs \<and> sublist (as_bytes ''PXEClient'') bs)"
  by (auto simp: is_pxe_client_def list_ex_iff windows_sublist split: option.splits)

lemma chaddr_mac_valid: "6 \<le> length bs \<Longrightarrow> is_valid_mac (format_mac (take 6 bs))"
  by (rule format_mac_valid)

text \<open>The requests the server reacts to: from a PXE client, with a MAC, of a known type.\<close>

definition pxe_request :: "(bytes \<Rightarrow> dhcp_message option) \<Rightarrow> bytes \<Rightarrow> (dhcp_message \<times> message_type) option" where
  "pxe_request decode datagram =
     Option.bind (decode (take 1500 datagram))
       (\<lambda>request. if 6 \<le> length (dm_chaddr request) \<and> is_pxe_client request
                  then map_option (Pair request) (response_type (op_msg_type (dm_opts request))) else None)"

lemma dhcp_step_eq:
  "dhcp_step decode encode x64 bc probe local_addr config datagram src_addr =
     (case pxe_request decode datagram of
        None \<Rightarrow> ([], None)
      | Some (request, reply_type) \<Rightarrow>
          (let mac = format_mac (take 6 (dm_chaddr request));
               arch = op_architecture (dm_opts request);
               our_ip = resolve_local_ip probe request local_addr;
               boot = bootloader_for config mac arch
           in (dhcp_ops config mac (ipv4_to_string (client_ip_of request src_addr)) (arch_name x64 bc arch) boot our_ip,
               map_option (\<lambda>response. (response,
                   choose_reply_dest (case local_addr of Inr a \<Rightarrow> addr_port a | Inl _ \<Rightarrow> 0) src_addr
                     (dm_giaddr request) (dm_ciaddr request) (fl_broadcast (dm_flags request))))
                 (encode (make_reply request reply_type our_ip boot)))))"
  by (auto simp: dhcp_step_def pxe_request_def reply_datagram_def Let_def split: option.splits)

section \<open>Properties\<close>

text \<open>
  C18. The proxy only answers PXE boot requests: it sends a reply, or touches the store,
  only for a datagram that decodes to a Discover, Request or Inform whose vendor class
  contains PXEClient and whose hardware address has six bytes; and every host it records
  has a valid MAC, the status \<open>Polling\<close> and the client's address.
\<close>

theorem dhcp_only_pxe:
  assumes "dhcp_step decode encode x64 bc probe local_addr config datagram src_addr = (ops, reply)"
    and "ops \<noteq> [] \<or> reply \<noteq> None"
  shows "\<exists>request bs. decode (take 1500 datagram) = Some request
    \<and> op_msg_type (dm_opts request) \<in> {Some Discover, Some Request, Some Inform}
    \<and> op_class_id (dm_opts request) = Some bs \<and> sublist (as_bytes ''PXEClient'') bs
    \<and> (\<exists>mac name arch message. ops =
          [UpdateHost mac Polling name None (Some (ipv4_to_string (client_ip_of request src_addr))) (Some arch),
           LogEvent ''INFO'' (Some mac) message]
        \<and> is_valid_mac mac \<and> mac = format_mac (take 6 (dm_chaddr request)))"
proof -
  obtain request reply_type where req: "pxe_request decode datagram = Some (request, reply_type)"
    using assms by (auto simp: dhcp_step_eq split: option.splits)
  then have "decode (take 1500 datagram) = Some request" "6 \<le> length (dm_chaddr request)" "is_pxe_client request"
    "op_msg_type (dm_opts request) \<in> {Some Discover, Some Request, Some Inform}"
    by (auto simp: pxe_request_def response_type_def bind_eq_Some_conv split: if_splits option.splits message_type.splits)
  moreover have "ops = dhcp_ops config (format_mac (take 6 (dm_chaddr request)))
      (ipv4_to_string (client_ip_of request src_addr)) (arch_name x64 bc (op_architecture (dm_opts request)))
      (bootloader_for config (format_mac (take 6 (dm_chaddr request))) (op_architecture (dm_opts request)))
      (resolve_local_ip probe request local_addr)"
    using assms(1) req by (auto simp: dhcp_step_eq Let_def)
  ultimately show ?thesis by (auto simp: dhcp_ops_def is_pxe_client_iff chaddr_mac_valid)
qed

definition sample_discover :: dhcp_message where
  "sample_discover =
     \<lparr>dm_opcode = BootRequest, dm_xid = 7, dm_flags = \<lparr>fl_broadcast = True, fl_reserved = 0\<rparr>,
      dm_ciaddr = unspecified, dm_yiaddr = unspecified, dm_siaddr = unspecified, dm_giaddr = unspecified,
      dm_chaddr = [0x52, 0x54, 0, 0xAB, 0xCD, 1],
      dm_opts = no_options\<lparr>op_msg_type := Some Discover, op_class_id := Some (as_bytes ''PXEClient:Arch:00007''),
                           op_architecture := Some 11\<rparr>\<rparr>"

definition sample_probe :: "ipv4 \<Rightarrow> ip_addr option" where
  "sample_probe target = Some (V4 [192, 168, 1, 2])"

abbreviation sample_dhcp :: "store_op list \<times> (bytes \<times> sock_addr) option" where
  "sample_dhcp \<equiv> dhcp_step (\<lambda>_. Some sample_discover) (\<lambda>m. Some (dm_chaddr m)) 9 7 sample_probe
     (Inr (SocketAddr (V4 unspecified) 4011)) sample_config [] (SocketAddr (V4 unspecified) 68)"

lemma sample_discover_pxe: "is_pxe_client sample_discover"
proof -
  have "sublist (as_bytes ''PXEClient'') (as_bytes (''PXEClient'' @ '':Arch:00007''))"
    unfolding as_bytes_append by (rule sublist_append_rightI)
  then show ?thesis by (simp add: is_pxe_client_iff sample_discover_def)
qed

lemma sample_request_pxe: "pxe_request (\<lambda>_. Some sample_discover) datagram = Some (sample_discover, Offer)"
  using sample_discover_pxe by (simp add: pxe_request_def response_type_def) (simp add: sample_discover_def)

lemma dhcp_only_pxe_witness:
  "fst sample_dhcp \<noteq> [] \<and> sublist (as_bytes ''PXEClient'') (as_bytes ''PXEClient:Arch:00007'')"
proof -
  obtain ops reply where run: "sample_dhcp = (ops, reply)" by fastforce
  moreover have "ops \<noteq> []"
    using run by (auto simp: dhcp_step_eq sample_request_pxe dhcp_ops_def Let_def)
  ultimately show ?thesis using dhcp_only_pxe [OF run] by (auto simp: sample_discover_def)
qed

text \<open>
  C19. What a reply carries: the transaction of the request, the server's own address as
  next server, server identifier and TFTP server name, and as boot file the host's
  override, or else the default for the architecture, BIOS and ARM64 clients getting
  their own.
\<close>

theorem dhcp_reply_content:
  assumes "pxe_request decode datagram = Some (request, reply_type)"
    and "boot = (case Option.bind (find_host config (format_mac (take 6 (dm_chaddr request)))) hc_bootloader of
                   Some override_path \<Rightarrow> override_path
                 | None \<Rightarrow>
                     if op_architecture (dm_opts request) = Some 11 then sc_bootloader_arm64 (cf_server config)
                     else if op_architecture (dm_opts request) = Some 0 then sc_bootloader_bios (cf_server config)
                     else sc_bootloader_amd64 (cf_server config))"
  shows "\<exists>reply. map_option fst (snd (dhcp_step decode encode x64 bc probe local_addr config datagram src_addr)) = encode reply
    \<and> dm_opcode reply = BootReply \<and> dm_xid reply = dm_xid request \<and> dm_flags reply = dm_flags request
    \<and> dm_giaddr reply = dm_giaddr request \<and> dm_chaddr reply = dm_chaddr request
    \<and> dm_siaddr reply = resolve_local_ip probe request local_addr
    \<and> op_server_id (dm_opts reply) = Some (dm_siaddr reply)
    \<and> op_tftp_server (dm_opts reply) = Some (as_bytes (ipv4_to_string (dm_siaddr reply)))
    \<and> op_msg_type (dm_opts reply) = Some (if op_msg_type (dm_opts request) = Some Discover then Offer else Ack)
    \<and> op_client_id (dm_opts reply) = op_client_id (dm_opts request)
    \<and> op_bootfile (dm_opts reply) = Some (as_bytes boot)"
proof -
  have boot: "bootloader_for config (format_mac (take 6 (dm_chaddr request))) (op_architecture (dm_opts request)) = boot"
    unfolding assms(2)
    by (auto simp: bootloader_for_def select_default_bootloader_def ARCH_ARM64_def ARCH_BIOS_X86_def
        split: option.splits)
  have kind: "reply_type = (if op_msg_type (dm_opts request) = Some Discover then Offer else Ack)"
    using assms(1) by (auto simp: pxe_request_def response_type_def bind_eq_Some_conv
        split: if_splits option.splits message_type.splits)
  show ?thesis
    by (rule exI [of _ "make_reply request reply_type (resolve_local_ip probe request local_addr) boot"])
      (simp add: dhcp_step_eq assms(1) Let_def boot option.map_comp comp_def option.map_ident make_reply_def kind)
qed

lemma dhcp_reply_content_witness:
  "\<exists>reply :: dhcp_message. map_option fst (snd sample_dhcp) = Some (dm_chaddr reply) \<and> dm_chaddr reply = [0x52, 0x54, 0, 0xAB, 0xCD, 1]
    \<and> op_bootfile (dm_opts reply) = Some (as_bytes ''b.efi'')"
proof -
  define boot where "boot = (case Option.bind (find_host sample_config (format_mac (take 6 (dm_chaddr sample_discover)))) hc_bootloader of
                   Some override_path \<Rightarrow> override_path
                 | None \<Rightarrow>
                     if op_architecture (dm_opts sample_discover) = Some 11 then sc_bootloader_arm64 (cf_server sample_config)
                     else if op_architecture (dm_opts sample_discover) = Some 0 then sc_bootloader_bios (cf_server sample_config)
                     else sc_bootloader_amd64 (cf_server sample_config))"
  have "Option.bind (find_host sample_config mac) hc_bootloader = None" for mac
    by (simp add: find_host_def sample_config_def normalize_hosts_def fill_defaults_def sample_yaml_def sample_host_def)
  then have "boot = ''b.efi''"
    by (simp add: boot_def sample_discover_def sample_config_def normalize_hosts_def fill_defaults_def sample_yaml_def)
  moreover have "dm_chaddr sample_discover = [0x52, 0x54, 0, 0xAB, 0xCD, 1]" by (simp add: sample_discover_def)
  moreover obtain reply :: dhcp_message where "map_option fst (snd sample_dhcp) = Some (dm_chaddr reply)"
    "dm_chaddr reply = dm_chaddr sample_discover" "op_bootfile (dm_opts reply) = Some (as_bytes boot)"
    using dhcp_reply_content [OF sample_request_pxe boot_def, of "\<lambda>m. Some (dm_chaddr m)" 9 7 sample_probe
        "Inr (SocketAddr (V4 unspecified) 4011)" "[]" "SocketAddr (V4 unspecified) 68"]
    by blast
  ultimately show ?thesis by (intro exI [of _ reply]) simp
qed

text \<open>
  Where a reply goes on the DHCP port: to the relay on port 67 if there is one, to
  the broadcast address if the client asked for it and there is no relay, and never to an
  unspecified address; on another port an unflagged request is answered to its source.
\<close>

theorem reply_destination:
  "let dest = choose_reply_dest local_port src_addr giaddr ciaddr broadcast_flag in
     (if broadcast_flag \<and> giaddr = unspecified then addr_ip dest = V4 broadcast_ip
      else if local_port \<noteq> 67 then dest = src_addr
      else if giaddr = unspecified then \<not> is_unspecified (addr_ip dest)
      else dest = SocketAddr (V4 giaddr) 67)"
  by (auto simp: choose_reply_dest_def Let_def port_defs is_unspecified_def unspecified_def broadcast_ip_def
      split: ip_addr.splits)

end
