(* ===== verification/Extract_Copy.thy ===== *)
theory Extract_Copy
  imports Byte_Reader
begin

text \<open>
  \<open>copy_capped\<close> of \<^verbatim>\<open>crates/bootycall-extractor/src/lib.rs\<close>: copying a reader into a new file
  with an optional limit. The file is a \<open>sink\<close>: what creating it and writing after so
  many bytes return. The unlimited copy is \<open>std::io::copy\<close>, a loop that need not end for
  an arbitrary reader; the lemmas, proved for every reader that keeps the contract of
  \<open>Byte_Reader\<close>, show that it does, and that a limited copy never writes beyond the limit.
\<close>

datatype extractor_error =
    IoError io_error | Iso | Disk | ImageNotFound string | KernelNotFound | InitrdNotFound
  | ArtifactTooLarge nat

record sink =
  sk_create :: "io_error option"
  sk_write :: "nat \<Rightarrow> io_error option"

definition COPY_BUF :: nat where "COPY_BUF = 64 * 1024"

text \<open>The limited loop: \<open>out\<close> is what the file holds, so \<open>written\<close> is its length.\<close>

function copy_limited ::
  "('r \<Rightarrow> nat \<Rightarrow> (bytes \<times> 'r) io) \<Rightarrow> sink \<Rightarrow> nat \<Rightarrow> 'r \<Rightarrow> bytes \<Rightarrow> bytes \<times> (extractor_error + unit)" where
  "copy_limited read sk limit r out =
     (case read r COPY_BUF of
        Inl e \<Rightarrow> (out, Inl (IoError e))
      | Inr (bs, r') \<Rightarrow>
          if bs = [] then (out, Inr ())
          else if length out + length bs > limit then (out, Inl (ArtifactTooLarge limit))
          else
            (case sk_write sk (length out) of
               Some e \<Rightarrow> (out, Inl (IoError e))
             | None \<Rightarrow> copy_limited read sk limit r' (out @ bs)))"
  by pat_completeness auto
termination
proof (relation "measure (\<lambda>(read, sk, limit, r, out). limit - length out)", goal_cases)
  case (2 read sk limit r out x2 bs r')
  then show ?case by (cases bs) auto
qed simp

declare copy_limited.simps [simp del]

text \<open>\<open>std::io::copy\<close>, in portions of its 8 KiB buffer.\<close>

partial_function (option) io_copy ::
  "('r \<Rightarrow> nat \<Rightarrow> (bytes \<times> 'r) io) \<Rightarrow> sink \<Rightarrow> 'r \<Rightarrow> bytes \<Rightarrow> (bytes \<times> (extractor_error + unit)) option" where
  "io_copy read sk r out =
     (case read r 8192 of
        Inl e \<Rightarrow> Some (out, Inl (IoError e))
      | Inr (bs, r') \<Rightarrow>
          if bs = [] then Some (out, Inr ())
          else
            (case sk_write sk (length out) of
               Some e \<Rightarrow> Some (out, Inl (IoError e))
             | None \<Rightarrow> io_copy read sk r' (out @ bs)))"

text \<open>
  The content of the output file afterwards (\<open>old\<close> if it could not be created) and the
  result; \<open>None\<close> if the copy does not end.
\<close>

definition copy_capped ::
  "('r \<Rightarrow> nat \<Rightarrow> (bytes \<times> 'r) io) \<Rightarrow> sink \<Rightarrow> nat option \<Rightarrow> 'r \<Rightarrow> bytes option
   \<Rightarrow> (bytes option \<times> (extractor_error + unit)) option" where
  "copy_capped read sk max_bytes r old =
     (case sk_create sk of
        Some e \<Rightarrow> Some (old, Inl (IoError e))
      | None \<Rightarrow>
          (case max_bytes of
             None \<Rightarrow> map_option (map_prod Some id) (io_copy read sk r [])
           | Some limit \<Rightarrow> Some (map_prod Some id (copy_limited read sk limit r []))))"

context byte_reader
begin

lemma copy_limited_spec:
  assumes "valid r" "length out \<le> limit" "copy_limited read sk limit r out = (out', res)"
  shows "length out' \<le> limit \<and> prefix out' (out @ remaining r)
    \<and> (res = Inr () \<longrightarrow> out' = out @ remaining r)
    \<and> (res = Inl (ArtifactTooLarge limit) \<longrightarrow> limit < length out + length (remaining r))"
  using assms
proof (induction "limit - length out" arbitrary: r out rule: less_induct)
  case less
  show ?case
  proof (cases "read r COPY_BUF")
    case (Inl e)
    with less.prems show ?thesis by (auto simp: copy_limited.simps [of read sk limit r out])
  next
    case (Inr p)
    obtain bs r1 where p: "p = (bs, r1)" by (cases p)
    with Inr have rd: "read r COPY_BUF = Inr (bs, r1)" by simp
    note laws = read_bytes [OF less.prems(1) rd] read_valid [OF less.prems(1) rd]
    show ?thesis
    proof (cases "bs = []")
      case True
      then have "remaining r = []" using read_eof [OF less.prems(1), of COPY_BUF r1] rd by (simp add: COPY_BUF_def)
      with True rd less.prems show ?thesis by (auto simp: copy_limited.simps [of read sk limit r out])
    next
      case False
      show ?thesis
      proof (cases "length out + length bs > limit \<or> sk_write sk (length out) \<noteq> None")
        case True
        then have "out' = out \<and> (res = Inl (ArtifactTooLarge limit) \<and> length out + length bs > limit \<or> (\<exists>e. res = Inl (IoError e)))"
          using less.prems(3) rd False by (auto simp: copy_limited.simps [of read sk limit r out] split: if_splits option.splits)
        with laws less.prems(2) show ?thesis by auto
      next
        case go: False
        then have rec: "copy_limited read sk limit r1 (out @ bs) = (out', res)"
          using less.prems(3) rd False by (simp add: copy_limited.simps [of read sk limit r out])
        have "limit - length (out @ bs) < limit - length out" "length (out @ bs) \<le> limit"
          using go False by (cases bs; auto)+
        from less.hyps [OF this(1) laws(2) this(2) rec]
        have IH: "length out' \<le> limit" "prefix out' ((out @ bs) @ remaining r1)"
          "res = Inr () \<longrightarrow> out' = (out @ bs) @ remaining r1"
          "res = Inl (ArtifactTooLarge limit) \<longrightarrow> limit < length (out @ bs) + length (remaining r1)" by blast+
        with laws(1) show ?thesis by auto
      qed
    qed
  qed
qed

lemma io_copy_ends:
  assumes "valid r"
  shows "\<exists>out' res. io_copy read sk r out = Some (out', res)
    \<and> prefix out' (out @ remaining r) \<and> (res = Inr () \<longrightarrow> out' = out @ remaining r)
    \<and> (\<forall>limit. res \<noteq> Inl (ArtifactTooLarge limit))"
  using assms
proof (induction "length (remaining r)" arbitrary: r out rule: less_induct)
  case less
  show ?case
  proof (cases "read r 8192")
    case (Inl e)
    then show ?thesis by (auto simp: io_copy.simps [of read sk r out])
  next
    case (Inr p)
    obtain bs r1 where p: "p = (bs, r1)" by (cases p)
    with Inr have rd: "read r 8192 = Inr (bs, r1)" by simp
    note laws = read_bytes [OF less.prems rd] read_valid [OF less.prems rd]
    show ?thesis
    proof (cases "bs = [] \<or> sk_write sk (length out) \<noteq> None")
      case True
      have "bs = [] \<Longrightarrow> remaining r = []" using read_eof [OF less.prems, of 8192 r1] rd by simp
      with True rd show ?thesis
        by (auto simp: io_copy.simps [of read sk r out])
    next
      case False
      then have "length (remaining r1) < length (remaining r)" using laws by (cases bs) auto
      from less.hyps [OF this laws(2), of "out @ bs"] obtain out' res where
        rec: "io_copy read sk r1 (out @ bs) = Some (out', res)" "prefix out' ((out @ bs) @ remaining r1)"
        "res = Inr () \<longrightarrow> out' = (out @ bs) @ remaining r1" "\<forall>limit. res \<noteq> Inl (ArtifactTooLarge limit)" by blast
      with rec laws(1) rd False show ?thesis
        by (auto simp: io_copy.simps [of read sk r out])
    qed
  qed
qed

lemma copy_capped_spec:
  assumes "valid r"
  shows "\<exists>file res. copy_capped read sk max_bytes r old = Some (file, res)
    \<and> (res = Inr () \<longrightarrow> file = Some (remaining r))
    \<and> (case max_bytes of None \<Rightarrow> True | Some limit \<Rightarrow>
         (file = old \<and> sk_create sk \<noteq> None \<or> (\<exists>bs. file = Some bs \<and> length bs \<le> limit))
         \<and> (res = Inl (ArtifactTooLarge limit) \<longrightarrow> limit < length (remaining r)))"
proof (cases "sk_create sk")
  case (Some e)
  then show ?thesis by (auto simp: copy_capped_def split: option.split)
next
  case None
  show ?thesis
  proof (cases max_bytes)
    case None
    with \<open>sk_create sk = None\<close> io_copy_ends [OF assms, of sk "[]"] show ?thesis
      by (auto simp: copy_capped_def)
  next
    case (Some limit)
    obtain out' res where run: "copy_limited read sk limit r [] = (out', res)" by fastforce
    from copy_limited_spec [OF assms _ run] Some \<open>sk_create sk = None\<close> run show ?thesis
      by (auto simp: copy_capped_def)
  qed
qed

end

section \<open>Properties\<close>

definition good_sink :: sink where
  "good_sink = \<lparr>sk_create = None, sk_write = \<lambda>_. None\<rparr>"

text \<open>
  C20. Copying an artifact always ends. It succeeds only with the whole source in the
  file; with a limit the file never holds more than the limit, and it is refused as too
  large only if the source is longer than the limit.
\<close>

theorem copy_capped_safe:
  "\<exists>file res. copy_capped file_read sk max_bytes r old = Some (file, res)
    \<and> (if res = Inr () then file = Some (fr_data r) else True)
    \<and> (case max_bytes of None \<Rightarrow> True | Some limit \<Rightarrow>
         (case sk_create sk of Some e \<Rightarrow> file = old | None \<Rightarrow> (\<exists>bs. file = Some bs \<and> length bs \<le> limit))
         \<and> (if res = Inl (ArtifactTooLarge limit) then limit < length (fr_data r) else True))"
proof -
  obtain content res where run: "copy_capped file_read sk max_bytes r old = Some (content, res)"
    and spec: "res = Inr () \<longrightarrow> content = Some (fr_data r)"
      "case max_bytes of None \<Rightarrow> True | Some limit \<Rightarrow>
         (content = old \<and> sk_create sk \<noteq> None \<or> (\<exists>bs. content = Some bs \<and> length bs \<le> limit))
         \<and> (res = Inl (ArtifactTooLarge limit) \<longrightarrow> limit < length (fr_data r))"
    using portioned.copy_capped_spec [OF TrueI, of sk max_bytes r old] by blast
  have "sk_create sk = Some e \<Longrightarrow> content = old" for e using run by (simp add: copy_capped_def)
  with run spec show ?thesis by (intro exI [of _ content] exI [of _ res]) (auto split: option.splits)
qed

end
