(* ===== verification/Image_Walk.thy ===== *)
theory Image_Walk
  imports Rust_Str Extract_Copy
begin

text \<open>
  The search for a kernel and an initrd in an image: the name heuristics of
  \<^verbatim>\<open>crates/bootycall-extractor/src/lib.rs\<close>, \<open>find_file_recursive_bounded\<close> of \<^verbatim>\<open>iso.rs\<close> and
  \<open>find_file_recursive_fat_bounded\<close> of \<^verbatim>\<open>disk.rs\<close>. The readers of ISO and FAT images are
  third-party code: a directory is a handle, and what lists it is an argument, so an image
  may be cyclic. The reference \<open>listing\<close> is the depth-first listing of the files above the
  depth limit; the walk is shown to be the first match in it.
\<close>

section \<open>Names\<close>

fun str_contains :: "string \<Rightarrow> string \<Rightarrow> bool" where
  "str_contains needle [] = (needle = [])"
| "str_contains needle (c # s) = (prefix needle (c # s) \<or> str_contains needle s)"

definition is_kernel_name :: "string \<Rightarrow> bool" where
  "is_kernel_name name =
     (let lower = to_ascii_lowercase name in
      lower = ''vmlinuz'' \<or> lower = ''bzimage'' \<or> lower = ''kernel'' \<or> lower = ''image'')"

definition is_initrd_name :: "string \<Rightarrow> bool" where
  "is_initrd_name name =
     (let lower = to_ascii_lowercase name in
      str_contains ''initrd'' lower \<or> str_contains ''initramfs'' lower)"

lemma str_contains_iff: "str_contains needle s \<longleftrightarrow> sublist needle s"
  by (induction s) (auto simp: sublist_Cons_right)

section \<open>The walk\<close>

datatype ('d, 'f) entry = FileEntry string 'f | DirEntry string 'd | OtherEntry

definition MAX_DIR_DEPTH :: nat where "MAX_DIR_DEPTH = 64"

definition depth_exceeded :: "nat \<Rightarrow> bool" where
  "depth_exceeded depth = (depth \<ge> MAX_DIR_DEPTH)"

text \<open>The loop over the entries of a directory at some depth.\<close>

function walk_entries ::
  "('d \<Rightarrow> ('e + ('d, 'f) entry) list) \<Rightarrow> (string \<Rightarrow> bool) \<Rightarrow> nat \<Rightarrow> ('e + ('d, 'f) entry) list \<Rightarrow> 'e + 'f option" where
  "walk_entries contents want depth [] = Inr None"
| "walk_entries contents want depth (Inl e # rest) = Inl e"
| "walk_entries contents want depth (Inr (FileEntry name f) # rest) =
     (if want name then Inr (Some f) else walk_entries contents want depth rest)"
| "walk_entries contents want depth (Inr (DirEntry name d) # rest) =
     (if name = ''.'' \<or> name = ''..'' then walk_entries contents want depth rest
      else
        (case (if depth_exceeded (Suc depth) then Inr None
               else walk_entries contents want (Suc depth) (contents d)) of
           Inl e \<Rightarrow> Inl e
         | Inr (Some found) \<Rightarrow> Inr (Some found)
         | Inr None \<Rightarrow> walk_entries contents want depth rest))"
| "walk_entries contents want depth (Inr OtherEntry # rest) = walk_entries contents want depth rest"
  by pat_completeness auto
termination
  by (relation "measures [\<lambda>(contents, want, depth, es). MAX_DIR_DEPTH - depth, \<lambda>(contents, want, depth, es). length es]")
    (auto simp: depth_exceeded_def)

definition find_file_bounded ::
  "('d \<Rightarrow> ('e + ('d, 'f) entry) list) \<Rightarrow> (string \<Rightarrow> bool) \<Rightarrow> nat \<Rightarrow> 'd \<Rightarrow> 'e + 'f option" where
  "find_file_bounded contents want depth dir =
     (if depth_exceeded depth then Inr None else walk_entries contents want depth (contents dir))"

definition find_file_recursive ::
  "('d \<Rightarrow> ('e + ('d, 'f) entry) list) \<Rightarrow> (string \<Rightarrow> bool) \<Rightarrow> 'd \<Rightarrow> 'e + 'f option" where
  "find_file_recursive contents want dir = find_file_bounded contents want 0 dir"

text \<open>The walker of FAT images has the same shape, with errors of its own.\<close>

definition find_file_recursive_fat_bounded ::
  "('d \<Rightarrow> (io_error + ('d, 'f) entry) list) \<Rightarrow> (string \<Rightarrow> bool) \<Rightarrow> nat \<Rightarrow> 'd \<Rightarrow> 'f option io" where
  "find_file_recursive_fat_bounded contents want depth dir =
     (if depth_exceeded depth then Inr None else walk_entries contents want depth (contents dir))"

definition find_file_recursive_fat ::
  "('d \<Rightarrow> (io_error + ('d, 'f) entry) list) \<Rightarrow> (string \<Rightarrow> bool) \<Rightarrow> 'd \<Rightarrow> 'f option io" where
  "find_file_recursive_fat contents want dir = find_file_recursive_fat_bounded contents want 0 dir"

lemma find_fat_eq: "find_file_recursive_fat contents want dir = find_file_recursive contents want dir"
  by (simp add: find_file_recursive_fat_def find_file_recursive_fat_bounded_def find_file_recursive_def find_file_bounded_def)

section \<open>The reference listing\<close>

text \<open>All files, and the errors met, depth first, in at most \<open>n\<close> levels of directories.\<close>

fun listing :: "('d \<Rightarrow> ('e + ('d, 'f) entry) list) \<Rightarrow> nat \<Rightarrow> 'd \<Rightarrow> ('e + string \<times> 'f) list" where
  "listing contents 0 dir = []"
| "listing contents (Suc n) dir =
     concat (map (\<lambda>entry. case entry of
        Inl e \<Rightarrow> [Inl e]
      | Inr (FileEntry name f) \<Rightarrow> [Inr (name, f)]
      | Inr (DirEntry name d) \<Rightarrow> if name = ''.'' \<or> name = ''..'' then [] else listing contents n d
      | Inr OtherEntry \<Rightarrow> []) (contents dir))"

fun first_match :: "(string \<Rightarrow> bool) \<Rightarrow> ('e + string \<times> 'f) list \<Rightarrow> 'e + 'f option" where
  "first_match want [] = Inr None"
| "first_match want (Inl e # rest) = Inl e"
| "first_match want (Inr (name, f) # rest) = (if want name then Inr (Some f) else first_match want rest)"

lemma first_match_append:
  "first_match want (xs @ ys) =
     (case first_match want xs of
        Inl e \<Rightarrow> Inl e | Inr (Some f) \<Rightarrow> Inr (Some f) | Inr None \<Rightarrow> first_match want ys)"
  by (induction want xs rule: first_match.induct) auto

definition listed :: "('d \<Rightarrow> ('e + ('d, 'f) entry) list) \<Rightarrow> nat \<Rightarrow> 'e + ('d, 'f) entry \<Rightarrow> ('e + string \<times> 'f) list" where
  "listed contents n entry = (case entry of
        Inl e \<Rightarrow> [Inl e]
      | Inr (FileEntry name f) \<Rightarrow> [Inr (name, f)]
      | Inr (DirEntry name d) \<Rightarrow> if name = ''.'' \<or> name = ''..'' then [] else listing contents n d
      | Inr OtherEntry \<Rightarrow> [])"

lemma listing_Suc: "listing contents (Suc n) dir = concat (map (listed contents n) (contents dir))"
  by (simp add: listed_def cong: map_cong)

declare listing.simps(2) [simp del]

lemma walk_entries_listing:
  "depth < MAX_DIR_DEPTH \<Longrightarrow>
   walk_entries contents want depth es = first_match want (concat (map (listed contents (MAX_DIR_DEPTH - Suc depth)) es))"
proof (induction contents want depth es rule: walk_entries.induct)
  case (4 contents want depth name d rest)
  show ?case
  proof (cases "name = ''.'' \<or> name = ''..''")
    case True
    then show ?thesis using 4 by (auto simp: listed_def)
  next
    case False
    have "(if depth_exceeded (Suc depth) then Inr None else walk_entries contents want (Suc depth) (contents d))
      = first_match want (listing contents (MAX_DIR_DEPTH - Suc depth) d)"
    proof (cases "depth_exceeded (Suc depth)")
      case True
      then show ?thesis by (simp add: depth_exceeded_def)
    next
      case not_deep: False
      then have "MAX_DIR_DEPTH - Suc depth = Suc (MAX_DIR_DEPTH - Suc (Suc depth))"
        by (simp add: depth_exceeded_def)
      with 4(2) [OF False not_deep] not_deep show ?thesis by (simp add: listing_Suc depth_exceeded_def)
    qed
    with 4 False show ?thesis
      by (auto simp: listed_def first_match_append split: sum.splits option.splits)
  qed
qed (auto simp: listed_def)

section \<open>Properties\<close>

lemma walk_is_first_match: "find_file_recursive contents want dir = first_match want (listing contents MAX_DIR_DEPTH dir)"
proof -
  have "MAX_DIR_DEPTH = Suc (MAX_DIR_DEPTH - Suc 0)" by (simp add: MAX_DIR_DEPTH_def)
  then show ?thesis
    using walk_entries_listing [of 0 contents want "contents dir"] listing_Suc [of contents "MAX_DIR_DEPTH - Suc 0" dir]
    by (simp add: find_file_recursive_def find_file_bounded_def depth_exceeded_def)
qed

text \<open>
  C21. On every ISO and FAT image, cyclic ones too, the search ends with the first file whose name
  is wanted in the depth-first listing of 64 levels of directories, or with the first
  error before it, or with nothing if there is neither; the self and parent entries are
  not followed.
\<close>

theorem walk_finds_first:
  "find_file_recursive contents want dir = first_match want (listing contents MAX_DIR_DEPTH dir)
   \<and> find_file_recursive_fat fat_contents want fat_dir = first_match want (listing fat_contents MAX_DIR_DEPTH fat_dir)"
  by (simp add: find_fat_eq walk_is_first_match)

end
