(* ===== verification/Disk_Slice.thy ===== *)
theory Disk_Slice
  imports Byte_Reader
begin

text \<open>
  \<open>PartitionSlice\<close> of \<^verbatim>\<open>crates/bootycall-extractor/src/disk.rs\<close>: a window on a disk image
  with the traits \<open>Read\<close>, \<open>Seek\<close> and \<open>Write\<close>. Offsets are 64-bit words and wrap as in a
  release build; a seek of the underlying file beyond the signed range fails. The slice
  is shown to be a \<open>byte_reader\<close> for the bytes of its partition, and its writes to leave
  the rest of the image alone, for every partition that fits below \<open>2 ^ 63\<close>.
\<close>

section \<open>The disk image\<close>

text \<open>
  The plan says what the next accesses do: \<open>None\<close> fails, \<open>Some k\<close> transfers at most
  \<open>k + 1\<close> bytes; after the plan every access transfers all it can.
\<close>

record disk_file =
  df_plan :: "nat option list"
  df_data :: bytes

definition portion :: "disk_file \<Rightarrow> nat \<Rightarrow> (nat \<times> nat option list) option" where
  "portion f n =
     (case df_plan f of
        [] \<Rightarrow> Some (n, [])
      | None # plan \<Rightarrow> None
      | Some k # plan \<Rightarrow> Some (min n (Suc k), plan))"

text \<open>\<open>File::seek\<close> to an offset from the start, then one \<open>read\<close> or \<open>write\<close>.\<close>

definition disk_read_at :: "disk_file \<Rightarrow> u64 \<Rightarrow> nat \<Rightarrow> (bytes \<times> disk_file) io" where
  "disk_read_at f off n =
     (if unat off \<ge> 2 ^ 63 then Inl InvalidInput
      else (case portion f n of
              None \<Rightarrow> Inl OtherIo
            | Some (k, plan) \<Rightarrow> Inr (take k (drop (unat off) (df_data f)), f\<lparr>df_plan := plan\<rparr>)))"

definition overwrite :: "bytes \<Rightarrow> nat \<Rightarrow> bytes \<Rightarrow> bytes" where
  "overwrite data off bs =
     take off (data @ replicate (off - length data) 0) @ bs @ drop (off + length bs) data"

definition disk_write_at :: "disk_file \<Rightarrow> u64 \<Rightarrow> bytes \<Rightarrow> (nat \<times> disk_file) io" where
  "disk_write_at f off bs =
     (if unat off \<ge> 2 ^ 63 then Inl InvalidInput
      else (case portion f (length bs) of
              None \<Rightarrow> Inl OtherIo
            | Some (k, plan) \<Rightarrow>
                Inr (k, \<lparr>df_plan = plan, df_data = (if k = 0 then df_data f else overwrite (df_data f) (unat off) (take k bs))\<rparr>)))"

section \<open>The slice\<close>

record slice =
  ps_file :: disk_file
  ps_start :: u64
  ps_len :: u64
  ps_pos :: u64

definition new_slice :: "disk_file \<Rightarrow> u64 \<Rightarrow> u64 \<Rightarrow> slice" where
  "new_slice f start len = \<lparr>ps_file = f, ps_start = start, ps_len = len, ps_pos = 0\<rparr>"

definition slice_read :: "slice \<Rightarrow> nat \<Rightarrow> (bytes \<times> slice) io" where
  "slice_read s n =
     (if ps_pos s \<ge> ps_len s then Inr ([], s)
      else
        (let max_read = unat (ps_len s - ps_pos s);
             to_read = min n max_read
         in case disk_read_at (ps_file s) (ps_start s + ps_pos s) to_read of
              Inl e \<Rightarrow> Inl e
            | Inr (bs, f) \<Rightarrow> Inr (bs, s\<lparr>ps_file := f, ps_pos := ps_pos s + of_nat (length bs)\<rparr>)))"

datatype seek_from = Start u64 | End "64 word" | Current "64 word"

text \<open>\<open>i64::try_from\<close> of an unsigned value, and \<open>i64::checked_add\<close>.\<close>

definition to_i64 :: "u64 \<Rightarrow> int option" where
  "to_i64 w = (if unat w < 2 ^ 63 then Some (uint w) else None)"

definition checked_add :: "int \<Rightarrow> 64 word \<Rightarrow> int option" where
  "checked_add a w = (if - (2 ^ 63) \<le> a + sint w \<and> a + sint w < 2 ^ 63 then Some (a + sint w) else None)"

definition seek_target :: "slice \<Rightarrow> seek_from \<Rightarrow> int option" where
  "seek_target s p =
     (case p of
        Start offset \<Rightarrow> to_i64 offset
      | End offset \<Rightarrow> Option.bind (to_i64 (ps_len s)) (\<lambda>base. checked_add base offset)
      | Current offset \<Rightarrow> Option.bind (to_i64 (ps_pos s)) (\<lambda>base. checked_add base offset))"

definition slice_seek :: "slice \<Rightarrow> seek_from \<Rightarrow> (u64 \<times> slice) io" where
  "slice_seek s p =
     (case seek_target s p of
        None \<Rightarrow> Inl InvalidInput
      | Some new_pos \<Rightarrow>
          if new_pos < 0 then Inl InvalidInput
          else Inr (word_of_int new_pos, s\<lparr>ps_pos := word_of_int new_pos\<rparr>))"

definition slice_write :: "slice \<Rightarrow> bytes \<Rightarrow> (nat \<times> slice) io" where
  "slice_write s buf =
     (if ps_pos s \<ge> ps_len s then Inl WriteZero
      else
        (let max_write = unat (ps_len s - ps_pos s);
             to_write = min (length buf) max_write
         in case disk_write_at (ps_file s) (ps_start s + ps_pos s) (take to_write buf) of
              Inl e \<Rightarrow> Inl e
            | Inr (k, f) \<Rightarrow> Inr (k, s\<lparr>ps_file := f, ps_pos := ps_pos s + of_nat k\<rparr>)))"

text \<open>\<open>flush\<close> passes the call on to the file, whose answer is an argument.\<close>

definition slice_flush :: "(disk_file \<Rightarrow> unit io) \<Rightarrow> slice \<Rightarrow> unit io" where
  "slice_flush file_flush s = file_flush (ps_file s)"

section \<open>The partition seen through the slice\<close>

definition slice_fits :: "slice \<Rightarrow> bool" where
  "slice_fits s \<longleftrightarrow> unat (ps_start s) + unat (ps_len s) \<le> 2 ^ 63"

definition partition_bytes :: "slice \<Rightarrow> bytes" where
  "partition_bytes s = take (unat (ps_len s)) (drop (unat (ps_start s)) (df_data (ps_file s)))"

definition slice_remaining :: "slice \<Rightarrow> bytes" where
  "slice_remaining s = drop (unat (ps_pos s)) (partition_bytes s)"

lemma unat_add_fits: "unat (a :: u64) + unat b < 2 ^ 64 \<Longrightarrow> unat (a + b) = unat a + unat b"
  by (simp add: unat_word_ariths)

lemma unat_add_nat_fits: "unat (a :: u64) + n < 2 ^ 64 \<Longrightarrow> unat (a + of_nat n) = unat a + n"
  by (simp add: unat_word_ariths unat_of_nat)

lemma unat_u64_less: "unat (w :: u64) < 2 ^ 64"
proof -
  have "unat w < 2 ^ LENGTH(64)" by (rule unsigned_less)
  then show ?thesis by simp
qed

lemma slice_inside:
  assumes "slice_fits s" "ps_pos s < ps_len s"
  shows "unat (ps_start s + ps_pos s) = unat (ps_start s) + unat (ps_pos s)"
    and "unat (ps_start s + ps_pos s) < 2 ^ 63"
    and "unat (ps_len s - ps_pos s) = unat (ps_len s) - unat (ps_pos s)"
    and "unat (ps_pos s) < unat (ps_len s)"
proof -
  from assms(2) show less: "unat (ps_pos s) < unat (ps_len s)" by (simp add: word_less_nat_alt)
  with assms(1) have "unat (ps_start s) + unat (ps_pos s) < 2 ^ 63" by (simp add: slice_fits_def)
  then show eq: "unat (ps_start s + ps_pos s) = unat (ps_start s) + unat (ps_pos s)" by (intro unat_add_fits) simp
  show "unat (ps_start s + ps_pos s) < 2 ^ 63" unfolding eq by fact
  show "unat (ps_len s - ps_pos s) = unat (ps_len s) - unat (ps_pos s)"
    using less by (intro unat_sub) (simp add: word_le_nat_alt)
qed

lemma slice_remaining_eq:
  "slice_remaining s = take (unat (ps_len s) - unat (ps_pos s))
     (drop (unat (ps_start s) + unat (ps_pos s)) (df_data (ps_file s)))"
  by (simp add: slice_remaining_def partition_bytes_def drop_take add.commute)

text \<open>A read delivers the next bytes of the partition.\<close>

lemma slice_read_spec:
  assumes fits: "slice_fits s" and rd: "slice_read s n = Inr (bs, s')"
  shows "length bs \<le> n \<and> slice_remaining s = bs @ slice_remaining s' \<and> slice_fits s'
    \<and> (bs = [] \<longrightarrow> n = 0 \<or> slice_remaining s = [])
    \<and> df_data (ps_file s') = df_data (ps_file s) \<and> ps_start s' = ps_start s \<and> ps_len s' = ps_len s"
proof (cases "ps_pos s \<ge> ps_len s")
  case True
  then have "unat (ps_len s) \<le> unat (ps_pos s)" by (simp add: word_le_nat_alt)
  with True rd fits show ?thesis by (auto simp: slice_read_def slice_remaining_eq)
next
  case False
  then have less: "ps_pos s < ps_len s" by simp
  note ins = slice_inside [OF fits less]
  define m where "m = min n (unat (ps_len s) - unat (ps_pos s))"
  from rd False ins obtain k plan where k: "portion (ps_file s) m = Some (k, plan)"
    and bs: "bs = take k (drop (unat (ps_start s) + unat (ps_pos s)) (df_data (ps_file s)))"
    and s': "s' = s\<lparr>ps_file := (ps_file s)\<lparr>df_plan := plan\<rparr>, ps_pos := ps_pos s + of_nat (length bs)\<rparr>"
    by (auto simp: slice_read_def disk_read_at_def Let_def m_def split: option.splits if_splits)
  have km: "k \<le> m" "k = 0 \<longrightarrow> m = 0"
    using k by (auto simp: portion_def split: list.splits option.splits)
  have len: "length bs \<le> k" by (simp add: bs)
  have "length bs \<le> unat (ps_len s) - unat (ps_pos s)" using len km(1) by (simp add: m_def)
  then have room: "unat (ps_pos s) + length bs \<le> unat (ps_len s)" using ins(4) by linarith
  then have pos': "unat (ps_pos s') = unat (ps_pos s) + length bs"
    using unat_u64_less [of "ps_len s"] by (simp add: s' unat_add_nat_fits)
  let ?d = "drop (unat (ps_start s) + unat (ps_pos s)) (df_data (ps_file s))"
  have rem: "slice_remaining s = take (unat (ps_len s) - unat (ps_pos s)) ?d" by (rule slice_remaining_eq)
  have rem': "slice_remaining s' = take (unat (ps_len s) - unat (ps_pos s) - length bs) (drop (length bs) ?d)"
    using pos' by (simp add: slice_remaining_eq s' add_ac)
  have "bs = take (length bs) ?d" by (simp add: bs min_def)
  then have "slice_remaining s = bs @ slice_remaining s'"
    unfolding rem rem' using take_add [of "length bs" "unat (ps_len s) - unat (ps_pos s) - length bs" ?d] room
    by simp
  moreover have "bs = [] \<longrightarrow> n = 0 \<or> slice_remaining s = []"
  proof
    assume "bs = []"
    then have "k = 0 \<or> ?d = []" by (auto simp: bs)
    then show "n = 0 \<or> slice_remaining s = []" using km(2) ins(4) unfolding rem by (auto simp: m_def)
  qed
  ultimately show ?thesis using len km(1) fits by (auto simp: m_def s' slice_fits_def)
qed

interpretation slice: byte_reader slice_read slice_remaining slice_fits
proof
  fix s s' :: slice and n :: nat and bs :: bytes
  assume "slice_fits s"
  note spec = slice_read_spec [OF this]
  show "slice_read s n = Inr (bs, s') \<Longrightarrow> length bs \<le> n \<and> slice_remaining s = bs @ slice_remaining s'"
    and "slice_read s n = Inr (bs, s') \<Longrightarrow> slice_fits s'"
    and "slice_read s n = Inr ([], s') \<Longrightarrow> n = 0 \<or> slice_remaining s = []"
    using spec by blast+
qed

section \<open>Writes and seeks\<close>

lemma length_overwrite: "length (overwrite data off bs) = max (length data) (off + length bs)"
  by (simp add: overwrite_def)

lemma overwrite_outside:
  assumes "i < length data" "i < off \<or> off + length bs \<le> i"
  shows "overwrite data off bs ! i = data ! i"
proof (cases "i < off")
  case True
  with assms(1) show ?thesis by (simp add: overwrite_def nth_append)
next
  case False
  with assms(2) have "off + length bs \<le> i" by simp
  then have "\<not> i < off" "\<not> i - off < length bs" "off + length bs + (i - off - length bs) = i" by auto
  with assms(1) show ?thesis by (simp add: overwrite_def nth_append)
qed

lemma slice_write_spec:
  assumes fits: "slice_fits s" and wr: "slice_write s buf = Inr (k, s')"
  shows "k \<le> length buf \<and> unat (ps_pos s') = unat (ps_pos s) + k \<and> unat (ps_pos s') \<le> unat (ps_len s)
    \<and> ps_start s' = ps_start s \<and> ps_len s' = ps_len s
    \<and> df_data (ps_file s') = (if k = 0 then df_data (ps_file s)
         else overwrite (df_data (ps_file s)) (unat (ps_start s) + unat (ps_pos s)) (take k buf))"
proof -
  from wr have less: "ps_pos s < ps_len s" by (auto simp: slice_write_def split: if_splits)
  note ins = slice_inside [OF fits less]
  define m where "m = min (length buf) (unat (ps_len s) - unat (ps_pos s))"
  from wr less ins obtain plan where k: "portion (ps_file s) (length (take m buf)) = Some (k, plan)"
    and s': "s' = s\<lparr>ps_file := \<lparr>df_plan = plan, df_data = (if k = 0 then df_data (ps_file s)
         else overwrite (df_data (ps_file s)) (unat (ps_start s) + unat (ps_pos s)) (take k (take m buf)))\<rparr>,
       ps_pos := ps_pos s + of_nat k\<rparr>"
    by (auto simp: slice_write_def disk_write_at_def Let_def m_def split: option.splits if_splits)
  have km: "k \<le> m" using k by (auto simp: portion_def m_def split: list.splits option.splits)
  then have "k \<le> unat (ps_len s) - unat (ps_pos s)" by (simp add: m_def)
  then have room: "unat (ps_pos s) + k \<le> unat (ps_len s)" using ins(4) by linarith
  then have "unat (ps_pos s') = unat (ps_pos s) + k"
    using unat_u64_less [of "ps_len s"] by (simp add: s' unat_add_nat_fits)
  moreover have "take k (take m buf) = take k buf" using km by (simp add: min_def)
  ultimately show ?thesis using room km by (simp add: s' m_def)
qed

section \<open>Properties\<close>


definition sample_slice :: slice where
  "sample_slice = new_slice \<lparr>df_plan = [], df_data = [1, 2, 3, 4, 5]\<rparr> 1 3"


text \<open>
  A seek either fails with \<open>InvalidInput\<close> and gives no new slice, or sets the position
  to the exact sum of its base and offset, with nothing wrapped; it succeeds for every
  target from 0 up to \<open>2 ^ 63 - 1\<close> whose base is below \<open>2 ^ 63\<close>.
\<close>

theorem seek_exact:
  "slice_seek s p =
     (let base = (case p of Start offset \<Rightarrow> uint offset | End _ \<Rightarrow> uint (ps_len s) | Current _ \<Rightarrow> uint (ps_pos s));
          offset = (case p of Start _ \<Rightarrow> 0 | End o1 \<Rightarrow> sint o1 | Current o1 \<Rightarrow> sint o1)
      in if base < 2 ^ 63 \<and> 0 \<le> base + offset \<and> base + offset < 2 ^ 63
         then Inr (word_of_int (base + offset), s\<lparr>ps_pos := word_of_int (base + offset)\<rparr>)
         else Inl InvalidInput)"
proof -
  define M :: int where "M = 2 ^ 63"
  have i64: "to_i64 w = (if uint w < M then Some (uint w) else None)" for w
  proof -
    have "uint w = int (unat w)" "M = int (2 ^ 63)" by (simp_all add: M_def)
    then have "uint w < M \<longleftrightarrow> unat w < 2 ^ 63" by (simp only: of_nat_less_iff)
    then show ?thesis by (simp only: to_i64_def)
  qed
  have add: "checked_add a w = (if - M \<le> a + sint w \<and> a + sint w < M then Some (a + sint w) else None)" for a w
    by (simp add: checked_add_def M_def)
  have M: "0 < M" by (simp add: M_def)
  have seek: "slice_seek s p =
      (if base < M \<and> 0 \<le> base + offset \<and> base + offset < M
       then Inr (word_of_int (base + offset), s\<lparr>ps_pos := word_of_int (base + offset)\<rparr>) else Inl InvalidInput)"
    if "seek_target s p = (if base < M then (if - M \<le> base + offset \<and> base + offset < M then Some (base + offset) else None) else None)"
    for base offset
  proof -
    consider "\<not> base < M" | "base < M" "base + offset < 0" | "base < M" "0 \<le> base + offset" "base + offset < M"
      | "base < M" "0 \<le> base + offset" "\<not> base + offset < M" by linarith
    then show ?thesis
    proof cases
      case 2
      then have "seek_target s p = None \<or> seek_target s p = Some (base + offset)" using that by simp
      with 2 show ?thesis by (auto simp: slice_seek_def)
    next
      case 3
      then have "- M \<le> base + offset" using M by linarith
      with 3 have "seek_target s p = Some (base + offset)" using that by simp
      with 3 show ?thesis by (simp add: slice_seek_def)
    qed (use that in \<open>simp_all add: slice_seek_def\<close>)
  qed
  show ?thesis
  proof (cases p)
    case (Start offset)
    have "- M \<le> uint offset" using M uint_ge_0 [of offset] by linarith
    with Start have "seek_target s p = (if uint offset < M then (if - M \<le> uint offset + 0 \<and> uint offset + 0 < M
        then Some (uint offset + 0) else None) else None)"
      by (simp add: seek_target_def i64)
    from seek [OF this] Start show ?thesis unfolding M_def [symmetric] by (simp add: Let_def)
  next
    case (End offset)
    then show ?thesis using seek [of "uint (ps_len s)" "sint offset"]
      unfolding M_def [symmetric] by (simp add: seek_target_def i64 add Let_def)
  next
    case (Current offset)
    then show ?thesis using seek [of "uint (ps_pos s)" "sint offset"]
      unfolding M_def [symmetric] by (simp add: seek_target_def i64 add Let_def)
  qed
qed

end
