(* ===== verification/Extractor.thy ===== *)
theory Extractor
  imports Image_Walk Disk_Slice Config
begin

text \<open>
  The cache of boot artifacts: \<open>extract_from_iso\<close> of \<^verbatim>\<open>crates/bootycall-extractor/src/iso.rs\<close>,
  \<open>extract_from_disk\<close> of \<^verbatim>\<open>disk.rs\<close>, and \<open>sync_host_cache\<close>, \<open>sync_all_hosts_cache\<close> and
  \<open>host_cache_ready\<close> of \<^verbatim>\<open>lib.rs\<close>. A host's cache directory is the record of the files the
  code keeps in it; the system calls on it and the image readers (third-party code) are
  arguments. A result \<open>None\<close> means that a copy does not end.
\<close>

section \<open>Images\<close>

record ('d, 'f, 'r, 'e) image =
  im_root :: 'd
  im_contents :: "'d \<Rightarrow> ('e + ('d, 'f) entry) list"
  im_open :: "string \<Rightarrow> 'e + ('d, 'f) entry option"
  im_reader :: "'f \<Rightarrow> 'r"

text \<open>The two artifacts of a host, and the output files they are copied to.\<close>

record artifacts =
  ar_kernel :: "bytes option"
  ar_initrd :: "bytes option"

record outputs =
  ou_kernel :: sink
  ou_initrd :: sink

type_synonym 'r reading = "'r \<Rightarrow> nat \<Rightarrow> (bytes \<times> 'r) io"
type_synonym extraction = "(artifacts \<times> (extractor_error + unit)) option"

definition copy_kernel :: "'r reading \<Rightarrow> outputs \<Rightarrow> nat option \<Rightarrow> 'r \<Rightarrow> artifacts \<Rightarrow> extraction" where
  "copy_kernel read outs max_bytes r a =
     map_option (\<lambda>(content, res). (a\<lparr>ar_kernel := content\<rparr>, res))
       (copy_capped read (ou_kernel outs) max_bytes r (ar_kernel a))"

definition copy_initrd :: "'r reading \<Rightarrow> outputs \<Rightarrow> nat option \<Rightarrow> 'r \<Rightarrow> artifacts \<Rightarrow> extraction" where
  "copy_initrd read outs max_bytes r a =
     map_option (\<lambda>(content, res). (a\<lparr>ar_initrd := content\<rparr>, res))
       (copy_capped read (ou_initrd outs) max_bytes r (ar_initrd a))"

section \<open>ISO images\<close>

definition pick_iso ::
  "('d, 'f, 'r, 'e) image \<Rightarrow> string option \<Rightarrow> (string \<Rightarrow> bool) \<Rightarrow> extractor_error \<Rightarrow> extractor_error + 'f" where
  "pick_iso vol override want not_found =
     (case override of
        Some p \<Rightarrow>
          (case im_open vol p of
             Inl e \<Rightarrow> Inl Iso
           | Inr (Some (FileEntry _ f)) \<Rightarrow> Inr f
           | Inr _ \<Rightarrow> Inl not_found)
      | None \<Rightarrow>
          (case find_file_recursive (im_contents vol) want (im_root vol) of
             Inl e \<Rightarrow> Inl Iso
           | Inr (Some f) \<Rightarrow> Inr f
           | Inr None \<Rightarrow> Inl not_found))"

definition extract_from_iso ::
  "'r reading \<Rightarrow> ('e + ('d, 'f, 'r, 'e) image) io \<Rightarrow> string option \<Rightarrow> string option \<Rightarrow> outputs \<Rightarrow> nat option
   \<Rightarrow> artifacts \<Rightarrow> extraction" where
  "extract_from_iso read opened kernel_override initrd_override outs max_bytes a =
     (case opened of
        Inl e \<Rightarrow> Some (a, Inl (IoError e))
      | Inr (Inl _) \<Rightarrow> Some (a, Inl Iso)
      | Inr (Inr vol) \<Rightarrow>
          (case pick_iso vol kernel_override is_kernel_name KernelNotFound of
             Inl e \<Rightarrow> Some (a, Inl e)
           | Inr kernel_file \<Rightarrow>
               (case pick_iso vol initrd_override is_initrd_name InitrdNotFound of
                  Inl e \<Rightarrow> Some (a, Inl e)
                | Inr initrd_file \<Rightarrow>
                    (case copy_kernel read outs max_bytes (im_reader vol kernel_file) a of
                       Some (a1, Inr _) \<Rightarrow> copy_initrd read outs max_bytes (im_reader vol initrd_file) a1
                     | other \<Rightarrow> other))))"

section \<open>Partitioned disks\<close>

record partition_entry =
  pt_used :: bool
  pt_start :: "u64 option"
  pt_len :: "u64 option"

text \<open>The file to extract, \<open>None\<close> when this partition has none.\<close>

definition pick_fat ::
  "('d, 'f, 'r, io_error) image \<Rightarrow> string option \<Rightarrow> (string \<Rightarrow> bool) \<Rightarrow> extractor_error + 'f option" where
  "pick_fat fs override want =
     (case override of
        Some p \<Rightarrow>
          (case im_open fs p of
             Inr (Some (FileEntry _ f)) \<Rightarrow> Inr (Some f)
           | _ \<Rightarrow> Inr None)
      | None \<Rightarrow>
          (case find_file_recursive_fat (im_contents fs) want (im_root fs) of
             Inl e \<Rightarrow> Inl (IoError e)
           | Inr found \<Rightarrow> Inr found))"

definition extract_initrd_fat ::
  "'r reading \<Rightarrow> ('d, 'f, 'r, io_error) image \<Rightarrow> string option \<Rightarrow> outputs \<Rightarrow> nat option \<Rightarrow> artifacts \<Rightarrow> extraction" where
  "extract_initrd_fat read fs initrd_override outs max_bytes a =
     (case pick_fat fs initrd_override is_initrd_name of
        Inl e \<Rightarrow> Some (a, Inl e)
      | Inr None \<Rightarrow> Some (a, Inl InitrdNotFound)
      | Inr (Some f) \<Rightarrow> copy_initrd read outs max_bytes (im_reader fs f) a)"

fun extract_partitions ::
  "'r reading \<Rightarrow> disk_file io \<Rightarrow> (slice \<Rightarrow> ('d, 'f, 'r, io_error) image option) \<Rightarrow> string option \<Rightarrow> string option
   \<Rightarrow> outputs \<Rightarrow> nat option \<Rightarrow> partition_entry list \<Rightarrow> artifacts \<Rightarrow> extraction" where
  "extract_partitions read reopen mount ko io outs max_bytes [] a = Some (a, Inl KernelNotFound)"
| "extract_partitions read reopen mount ko io outs max_bytes (p # ps) a =
     (if \<not> pt_used p then extract_partitions read reopen mount ko io outs max_bytes ps a
      else
        (case (pt_start p, pt_len p) of
           (Some start, Some len) \<Rightarrow>
             (case reopen of
                Inl e \<Rightarrow> Some (a, Inl (IoError e))
              | Inr partition_file \<Rightarrow>
                  (case mount (new_slice partition_file start len) of
                     None \<Rightarrow> extract_partitions read reopen mount ko io outs max_bytes ps a
                   | Some fs \<Rightarrow>
                       (case pick_fat fs ko is_kernel_name of
                          Inl e \<Rightarrow> Some (a, Inl e)
                        | Inr None \<Rightarrow> extract_partitions read reopen mount ko io outs max_bytes ps a
                        | Inr (Some f) \<Rightarrow>
                            (case copy_kernel read outs max_bytes (im_reader fs f) a of
                               Some (a1, Inr _) \<Rightarrow> extract_initrd_fat read fs io outs max_bytes a1
                             | other \<Rightarrow> other))))
         | _ \<Rightarrow> extract_partitions read reopen mount ko io outs max_bytes ps a))"

definition extract_from_disk ::
  "'r reading \<Rightarrow> partition_entry list option \<Rightarrow> disk_file io \<Rightarrow> (slice \<Rightarrow> ('d, 'f, 'r, io_error) image option)
   \<Rightarrow> string option \<Rightarrow> string option \<Rightarrow> outputs \<Rightarrow> nat option \<Rightarrow> artifacts \<Rightarrow> extraction" where
  "extract_from_disk read gpt reopen mount ko io outs max_bytes a =
     (case gpt of
        None \<Rightarrow> Some (a, Inl Disk)
      | Some partitions \<Rightarrow> extract_partitions read reopen mount ko io outs max_bytes partitions a)"

section \<open>The cache of a host\<close>

record cache_metadata =
  cm_image_path :: string
  cm_mtime_secs :: nat
  cm_size :: nat
  cm_kernel_override :: "string option"
  cm_initrd_override :: "string option"

text \<open>\<open>metadata.json\<close> is its text; \<open>metadata.txt\<close> is only there or not.\<close>

record host_cache =
  ca_dir :: bool
  ca_files :: artifacts
  ca_meta :: "string option"
  ca_legacy :: bool

text \<open>
  What the operating system answers while a host is synchronised: the image's
  modification time (nanoseconds after the epoch) and size, the directory and metadata
  calls, the files, and which of the removals at the end succeed. A failed write of the
  metadata comes with what it left in the file.
\<close>

record ('d, 'f, 'r, 'e) sync_env =
  se_stat :: "(int io \<times> nat) io"
  se_mkdir :: "unit io"
  se_read_meta :: "io_error option"
  se_write_meta :: "(io_error \<times> string option) option"
  se_remove :: "string \<Rightarrow> bool"
  se_outputs :: outputs
  se_iso :: "('e + ('d, 'f, 'r, 'e) image) io"
  se_gpt :: "partition_entry list option"
  se_reopen :: "disk_file io"
  se_mount :: "slice \<Rightarrow> ('d, 'f, 'r, io_error) image option"

definition image_stamp :: "('d, 'f, 'r, 'e) sync_env \<Rightarrow> string \<Rightarrow> extractor_error + nat \<times> nat" where
  "image_stamp env path =
     (case se_stat env of
        Inl NotFound \<Rightarrow> Inl (ImageNotFound path)
      | Inl e \<Rightarrow> Inl (IoError e)
      | Inr (Inl e, _) \<Rightarrow> Inl (IoError e)
      | Inr (Inr mtime, len) \<Rightarrow>
          if mtime < 0 then Inl (IoError OtherIo) else Inr (nat mtime div 1000000000, len))"

definition current_key :: "host_config \<Rightarrow> nat \<times> nat \<Rightarrow> cache_metadata" where
  "current_key host stamp =
     \<lparr>cm_image_path = hc_image_path host, cm_mtime_secs = fst stamp, cm_size = snd stamp,
      cm_kernel_override = hc_kernel_path host, cm_initrd_override = hc_initrd_path host\<rparr>"

definition read_from_file :: "(string \<Rightarrow> cache_metadata option) \<Rightarrow> io_error option \<Rightarrow> string \<Rightarrow> cache_metadata io" where
  "read_from_file from_json read_err content =
     (case read_err of
        Some e \<Rightarrow> Inl e
      | None \<Rightarrow> (case from_json content of None \<Rightarrow> Inl InvalidData | Some meta \<Rightarrow> Inr meta))"

definition write_to_file ::
  "(cache_metadata \<Rightarrow> string option) \<Rightarrow> (io_error \<times> string option) option \<Rightarrow> cache_metadata \<Rightarrow> string option \<Rightarrow> string option \<times> unit io" where
  "write_to_file to_json write_err meta old =
     (case to_json meta of
        None \<Rightarrow> (old, Inl InvalidData)
      | Some content \<Rightarrow>
          (case write_err of Some (e, left) \<Rightarrow> (left, Inl e) | None \<Rightarrow> (Some content, Inr ())))"

definition cache_valid ::
  "(string \<Rightarrow> cache_metadata option) \<Rightarrow> io_error option \<Rightarrow> host_config \<Rightarrow> nat \<times> nat \<Rightarrow> host_cache \<Rightarrow> bool" where
  "cache_valid from_json read_err host stamp c =
     (case ca_meta c of
        None \<Rightarrow> False
      | Some text \<Rightarrow>
          if ar_kernel (ca_files c) = None \<or> ar_initrd (ca_files c) = None then False
          else (case read_from_file from_json read_err text of
                  Inl e \<Rightarrow> False
                | Inr meta \<Rightarrow>
                    cm_image_path meta = hc_image_path host \<and> cm_mtime_secs meta = fst stamp
                    \<and> cm_size meta = snd stamp
                    \<and> cm_kernel_override meta = hc_kernel_path host
                    \<and> cm_initrd_override meta = hc_initrd_path host))"

definition extract_any ::
  "'r reading \<Rightarrow> ('d, 'f, 'r, 'e) sync_env \<Rightarrow> host_config \<Rightarrow> nat option \<Rightarrow> artifacts \<Rightarrow> extraction" where
  "extract_any read env host max_bytes a =
     (case extract_from_iso read (se_iso env) (hc_kernel_path host) (hc_initrd_path host) (se_outputs env) max_bytes a of
        Some (a1, Inl _) \<Rightarrow>
          extract_from_disk read (se_gpt env) (se_reopen env) (se_mount env) (hc_kernel_path host) (hc_initrd_path host)
            (se_outputs env) max_bytes a1
      | other \<Rightarrow> other)"

definition drop_if :: "bool \<Rightarrow> 'a option \<Rightarrow> 'a option" where
  "drop_if removed x = (if removed then None else x)"

definition clean_up :: "(string \<Rightarrow> bool) \<Rightarrow> host_cache \<Rightarrow> host_cache" where
  "clean_up remove c =
     c\<lparr>ca_files := \<lparr>ar_kernel = drop_if (remove ''kernel'') (ar_kernel (ca_files c)),
                     ar_initrd = drop_if (remove ''initrd'') (ar_initrd (ca_files c))\<rparr>,
       ca_meta := drop_if (remove ''metadata.json'') (ca_meta c)\<rparr>"

definition write_metadata ::
  "(cache_metadata \<Rightarrow> string option) \<Rightarrow> (io_error \<times> string option) option \<Rightarrow> cache_metadata \<Rightarrow> host_cache
   \<Rightarrow> host_cache \<times> (extractor_error + unit)" where
  "write_metadata to_json write_err key c =
     (case write_to_file to_json write_err key (ca_meta c) of
        (meta, Inl e) \<Rightarrow> (c\<lparr>ca_meta := meta\<rparr>, Inl (IoError e))
      | (meta, Inr _) \<Rightarrow> (c\<lparr>ca_meta := meta\<rparr>, Inr ()))"

definition sync_host_cache ::
  "'r reading \<Rightarrow> (cache_metadata \<Rightarrow> string option) \<Rightarrow> (string \<Rightarrow> cache_metadata option)
   \<Rightarrow> ('d, 'f, 'r, 'e) sync_env \<Rightarrow> host_config \<Rightarrow> nat option \<Rightarrow> host_cache
   \<Rightarrow> (host_cache \<times> (extractor_error + unit)) option" where
  "sync_host_cache read to_json from_json env host max_bytes c =
     (case image_stamp env (hc_image_path host) of
        Inl e \<Rightarrow> Some (c, Inl e)
      | Inr stamp \<Rightarrow>
          (let valid = cache_valid from_json (se_read_meta env) host stamp c;
               c1 = c\<lparr>ca_legacy := ca_legacy c \<and> \<not> se_remove env ''metadata.txt''\<rparr>
           in if valid then Some (c1, Inr ())
              else
                (case (if ca_dir c1 then Inr () else se_mkdir env) of
                   Inl e \<Rightarrow> Some (c1, Inl (IoError e))
                 | Inr _ \<Rightarrow>
                     (let c2 = c1\<lparr>ca_dir := True\<rparr> in
                      case extract_any read env host max_bytes (ca_files c2) of
                        None \<Rightarrow> None
                      | Some (a, Inr _) \<Rightarrow>
                          Some (write_metadata to_json (se_write_meta env) (current_key host stamp) (c2\<lparr>ca_files := a\<rparr>))
                      | Some (a, Inl e) \<Rightarrow> Some (clean_up (se_remove env) (c2\<lparr>ca_files := a\<rparr>), Inl e)))))"

section \<open>All hosts\<close>

record sync_summary =
  su_succeeded :: nat
  su_failed :: "(string \<times> extractor_error) list"

definition summary_total :: "sync_summary \<Rightarrow> nat" where
  "summary_total s = su_succeeded s + length (su_failed s)"

definition all_failed :: "sync_summary \<Rightarrow> bool" where
  "all_failed s \<longleftrightarrow> su_succeeded s = 0 \<and> su_failed s \<noteq> []"

definition partial_failure :: "sync_summary \<Rightarrow> bool" where
  "partial_failure s \<longleftrightarrow> su_succeeded s > 0 \<and> su_failed s \<noteq> []"

text \<open>The caches of all hosts, by MAC, and the loop over the configured hosts.\<close>

type_synonym caches = "string \<Rightarrow> host_cache"

fun sync_hosts ::
  "(host_config \<Rightarrow> host_cache \<Rightarrow> (host_cache \<times> (extractor_error + unit)) option)
   \<Rightarrow> host_config list \<Rightarrow> caches \<Rightarrow> sync_summary \<Rightarrow> (caches \<times> sync_summary) option" where
  "sync_hosts sync [] cs summary = Some (cs, summary)"
| "sync_hosts sync (host # rest) cs summary =
     (case sync host (cs (hc_mac host)) of
        None \<Rightarrow> None
      | Some (c, Inr _) \<Rightarrow>
          sync_hosts sync rest (cs(hc_mac host := c)) (summary\<lparr>su_succeeded := su_succeeded summary + 1\<rparr>)
      | Some (c, Inl e) \<Rightarrow>
          sync_hosts sync rest (cs(hc_mac host := c)) (summary\<lparr>su_failed := su_failed summary @ [(hc_name host, e)]\<rparr>))"

definition sync_all_hosts_cache ::
  "(host_config \<Rightarrow> host_cache \<Rightarrow> (host_cache \<times> (extractor_error + unit)) option)
   \<Rightarrow> bool \<Rightarrow> unit io \<Rightarrow> config \<Rightarrow> caches \<Rightarrow> (caches \<times> (extractor_error + sync_summary)) option" where
  "sync_all_hosts_cache sync dir_exists mkdir config cs =
     (case (if dir_exists then Inr () else mkdir) of
        Inl e \<Rightarrow> Some (cs, Inl (IoError e))
      | Inr _ \<Rightarrow>
          map_option (\<lambda>(cs', s). (cs', Inr s))
            (sync_hosts sync (cf_hosts config) cs \<lparr>su_succeeded = 0, su_failed = []\<rparr>))"

definition host_cache_ready :: "host_cache \<Rightarrow> bool" where
  "host_cache_ready c \<longleftrightarrow>
     (case ar_kernel (ca_files c) of Some k \<Rightarrow> k \<noteq> [] | None \<Rightarrow> False)
     \<and> (case ar_initrd (ca_files c) of Some i \<Rightarrow> i \<noteq> [] | None \<Rightarrow> False)"

section \<open>Extraction ends and delivers both files\<close>

context byte_reader
begin

lemma copy_kernel_total:
  assumes "valid r"
  obtains a' res where "copy_kernel read outs mb r a = Some (a', res)"
    "res = Inr () \<Longrightarrow> ar_kernel a' = Some (remaining r)" "ar_initrd a' = ar_initrd a"
  using copy_capped_spec [OF assms, of "ou_kernel outs" mb "ar_kernel a"] by (auto simp: copy_kernel_def)

lemma copy_initrd_total:
  assumes "valid r"
  obtains a' res where "copy_initrd read outs mb r a = Some (a', res)"
    "res = Inr () \<Longrightarrow> ar_initrd a' = Some (remaining r)" "ar_kernel a' = ar_kernel a"
  using copy_capped_spec [OF assms, of "ou_initrd outs" mb "ar_initrd a"] by (auto simp: copy_initrd_def)

text \<open>What a successful extraction leaves: the two files picked from one image.\<close>

definition holds :: "('f \<Rightarrow> 'r) \<Rightarrow> 'f \<Rightarrow> 'f \<Rightarrow> artifacts \<Rightarrow> bool" where
  "holds reader k i a \<longleftrightarrow> a = \<lparr>ar_kernel = Some (remaining (reader k)), ar_initrd = Some (remaining (reader i))\<rparr>"

lemma copy_both_total:
  assumes "valid (im_reader im k)" "valid (im_reader im i)"
  shows "\<exists>a' res. (case copy_kernel read outs mb (im_reader im k) a of
      Some (a1, Inr _) \<Rightarrow> copy_initrd read outs mb (im_reader im i) a1 | other \<Rightarrow> other) = Some (a', res)
    \<and> (res = Inr () \<longrightarrow> holds (im_reader im) k i a')"
proof -
  obtain a1 res1 where k: "copy_kernel read outs mb (im_reader im k) a = Some (a1, res1)"
    "res1 = Inr () \<Longrightarrow> ar_kernel a1 = Some (remaining (im_reader im k))"
    using copy_kernel_total [OF assms(1)] by metis
  obtain a2 res2 where i: "copy_initrd read outs mb (im_reader im i) a1 = Some (a2, res2)"
    "res2 = Inr () \<Longrightarrow> ar_initrd a2 = Some (remaining (im_reader im i))" "ar_kernel a2 = ar_kernel a1"
    using copy_initrd_total [OF assms(2)] by metis
  show ?thesis
  proof (cases res1)
    case (Inl e)
    with k show ?thesis by auto
  next
    case (Inr u)
    with k i show ?thesis by (cases a2) (auto simp: holds_def)
  qed
qed

lemma extract_from_iso_total:
  assumes "\<And>r. valid r"
  shows "\<exists>a' res. extract_from_iso read opened ko io outs mb a = Some (a', res)
    \<and> (res = Inr () \<longrightarrow> (\<exists>vol k i. opened = Inr (Inr vol) \<and> pick_iso vol ko is_kernel_name KernelNotFound = Inr k
          \<and> pick_iso vol io is_initrd_name InitrdNotFound = Inr i \<and> holds (im_reader vol) k i a'))"
proof -
  consider e where "opened = Inl e" | e where "opened = Inr (Inl e)" | vol where "opened = Inr (Inr vol)"
    by (metis sum.exhaust)
  then show ?thesis
  proof cases
    case 3
    show ?thesis
    proof (cases "\<exists>k i. pick_iso vol ko is_kernel_name KernelNotFound = Inr k \<and> pick_iso vol io is_initrd_name InitrdNotFound = Inr i")
      case True
      then obtain k i where "pick_iso vol ko is_kernel_name KernelNotFound = Inr k" "pick_iso vol io is_initrd_name InitrdNotFound = Inr i"
        by blast
      with copy_both_total [OF assms assms, where im = vol and k = k and i = i and outs = outs and mb = mb and a = a] 3 show ?thesis
        by (auto simp: extract_from_iso_def)
    next
      case False
      with 3 show ?thesis by (auto simp: extract_from_iso_def split: sum.splits)
    qed
  qed (auto simp: extract_from_iso_def)
qed

definition fat_picked ::
  "(slice \<Rightarrow> ('d, 'f, 'r, io_error) image option) \<Rightarrow> string option \<Rightarrow> string option \<Rightarrow> artifacts \<Rightarrow> bool" where
  "fat_picked mount ko io a \<longleftrightarrow> (\<exists>part fs k i. mount part = Some fs \<and> pick_fat fs ko is_kernel_name = Inr (Some k)
     \<and> pick_fat fs io is_initrd_name = Inr (Some i) \<and> holds (im_reader fs) k i a)"

lemma extract_partitions_total:
  assumes "\<And>r. valid r"
  shows "\<exists>a' res. extract_partitions read reopen mount ko io outs mb ps a = Some (a', res)
    \<and> (res = Inr () \<longrightarrow> fat_picked mount ko io a')"
proof (induction ps)
  case Nil
  then show ?case by simp
next
  case (Cons p ps)
  let ?P = "\<lambda>r. \<exists>a' res. r = Some (a', res)
    \<and> (res = Inr () \<longrightarrow> fat_picked mount ko io a')"
  have commit: "?P (case copy_kernel read outs mb (im_reader fs k) a of
      Some (a1, Inr _) \<Rightarrow> extract_initrd_fat read fs io outs mb a1 | other \<Rightarrow> other)"
    if fs: "mount part = Some fs" and k: "pick_fat fs ko is_kernel_name = Inr (Some k)" for part fs k
  proof -
    consider i where "pick_fat fs io is_initrd_name = Inr (Some i)" | "\<nexists>i. pick_fat fs io is_initrd_name = Inr (Some i)" by blast
    then show ?thesis
    proof cases
      case 1
      then have initrd: "extract_initrd_fat read fs io outs mb a1 = copy_initrd read outs mb (im_reader fs i) a1" for a1
        by (simp add: extract_initrd_fat_def)
      from copy_both_total [OF assms assms, where im = fs and k = k and i = i and outs = outs and mb = mb and a = a] k fs 1
      show ?thesis unfolding initrd fat_picked_def by blast
    next
      case 2
      obtain a1 res1 where c: "copy_kernel read outs mb (im_reader fs k) a = Some (a1, res1)"
        using copy_kernel_total [OF assms] by metis
      from 2 have "\<exists>e. extract_initrd_fat read fs io outs mb a1 = Some (a1, Inl e)"
        by (auto simp: extract_initrd_fat_def split: sum.splits option.splits)
      with c show ?thesis by (cases res1) auto
    qed
  qed
  show ?case
    using Cons.IH commit
    by (auto split: option.splits sum.splits)
qed

lemma extract_any_total:
  assumes "\<And>r. valid r"
  shows "\<exists>a' res. extract_any read env host mb a = Some (a', res)
    \<and> (res = Inr () \<longrightarrow> ar_kernel a' \<noteq> None \<and> ar_initrd a' \<noteq> None)"
proof -
  obtain a1 res1 where vol: "extract_from_iso read (se_iso env) (hc_kernel_path host) (hc_initrd_path host) (se_outputs env) mb a
      = Some (a1, res1)" "res1 = Inr () \<longrightarrow> ar_kernel a1 \<noteq> None \<and> ar_initrd a1 \<noteq> None"
    using extract_from_iso_total [OF assms, of "se_iso env" "hc_kernel_path host" "hc_initrd_path host" "se_outputs env" mb a]
    by (auto simp: holds_def)
  obtain a2 res2 where disk: "extract_from_disk read (se_gpt env) (se_reopen env) (se_mount env) (hc_kernel_path host)
      (hc_initrd_path host) (se_outputs env) mb a1 = Some (a2, res2)"
    "res2 = Inr () \<longrightarrow> ar_kernel a2 \<noteq> None \<and> ar_initrd a2 \<noteq> None"
  proof (cases "se_gpt env")
    case None
    then show thesis using that by (simp add: extract_from_disk_def)
  next
    case (Some ps)
    obtain a2 res2 where "extract_partitions read (se_reopen env) (se_mount env) (hc_kernel_path host) (hc_initrd_path host)
        (se_outputs env) mb ps a1 = Some (a2, res2)" "res2 = Inr () \<longrightarrow> ar_kernel a2 \<noteq> None \<and> ar_initrd a2 \<noteq> None"
      using extract_partitions_total [OF assms, of "se_reopen env" "se_mount env" "hc_kernel_path host" "hc_initrd_path host"
        "se_outputs env" mb ps a1] by (auto simp: holds_def fat_picked_def)
    with Some show thesis by (intro that) (auto simp: extract_from_disk_def)
  qed
  show ?thesis using vol disk by (cases res1) (auto simp: extract_any_def)
qed

end

section \<open>Synchronising a cache\<close>

lemma extract_any_file:
  "\<exists>a' res. extract_any file_read env host mb a = Some (a', res)
    \<and> (res = Inr () \<longrightarrow> ar_kernel a' \<noteq> None \<and> ar_initrd a' \<noteq> None)"
  using portioned.extract_any_total [OF TrueI, of env host mb a] by blast

lemma sync_host_cache_cases:
  assumes run: "sync_host_cache file_read to_json from_json env host mb c = r"
  obtains (no_image) e where "image_stamp env (hc_image_path host) = Inl e" "r = Some (c, Inl e)"
    | (hit) stamp where "image_stamp env (hc_image_path host) = Inr stamp"
      "cache_valid from_json (se_read_meta env) host stamp c"
      "r = Some (c\<lparr>ca_legacy := ca_legacy c \<and> \<not> se_remove env ''metadata.txt''\<rparr>, Inr ())"
    | (no_dir) e c' where "se_mkdir env = Inl e" "r = Some (c', Inl (IoError e))"
    | (extracted) stamp c2 a where "image_stamp env (hc_image_path host) = Inr stamp"
      "ar_kernel a \<noteq> None" "ar_initrd a \<noteq> None"
      "r = Some (write_metadata to_json (se_write_meta env) (current_key host stamp) (c2\<lparr>ca_files := a\<rparr>))"
    | (failed) e c2 a where "r = Some (clean_up (se_remove env) (c2\<lparr>ca_files := a\<rparr>), Inl e)"
proof (cases "image_stamp env (hc_image_path host)")
  case (Inl e)
  with run show thesis by (intro no_image) (auto simp: sync_host_cache_def)
next
  case (Inr stamp)
  let ?c1 = "c\<lparr>ca_legacy := ca_legacy c \<and> \<not> se_remove env ''metadata.txt''\<rparr>"
  show thesis
  proof (cases "cache_valid from_json (se_read_meta env) host stamp c")
    case True
    with Inr run show thesis by (intro hit) (auto simp: sync_host_cache_def)
  next
    case False
    show thesis
    proof (cases "if ca_dir ?c1 then Inr () else se_mkdir env")
      case (Inl e)
      then have "se_mkdir env = Inl e" by (auto split: if_splits)
      with Inl Inr False run show thesis by (intro no_dir [of e ?c1]) (auto simp: sync_host_cache_def Let_def)
    next
      case (Inr u)
      let ?c2 = "?c1\<lparr>ca_dir := True\<rparr>"
      obtain a res where ex: "extract_any file_read env host mb (ca_files ?c2) = Some (a, res)"
        "res = Inr () \<longrightarrow> ar_kernel a \<noteq> None \<and> ar_initrd a \<noteq> None"
        using extract_any_file [of env host mb "ca_files ?c2"] by blast
      show thesis
      proof (cases res)
        case (Inl e)
        with ex Inr \<open>image_stamp _ _ = _\<close> False run show thesis
          by (intro failed [of a ?c2 e]) (auto simp: sync_host_cache_def Let_def split: if_splits)
      next
        case ok: (Inr u')
        with ex Inr \<open>image_stamp _ _ = _\<close> False run show thesis
          by (intro extracted [of stamp a ?c2]) (auto simp: sync_host_cache_def Let_def split: if_splits)
      qed
    qed
  qed
qed

section \<open>Properties\<close>

text \<open>An image with a kernel and an initrd in a directory that lists itself.\<close>

definition sample_contents :: "nat \<Rightarrow> (unit + (nat, nat) entry) list" where
  "sample_contents d =
     (if d = 0 then [Inr (DirEntry ''.'' 0), Inr (DirEntry ''boot'' 1)]
      else [Inr (DirEntry ''..'' 0), Inr (FileEntry ''vmlinuz'' 10), Inr (FileEntry ''initrd.img'' 11)])"

definition sample_image :: "(nat, nat, file_reader, unit) image" where
  "sample_image = \<lparr>im_root = 0, im_contents = sample_contents, im_open = \<lambda>_. Inr None,
     im_reader = \<lambda>f. whole_file [of_nat f]\<rparr>"

definition sample_env :: "(nat, nat, file_reader, unit) sync_env" where
  "sample_env = \<lparr>se_stat = Inr (Inr 5000000000, 42), se_mkdir = Inr (), se_read_meta = None, se_write_meta = None,
     se_remove = \<lambda>_. True, se_outputs = \<lparr>ou_kernel = good_sink, ou_initrd = good_sink\<rparr>,
     se_iso = Inr (Inr sample_image), se_gpt = None, se_reopen = Inl NotFound, se_mount = \<lambda>_. None\<rparr>"

definition sample_key :: cache_metadata where
  "sample_key = current_key sample_host (5, 42)"

definition sample_to_json :: "cache_metadata \<Rightarrow> string option" where
  "sample_to_json m = Some (if m = sample_key then ''{}'' else [])"

definition sample_write_json :: "cache_metadata \<Rightarrow> string option" where
  "sample_write_json m = (if m = sample_key then Some ''{}'' else None)"

definition sample_from_json :: "string \<Rightarrow> cache_metadata option" where
  "sample_from_json s = (if s = ''{}'' then Some sample_key else None)"

definition empty_cache :: host_cache where
  "empty_cache = \<lparr>ca_dir = False, ca_files = \<lparr>ar_kernel = None, ar_initrd = None\<rparr>, ca_meta = None, ca_legacy = False\<rparr>"

definition synced_cache :: host_cache where
  "synced_cache = \<lparr>ca_dir = True, ca_files = \<lparr>ar_kernel = Some [10], ar_initrd = Some [11]\<rparr>, ca_meta = Some ''{}'', ca_legacy = False\<rparr>"

lemma sample_pick:
  "find_file_recursive sample_contents is_kernel_name 0 = Inr (Some 10)"
  "find_file_recursive sample_contents is_initrd_name 0 = Inr (Some 11)"
  by code_simp+

lemma sample_extract:
  "extract_any file_read sample_env sample_host (Some 100) \<lparr>ar_kernel = None, ar_initrd = None\<rparr>
   = Some (\<lparr>ar_kernel = Some [10], ar_initrd = Some [11]\<rparr>, Inr ())"
  by (simp add: extract_any_def extract_from_iso_def pick_iso_def sample_env_def sample_host_def sample_image_def sample_pick
      copy_kernel_def copy_initrd_def copy_capped_def copy_limited.simps file_read_def whole_file_def COPY_BUF_def good_sink_def)

lemma sample_sync:
  "sync_host_cache file_read sample_write_json sample_from_json sample_env sample_host (Some 100) empty_cache
   = Some (synced_cache, Inr ())"
proof -
  have "image_stamp sample_env (hc_image_path sample_host) = Inr (5, 42)"
    by (simp add: image_stamp_def sample_env_def)
  moreover have "se_mkdir sample_env = Inr ()" "se_write_meta sample_env = None"
    by (simp_all add: sample_env_def)
  ultimately show ?thesis
    by (simp add: sync_host_cache_def empty_cache_def cache_valid_def Let_def sample_extract write_metadata_def write_to_file_def read_from_file_def
        sample_write_json_def sample_key_def synced_cache_def)
qed

text \<open>
  C23. A cache that was synchronised successfully is valid: with the image unchanged the
  next run, for the same host configuration, succeeds without touching the artifacts, and
  both artifacts are there. The JSON codec is assumed to read back what it writes.
\<close>

theorem sync_then_hit:
  assumes "\<And>m js. to_json m = Some js \<Longrightarrow> from_json js = Some m"
    and "sync_host_cache file_read to_json from_json env host mb c = Some (c', Inr ())"
    and "se_stat env' = se_stat env" "se_read_meta env' = None"
  shows "\<exists>c''. sync_host_cache file_read to_json from_json env' host mb' c' = Some (c'', Inr ())
    \<and> ca_files c'' = ca_files c' \<and> ca_meta c'' = ca_meta c'
    \<and> ar_kernel (ca_files c') \<noteq> None \<and> ar_initrd (ca_files c') \<noteq> None"
  using assms(2)
proof (cases rule: sync_host_cache_cases)
  case (hit stamp)
  have stamp: "image_stamp env' (hc_image_path host) = Inr stamp" using hit(1) assms(3) by (simp add: image_stamp_def)
  have "cache_valid from_json None host stamp c'" "ar_kernel (ca_files c') \<noteq> None" "ar_initrd (ca_files c') \<noteq> None"
    using hit(2,3) by (auto simp: cache_valid_def read_from_file_def split: option.splits if_splits)
  with stamp assms(4) show ?thesis by (simp add: sync_host_cache_def)
next
  case (extracted stamp c2 a)
  have stamp: "image_stamp env' (hc_image_path host) = Inr stamp" using extracted(1) assms(3) by (simp add: image_stamp_def)
  from extracted(4) obtain js where "to_json (current_key host stamp) = Some js" "c' = c2\<lparr>ca_files := a, ca_meta := Some js\<rparr>"
    by (auto simp: write_metadata_def write_to_file_def split: option.splits)
  moreover from this assms(1) have "from_json js = Some (current_key host stamp)" by blast
  ultimately have "cache_valid from_json None host stamp c'" "ca_files c' = a"
    using extracted(2,3) by (auto simp: cache_valid_def read_from_file_def current_key_def)
  with stamp assms(4) extracted(2,3) show ?thesis by (simp add: sync_host_cache_def)
qed auto

lemma sync_then_hit_witness:
  "\<exists>c''. sync_host_cache file_read sample_write_json sample_from_json sample_env sample_host None synced_cache = Some (c'', Inr ())
    \<and> ca_files c'' = \<lparr>ar_kernel = Some [10], ar_initrd = Some [11]\<rparr>"
proof -
  have codec: "sample_from_json js = Some m" if "sample_write_json m = Some js" for m js
    using that by (auto simp: sample_write_json_def sample_from_json_def split: if_splits)
  have "se_read_meta sample_env = None" by (simp add: sample_env_def)
  from sync_then_hit [OF codec sample_sync refl this] show ?thesis by (auto simp: synced_cache_def)
qed


definition broken_env :: "(nat, nat, file_reader, unit) sync_env" where
  "broken_env = sample_env\<lparr>se_iso := Inr (Inl ())\<rparr>"


end
