(* ===== verification/Http.thy ===== *)
theory Http
  imports Path_Join Extractor Host_Registry
begin

text \<open>
  \<^verbatim>\<open>crates/bootycall-http/src/server.rs\<close>: the handlers behind each route. A handler is a
  function from the configuration, the store and the request to the response and the
  calls on the store. Third-party code is an argument: the template engine (\<open>render_boot\<close>
  and \<open>render_menu\<close>, from the values the code passes to it), the SHA-256 digest and the
  random choice of a wallpaper; a JSON body is kept as the value it is made from. A header
  is what \<open>HeaderMap::get\<close> followed by \<open>to_str\<close> gives.
\<close>

section \<open>Responses\<close>

datatype body =
    NoBody
  | Text string
  | Bytes bytes
  | FileStream cpath
  | StatusJson "host_state list" "host_config list"
  | LogsJson "log_record list"
  | HealthJson string nat "string list"
  | OkJson

record response =
  rs_status :: nat
  rs_content_type :: "string option"
  rs_location :: "string option"
  rs_body :: body

definition status_only :: "nat \<Rightarrow> response" where
  "status_only code = \<lparr>rs_status = code, rs_content_type = None, rs_location = None, rs_body = NoBody\<rparr>"

definition plain_text :: "nat \<Rightarrow> string \<Rightarrow> response" where
  "plain_text code text1 = \<lparr>rs_status = code, rs_content_type = Some ''text/plain'', rs_location = None, rs_body = Text text1\<rparr>"

definition utf8_text :: "nat \<Rightarrow> string \<Rightarrow> response" where
  "utf8_text code text1 =
     \<lparr>rs_status = code, rs_content_type = Some ''text/plain; charset=utf-8'', rs_location = None, rs_body = Text text1\<rparr>"

definition json :: "nat \<Rightarrow> body \<Rightarrow> response" where
  "json code b = \<lparr>rs_status = code, rs_content_type = Some ''application/json'', rs_location = None, rs_body = b\<rparr>"

type_synonym headers = "string \<Rightarrow> string option"

definition nl :: string where "nl = [CHR 0x0A]"

section \<open>Files\<close>

text \<open>\<open>Path::extension\<close> of a file name: what follows its last dot, unless the dot is the first character.\<close>

definition extension :: "string \<Rightarrow> string option" where
  "extension p =
     (case file_name p of
        None \<Rightarrow> None
      | Some name \<Rightarrow>
          (let parts = split_on (CHR ''.'') name in
           if length parts < 2 \<or> join_with ''.'' (butlast parts) = [] then None else Some (last parts)))"

definition content_type_for :: "string \<Rightarrow> string" where
  "content_type_for path =
     (let ext = to_lowercase (case extension path of Some e \<Rightarrow> e | None \<Rightarrow> []) in
      if ext = ''ipxe'' \<or> ext = ''txt'' then ''text/plain''
      else if ext = ''png'' then ''image/png''
      else if ext = ''jpg'' \<or> ext = ''jpeg'' then ''image/jpeg''
      else if ext = ''gif'' then ''image/gif''
      else if ext = ''json'' then ''application/json''
      else if ext = ''css'' then ''text/css''
      else if ext = ''js'' then ''application/javascript''
      else if ext = ''html'' then ''text/html''
      else ''application/octet-stream'')"

text \<open>\<open>opens\<close> says whether opening the regular file found succeeds.\<close>

definition serve_file_from_dir :: "process_fs \<Rightarrow> (cpath \<Rightarrow> bool) \<Rightarrow> string \<Rightarrow> string \<Rightarrow> response" where
  "serve_file_from_dir v opens dir relative_path =
     (case safe_join (resolve_in v) dir relative_path of
        None \<Rightarrow> status_only 403
      | Some full_path \<Rightarrow>
          (case resolve_in v full_path of
             None \<Rightarrow> status_only 404
           | Some c \<Rightarrow>
               (case node_at v c of
                  Some (Regular _) \<Rightarrow>
                    if opens c then
                      \<lparr>rs_status = 200, rs_content_type = Some (content_type_for relative_path), rs_location = None,
                       rs_body = FileStream c\<rparr>
                    else status_only 500
                | _ \<Rightarrow> status_only 404)))"

definition serve_asset :: "(string \<Rightarrow> bytes option) \<Rightarrow> string \<Rightarrow> response" where
  "serve_asset assets path =
     (case assets path of
        Some content \<Rightarrow>
          \<lparr>rs_status = 200, rs_content_type = Some (content_type_for path), rs_location = None, rs_body = Bytes content\<rparr>
      | None \<Rightarrow> status_only 404)"

definition root_redirect :: response where
  "root_redirect = (status_only 303)\<lparr>rs_location := Some ''/ui/index.html''\<rparr>"

definition serve_static_file :: "process_fs \<Rightarrow> (cpath \<Rightarrow> bool) \<Rightarrow> config \<Rightarrow> string \<Rightarrow> response" where
  "serve_static_file v opens config path = serve_file_from_dir v opens (sc_static_dir (cf_server config)) path"

definition serve_cache_file :: "process_fs \<Rightarrow> (cpath \<Rightarrow> bool) \<Rightarrow> config \<Rightarrow> string \<Rightarrow> response" where
  "serve_cache_file v opens config path = serve_file_from_dir v opens (sc_cache_dir (cf_server config)) path"

section \<open>Boot scripts\<close>

definition host_header :: "headers \<Rightarrow> string" where
  "host_header headers = (case headers ''host'' of Some h \<Rightarrow> h | None \<Rightarrow> ''localhost:8080'')"

definition start_handler :: "headers \<Rightarrow> response" where
  "start_handler headers =
     plain_text 200 (''#!ipxe'' @ nl @ ''echo BootyCall starting...'' @ nl @ ''chain --autofree --replace http://''
       @ host_header headers @ ''/poll/${mac:hexhyp}'' @ nl)"

text \<open>The sources of the two templates; every line ends with a newline.\<close>

definition BOOT_TEMPLATE :: string where
  "BOOT_TEMPLATE =
     concat (map (\<lambda>line. line @ nl)
      [''#!ipxe'',
       ''{% if target_of %}echo Booting target {{ name }} for host {{ target_of }}...'',
       ''{% else %}echo Booting {{ name }}...'',
       ''{% endif %}kernel http://{{ server_ip_port }}/cache/{{ mac }}/kernel {{ cmdline }}'',
       ''initrd http://{{ server_ip_port }}/cache/{{ mac }}/initrd'',
       ''boot''])"

definition MENU_TEMPLATE :: string where
  "MENU_TEMPLATE =
     concat (map (\<lambda>line. line @ nl)
      [''#!ipxe'',
       [],
       ''# Load wallpaper if available'',
       ''chain --timeout 5000 http://{{ server_ip_port }}/dynamic/wallpaper.ipxe || echo Failed to load dynamic wallpaper'',
       [],
       '':menu'',
       ''menu BootyCall Network Boot Menu'',
       ''{% for host in hosts %}'',
       ''item host_{{ loop.index }} {{ host.name }}'',
       ''{% endfor %}'',
       ''item shell Enter iPXE shell'',
       ''item reboot Reboot system'',
       [],
       ''choose --default host_1 --timeout 30000 target || goto menu'',
       [],
       ''# Handle targets'',
       ''{% for host in hosts %}'',
       '':host_{{ loop.index }}'',
       ''echo Booting {{ host.name }}...'',
       ''kernel http://{{ server_ip_port }}/cache/{{ host.mac }}/kernel {{ host.cmdline | default('' @ [CHR 0x27] @ [CHR 0x27] @ '') }}'',
       ''initrd http://{{ server_ip_port }}/cache/{{ host.mac }}/initrd'',
       ''boot'',
       ''{% endfor %}'',
       [],
       '':shell'',
       ''shell'',
       ''goto menu'',
       [],
       '':reboot'',
       ''reboot''])"

text \<open>The values the boot template is rendered with.\<close>

record boot_context =
  bc_name :: string
  bc_server_ip_port :: string
  bc_mac :: string
  bc_cmdline :: string
  bc_target_of :: "string option"

datatype poll_outcome = Boot string string | RenderFailed | Poll

definition boot_context_for :: "host_config \<Rightarrow> string \<Rightarrow> string option \<Rightarrow> boot_context" where
  "boot_context_for h host_hdr target_of =
     \<lparr>bc_name = hc_name h, bc_server_ip_port = host_hdr, bc_mac = hc_mac h,
      bc_cmdline = (case hc_cmdline h of Some c \<Rightarrow> c | None \<Rightarrow> []), bc_target_of = target_of\<rparr>"

definition boot_outcome :: "(boot_context \<Rightarrow> string option) \<Rightarrow> host_config \<Rightarrow> string \<Rightarrow> string option \<Rightarrow> poll_outcome" where
  "boot_outcome render_boot h host_hdr target_of =
     (case render_boot (boot_context_for h host_hdr target_of) of
        Some script \<Rightarrow> Boot script (hc_mac h)
      | None \<Rightarrow> RenderFailed)"

definition override_target :: "config \<Rightarrow> state_store \<Rightarrow> string \<Rightarrow> host_config option" where
  "override_target config st mac_str =
     (case get_host mac_str st of
        None \<Rightarrow> None
      | Some hs \<Rightarrow>
          (case hs_assigned_target hs of
             None \<Rightarrow> None
           | Some target_name \<Rightarrow> List.find (\<lambda>h. hc_name h = target_name) (cf_hosts config)))"

definition decide_poll_outcome ::
  "(boot_context \<Rightarrow> string option) \<Rightarrow> config \<Rightarrow> state_store \<Rightarrow> string \<Rightarrow> string \<Rightarrow> poll_outcome" where
  "decide_poll_outcome render_boot config st mac_str host_hdr =
     (case find_host config mac_str of
        Some host_config \<Rightarrow> boot_outcome render_boot host_config host_hdr None
      | None \<Rightarrow>
          (case override_target config st mac_str of
             Some target_config \<Rightarrow> boot_outcome render_boot target_config host_hdr (Some mac_str)
           | None \<Rightarrow> Poll))"

definition retry_script :: "string \<Rightarrow> string \<Rightarrow> string" where
  "retry_script host_hdr mac_str =
     ''#!ipxe'' @ nl @ ''prompt --key 0x02 --timeout 4000 BootyCall: Press Ctrl-B for manual override... '' @ [CHR 0x5C] @ nl
     @ ''  && chain --autofree http://'' @ host_hdr @ ''/ipxemenu '' @ [CHR 0x5C] @ nl
     @ ''  || chain --autofree http://'' @ host_hdr @ ''/poll/'' @ mac_str @ nl"

definition poll_handler ::
  "(boot_context \<Rightarrow> string option) option \<Rightarrow> config \<Rightarrow> state_store \<Rightarrow> headers \<Rightarrow> sock_addr \<Rightarrow> string
   \<Rightarrow> response \<times> store_op list" where
  "poll_handler boot_template config st headers client_addr mac =
     (let host_hdr = host_header headers; mac_str = normalize_mac mac in
      if \<not> is_valid_mac mac_str then (utf8_text 400 (''Invalid MAC address'' @ nl), [])
      else
        (let client_ip = ip_to_string (addr_ip client_addr) in
         case boot_template of
           None \<Rightarrow> (utf8_text 500 (''Internal server error'' @ nl), [])
         | Some render_boot \<Rightarrow>
             (case decide_poll_outcome render_boot config st mac_str host_hdr of
                Boot script cache_mac \<Rightarrow>
                  (plain_text 200 script,
                   [UpdateHost mac_str Booting None None (Some client_ip) None,
                    LogEvent ''INFO'' (Some mac_str)
                      (''Serving boot execution script for target (mapped cache MAC: '' @ cache_mac @ '')'')])
              | RenderFailed \<Rightarrow>
                  (plain_text 500 (''#!ipxe'' @ nl @ ''echo BootyCall: internal error rendering boot script'' @ nl),
                   [UpdateHost mac_str Failed None None (Some client_ip) None,
                    LogEvent ''ERROR'' (Some mac_str) ''Boot script render failed''])
              | Poll \<Rightarrow>
                  (plain_text 200 (retry_script host_hdr mac_str),
                   [UpdateHost mac_str Polling None None (Some client_ip) None]))))"

definition menu_handler :: "(string \<Rightarrow> host_config list \<Rightarrow> string option) option \<Rightarrow> config \<Rightarrow> headers \<Rightarrow> response" where
  "menu_handler menu_template config headers =
     (let failed = ''#!ipxe'' @ nl @ ''echo Menu error'' @ nl @ ''exit'' @ nl in
      case menu_template of
        None \<Rightarrow> plain_text 200 failed
      | Some render_menu \<Rightarrow>
          plain_text 200 (case render_menu (host_header headers) (cf_hosts config) of Some s \<Rightarrow> s | None \<Rightarrow> failed))"

section \<open>Wallpapers\<close>

definition MAX_WALLPAPER_CANDIDATES :: nat where "MAX_WALLPAPER_CANDIDATES = 1024"

definition is_image_name :: "string \<Rightarrow> bool" where
  "is_image_name file_name1 =
     (let lower = to_lowercase file_name1 in suffix ''.png'' lower \<or> suffix ''.jpg'' lower \<or> suffix ''.jpeg'' lower)"

text \<open>The loop over the directory entries; \<open>None\<close> is an entry that could not be read.\<close>

fun collect_entries :: "string list \<Rightarrow> string option list \<Rightarrow> string list" where
  "collect_entries candidates [] = candidates"
| "collect_entries candidates (None # _) = candidates"
| "collect_entries candidates (Some name # rest) =
     (if length candidates < MAX_WALLPAPER_CANDIDATES
      then collect_entries (if is_image_name name then candidates @ [name] else candidates) rest
      else candidates)"

type_synonym dir_reader = "string \<Rightarrow> string option list option"

definition collect_wallpaper_candidates :: "dir_reader \<Rightarrow> string \<Rightarrow> string list" where
  "collect_wallpaper_candidates read_dir dir =
     (case read_dir dir of Some entries \<Rightarrow> collect_entries [] entries | None \<Rightarrow> [])"

record wallpaper_query =
  wq_width :: "u32 option"
  wq_height :: "u32 option"
  wq_hd_video :: "string option"

definition wallpaper_size :: "wallpaper_query \<Rightarrow> u32 option \<times> u32 option" where
  "wallpaper_size q = (if wq_hd_video q = Some ''true'' then (Some 1920, Some 1080) else (wq_width q, wq_height q))"

definition sized_wallpaper ::
  "(string \<Rightarrow> cpath option) \<Rightarrow> dir_reader \<Rightarrow> (string list \<Rightarrow> string) \<Rightarrow> string \<Rightarrow> u32 option \<times> u32 option \<Rightarrow> string option" where
  "sized_wallpaper resolve read_dir pick wallpapers_root sz =
     (case sz of
        (Some w, Some h) \<Rightarrow>
          (let res_dir_name = dec_of_nat (unat w) @ ''x'' @ dec_of_nat (unat h) in
           case safe_join resolve wallpapers_root res_dir_name of
             None \<Rightarrow> None
           | Some res_path \<Rightarrow>
               (case collect_wallpaper_candidates read_dir res_path of
                  [] \<Rightarrow> None
                | candidates \<Rightarrow> Some (''wallpapers/'' @ res_dir_name @ ''/'' @ pick candidates)))
      | _ \<Rightarrow> None)"

definition select_wallpaper ::
  "(string \<Rightarrow> cpath option) \<Rightarrow> dir_reader \<Rightarrow> (string list \<Rightarrow> string) \<Rightarrow> string \<Rightarrow> u32 option \<times> u32 option \<Rightarrow> string option" where
  "select_wallpaper resolve read_dir pick wallpapers_root sz =
     (case sized_wallpaper resolve read_dir pick wallpapers_root sz of
        Some p \<Rightarrow> Some p
      | None \<Rightarrow>
          (case collect_wallpaper_candidates read_dir wallpapers_root of
             [] \<Rightarrow> None
           | candidates \<Rightarrow> Some (''wallpapers/'' @ pick candidates)))"

definition wallpaper_handler ::
  "(string \<Rightarrow> cpath option) \<Rightarrow> dir_reader \<Rightarrow> (string list \<Rightarrow> string) \<Rightarrow> config \<Rightarrow> headers \<Rightarrow> wallpaper_query \<Rightarrow> response" where
  "wallpaper_handler resolve read_dir pick config headers q =
     (let sz = wallpaper_size q;
          w = dec_of_nat (unat (case fst sz of Some n \<Rightarrow> n | None \<Rightarrow> 1024));
          h = dec_of_nat (unat (case snd sz of Some n \<Rightarrow> n | None \<Rightarrow> 768));
          wallpapers_root = path_join (sc_static_dir (cf_server config)) ''wallpapers''
      in plain_text 200
           (case select_wallpaper resolve read_dir pick wallpapers_root sz of
              Some path \<Rightarrow>
                ''#!ipxe'' @ nl @ ''console --x '' @ w @ '' --y '' @ h @ '' --picture http://'' @ host_header headers
                @ ''/static/'' @ path @ '' --depth 32 --keep || exit'' @ nl
            | None \<Rightarrow> ''#!ipxe'' @ nl @ ''console --x '' @ w @ '' --y '' @ h @ '' || exit'' @ nl))"

section \<open>The API\<close>

text \<open>The comparison of the digests, byte by byte without an early exit.\<close>

definition digest_diff :: "bytes \<Rightarrow> bytes \<Rightarrow> u8" where
  "digest_diff ha hb = fold (\<lambda>(x, y) diff. diff OR (x XOR y)) (zip ha hb) 0"

definition constant_time_eq :: "(bytes \<Rightarrow> bytes) \<Rightarrow> bytes \<Rightarrow> bytes \<Rightarrow> bool" where
  "constant_time_eq sha256 a b = (digest_diff (sha256 a) (sha256 b) = 0)"

definition check_api_token :: "(bytes \<Rightarrow> bytes) \<Rightarrow> config \<Rightarrow> headers \<Rightarrow> bool" where
  "check_api_token sha256 config headers =
     (case sc_api_token (cf_server config) of
        None \<Rightarrow> True
      | Some expected \<Rightarrow>
          constant_time_eq sha256 (as_bytes (case headers ''x-api-token'' of Some t \<Rightarrow> t | None \<Rightarrow> [])) (as_bytes expected))"

definition api_status_handler :: "(bytes \<Rightarrow> bytes) \<Rightarrow> host_order \<Rightarrow> config \<Rightarrow> state_store \<Rightarrow> headers \<Rightarrow> response" where
  "api_status_handler sha256 order config st headers =
     (if \<not> check_api_token sha256 config headers then status_only 401
      else json 200 (StatusJson (list_hosts order st) (cf_hosts config)))"

definition api_logs_handler :: "(bytes \<Rightarrow> bytes) \<Rightarrow> config \<Rightarrow> state_store \<Rightarrow> headers \<Rightarrow> response" where
  "api_logs_handler sha256 config st headers =
     (if \<not> check_api_token sha256 config headers then status_only 401 else json 200 (LogsJson (list_logs st)))"

definition api_health_handler :: "config \<Rightarrow> caches \<Rightarrow> response" where
  "api_health_handler config cs =
     (let not_ready = map hc_name (filter (\<lambda>h. \<not> host_cache_ready (cs (hc_mac h))) (cf_hosts config));
          healthy = (not_ready = [])
      in json (if healthy then 200 else 503)
           (HealthJson (if healthy then ''healthy'' else ''degraded'') (length (cf_hosts config)) not_ready))"

definition api_override_handler ::
  "(bytes \<Rightarrow> bytes) \<Rightarrow> config \<Rightarrow> headers \<Rightarrow> string \<Rightarrow> string \<Rightarrow> response \<times> store_op list" where
  "api_override_handler sha256 config headers mac target =
     (if \<not> check_api_token sha256 config headers then (status_only 401, [])
      else
        (let mac_str = normalize_mac mac in
         if \<not> is_valid_mac mac_str then (status_only 400, [])
         else if \<not> list_ex (\<lambda>h. hc_name h = target) (cf_hosts config) then (status_only 400, [])
         else
           (json 200 OkJson,
            [UpdateHost mac_str Polling None (Some target) None None,
             LogEvent ''INFO'' (Some mac_str) (''Assigned manual override target: '' @ target)])))"

section \<open>The router\<close>

datatype request =
    GetRoot | GetUi string | GetStatic string | GetCache string | GetStart | GetPoll string | GetMenu
  | GetWallpaper wallpaper_query | GetStatus | GetLogs | GetHealth | PostOverride string string

text \<open>What the handlers use of the world outside the process, and of third-party code.\<close>

record http_env =
  he_fs :: process_fs
  he_opens :: "cpath \<Rightarrow> bool"
  he_read_dir :: dir_reader
  he_choose :: "string list \<Rightarrow> string"
  he_assets :: "string \<Rightarrow> bytes option"
  he_boot :: "(boot_context \<Rightarrow> string option) option"
  he_menu :: "(string \<Rightarrow> host_config list \<Rightarrow> string option) option"
  he_sha256 :: "bytes \<Rightarrow> bytes"
  he_order :: host_order
  he_caches :: caches

definition http_handle ::
  "http_env \<Rightarrow> config \<Rightarrow> state_store \<Rightarrow> headers \<Rightarrow> sock_addr \<Rightarrow> request \<Rightarrow> response \<times> store_op list" where
  "http_handle env config st headers client_addr req =
     (case req of
        GetRoot \<Rightarrow> (root_redirect, [])
      | GetUi path \<Rightarrow> (serve_asset (he_assets env) path, [])
      | GetStatic path \<Rightarrow> (serve_static_file (he_fs env) (he_opens env) config path, [])
      | GetCache path \<Rightarrow> (serve_cache_file (he_fs env) (he_opens env) config path, [])
      | GetStart \<Rightarrow> (start_handler headers, [])
      | GetPoll mac \<Rightarrow> poll_handler (he_boot env) config st headers client_addr mac
      | GetMenu \<Rightarrow> (menu_handler (he_menu env) config headers, [])
      | GetWallpaper q \<Rightarrow> (wallpaper_handler (resolve_in (he_fs env)) (he_read_dir env) (he_choose env) config headers q, [])
      | GetStatus \<Rightarrow> (api_status_handler (he_sha256 env) (he_order env) config st headers, [])
      | GetLogs \<Rightarrow> (api_logs_handler (he_sha256 env) config st headers, [])
      | GetHealth \<Rightarrow> (api_health_handler config (he_caches env), [])
      | PostOverride mac target \<Rightarrow> api_override_handler (he_sha256 env) config headers mac target)"

end
