(* ===== verification/Http_Contract.thy ===== *)
theory Http_Contract
  imports Http
begin

text \<open>
  What the HTTP handlers of \<open>Http\<close> promise: which requests change the store and under
  which MAC, what the token check compares, what a poll answers and records, how a manual
  override reaches the next poll, which files leave the server, when the health probe is
  green and which wallpapers are candidates.
\<close>

section \<open>Helper facts\<close>

lemma word_or_eq_0: "(a OR b :: 'a::len word) = 0 \<longleftrightarrow> a = 0 \<and> b = 0"
  by (auto simp: bit_eq_iff bit_simps)

lemma word_xor_eq_0: "(a XOR b :: 'a::len word) = 0 \<longleftrightarrow> a = b"
  by (auto simp: bit_eq_iff bit_simps)

lemma digest_diff_fold: "fold (\<lambda>(x, y) diff. diff OR (x XOR y)) ps d = 0 \<longleftrightarrow> d = 0 \<and> (\<forall>(x, y) \<in> set ps. x = (y :: u8))"
  by (induction ps arbitrary: d) (auto simp: word_or_eq_0 word_xor_eq_0)

lemma digest_diff_zero: "length ha = length hb \<Longrightarrow> digest_diff ha hb = 0 \<longleftrightarrow> ha = hb"
  by (induction ha hb rule: list_induct2) (auto simp: digest_diff_def digest_diff_fold word_or_eq_0 word_xor_eq_0)

lemma collect_entries_eq:
  "length candidates \<le> MAX_WALLPAPER_CANDIDATES \<Longrightarrow>
   collect_entries candidates entries =
     take MAX_WALLPAPER_CANDIDATES (candidates @ filter is_image_name (map the (takeWhile (\<lambda>e. e \<noteq> None) entries)))"
  by (induction candidates entries rule: collect_entries.induct) (auto simp: take_Cons')

lemma poll_handler_ops:
  "snd (poll_handler boot config st headers addr mac) =
     (if \<not> is_valid_mac (normalize_mac mac) then []
      else case boot of
             None \<Rightarrow> []
           | Some rb \<Rightarrow>
               (let ip = Some (ip_to_string (addr_ip addr)); m = normalize_mac mac in
                case decide_poll_outcome rb config st m (host_header headers) of
                  Boot script cache_mac \<Rightarrow>
                    [UpdateHost m Booting None None ip None,
                     LogEvent ''INFO'' (Some m)
                       (''Serving boot execution script for target (mapped cache MAC: '' @ cache_mac @ '')'')]
                | RenderFailed \<Rightarrow>
                    [UpdateHost m Failed None None ip None, LogEvent ''ERROR'' (Some m) ''Boot script render failed'']
                | Poll \<Rightarrow> [UpdateHost m Polling None None ip None]))"
  by (simp add: poll_handler_def Let_def split: option.split poll_outcome.split)

lemma poll_handler_writes:
  assumes "op \<in> set (snd (poll_handler boot config st headers addr mac))"
  shows "is_valid_mac (normalize_mac mac) \<and> op_mac op = Some (normalize_mac mac)"
proof -
  obtain rb where "boot = Some rb" "is_valid_mac (normalize_mac mac)"
    using assms by (cases boot) (auto simp: poll_handler_ops split: if_splits)
  with assms show ?thesis
    by (cases "decide_poll_outcome rb config st (normalize_mac mac) (host_header headers)")
      (auto simp: poll_handler_ops op_mac_def Let_def)
qed

definition polled_status :: "poll_outcome \<Rightarrow> host_status" where
  "polled_status outcome = (case outcome of Boot _ _ \<Rightarrow> Booting | RenderFailed \<Rightarrow> Failed | Poll \<Rightarrow> Polling)"

definition poll_answer :: "string \<Rightarrow> string \<Rightarrow> poll_outcome \<Rightarrow> nat \<times> body" where
  "poll_answer host_hdr mac_str outcome =
     (case outcome of
        Boot script _ \<Rightarrow> (200, Text script)
      | RenderFailed \<Rightarrow> (500, Text (''#!ipxe'' @ nl @ ''echo BootyCall: internal error rendering boot script'' @ nl))
      | Poll \<Rightarrow> (200, Text (retry_script host_hdr mac_str)))"

lemma poll_handler_answer:
  assumes "is_valid_mac (normalize_mac mac)"
  shows "poll_handler (Some rb) config st headers addr mac = (resp, ops) \<Longrightarrow>
    (rs_status resp, rs_body resp)
      = poll_answer (host_header headers) (normalize_mac mac)
          (decide_poll_outcome rb config st (normalize_mac mac) (host_header headers))"
  using assms
  by (cases "decide_poll_outcome rb config st (normalize_mac mac) (host_header headers)")
    (auto simp: poll_handler_def Let_def poll_answer_def plain_text_def)

lemma store_full_normalize [simp]: "store_full (normalize_mac mac) st = store_full mac st"
  by (simp add: store_full_def)

lemma get_after_poll:
  assumes "is_valid_mac (normalize_mac mac)" "\<not> store_full mac st"
    "poll_handler (Some rb) config st headers addr mac = (resp, ops)"
  shows "\<exists>h. get_host mac (apply_ops now ops st) = Some h \<and> hs_last_seen h = now
    \<and> hs_client_ip h = Some (ip_to_string (addr_ip addr))
    \<and> hs_status h = polled_status (decide_poll_outcome rb config st (normalize_mac mac) (host_header headers))"
proof -
  have ops: "ops = snd (poll_handler (Some rb) config st headers addr mac)" using assms(3) by simp
  show ?thesis
    using assms(1,2) unfolding ops poll_handler_ops
    by (cases "decide_poll_outcome rb config st (normalize_mac mac) (host_header headers)")
      (simp_all add: Let_def apply_ops_def registry.get_update registry.get_log polled_status_def
        merged_host_def merge_opt_def del: apply_op.simps)
qed

lemma boot_host:
  assumes "decide_poll_outcome rb config st mac hdr = Boot script cache_mac"
  shows "\<exists>h \<in> set (cf_hosts config). hc_mac h = cache_mac
    \<and> (\<exists>target_of. rb (boot_context_for h hdr target_of) = Some script)"
proof -
  have "\<exists>h. h \<in> set (cf_hosts config) \<and> (\<exists>t. boot_outcome rb h hdr t = Boot script cache_mac)"
    using assms
    by (auto simp: decide_poll_outcome_def find_host_def override_target_def
        split: option.splits dest!: find_Some_in)
  then show ?thesis by (auto simp: boot_outcome_def split: option.splits)
qed

section \<open>Properties\<close>

text \<open>
  C25. Who may change the store over HTTP: a request changes the store only if it is a poll
  or an override, only under the normalised form of the MAC it names and only if that is a
  valid MAC; an override moreover only with the configured token and for the name of a
  configured host. So no request writes a line break into the store or the log.
\<close>

theorem http_writes_guarded:
  assumes "op \<in> set (snd (http_handle env config st headers addr req))"
  shows "\<exists>mac. op_mac op = Some (normalize_mac mac) \<and> is_valid_mac (normalize_mac mac)
    \<and> (req = GetPoll mac
       \<or> (\<exists>target. req = PostOverride mac target \<and> check_api_token (he_sha256 env) config headers
            \<and> target \<in> hc_name ` set (cf_hosts config)))"
proof (cases req)
  case (GetPoll mac)
  with assms have "op \<in> set (snd (poll_handler (he_boot env) config st headers addr mac))"
    by (simp add: http_handle_def)
  then have "is_valid_mac (normalize_mac mac) \<and> op_mac op = Some (normalize_mac mac)"
    by (rule poll_handler_writes)
  with GetPoll show ?thesis by blast
next
  case (PostOverride mac target)
  with assms have "op \<in> set (snd (api_override_handler (he_sha256 env) config headers mac target))"
    by (simp add: http_handle_def)
  then have "is_valid_mac (normalize_mac mac)" "op_mac op = Some (normalize_mac mac)"
    "check_api_token (he_sha256 env) config headers" "list_ex (\<lambda>h. hc_name h = target) (cf_hosts config)"
    by (auto simp: api_override_handler_def op_mac_def Let_def split: if_splits)
  with PostOverride show ?thesis by (auto simp: list_ex_iff)
qed (use assms in \<open>auto simp: http_handle_def\<close>)

text \<open>A digest of 32 bytes, and an environment to run the handlers in.\<close>

definition sample_digest :: "bytes \<Rightarrow> bytes" where
  "sample_digest bs = take 32 (bs @ replicate 32 0)"

definition sample_boot :: "boot_context \<Rightarrow> string option" where
  "sample_boot c = Some (bc_name c)"

definition sample_http :: http_env where
  "sample_http = \<lparr>he_fs = sample_view, he_opens = (\<lambda>_. True), he_read_dir = (\<lambda>_. None), he_choose = hd,
     he_assets = (\<lambda>_. None), he_boot = Some sample_boot, he_menu = None, he_sha256 = sample_digest,
     he_order = (\<lambda>_. []), he_caches = (\<lambda>_. empty_cache)\<rparr>"

definition token_headers :: headers where
  "token_headers name = (if name = ''x-api-token'' then Some ''s'' else None)"

lemma sample_token: "check_api_token sample_digest sample_config token_headers"
  by (simp add: check_api_token_def sample_config_def normalize_hosts_def fill_defaults_def sample_yaml_def
      token_headers_def constant_time_eq_def digest_diff_zero)

lemma sample_hosts: "cf_hosts sample_config = [sample_host\<lparr>hc_mac := ''52:54:00:ab:cd:01''\<rparr>]"
  by (simp add: sample_config_def normalize_hosts_def fill_defaults_def sample_yaml_def sample_host_def) code_simp

lemma sample_override_mac:
  "normalize_mac ''52-54-00-AB-CD-02'' = ''52:54:00:ab:cd:02''" "is_valid_mac ''52:54:00:ab:cd:02''"
  by code_simp+

lemma sample_override:
  "api_override_handler sample_digest sample_config token_headers ''52-54-00-AB-CD-02'' ''n1'' =
     (json 200 OkJson,
      [UpdateHost ''52:54:00:ab:cd:02'' Polling None (Some ''n1'') None None,
       LogEvent ''INFO'' (Some ''52:54:00:ab:cd:02'') ''Assigned manual override target: n1''])"
  by (simp add: api_override_handler_def sample_token sample_override_mac sample_hosts sample_host_def Let_def)

lemma http_writes_guarded_witness:
  "is_valid_mac (normalize_mac ''52-54-00-AB-CD-02'') \<and> ''n1'' \<in> hc_name ` set (cf_hosts sample_config)"
proof -
  have "UpdateHost ''52:54:00:ab:cd:02'' Polling None (Some ''n1'') None None
      \<in> set (snd (http_handle sample_http sample_config new_store token_headers (SocketAddr (V4 [10, 0, 0, 9]) 99)
          (PostOverride ''52-54-00-AB-CD-02'' ''n1'')))"
    by (simp add: http_handle_def sample_http_def sample_override)
  from http_writes_guarded [OF this] show ?thesis by auto
qed

text \<open>
  What the token check compares: with a 32-byte digest, the comparison without early exit
  says whether the digests of the two tokens are equal, so a request passes exactly when no
  token is configured or the digest of its header value (the empty string without a header)
  is the digest of the configured token.
\<close>

theorem token_check_exact:
  assumes "\<And>bs. length (sha256 bs) = 32"
  shows "(constant_time_eq sha256 a b \<longleftrightarrow> sha256 a = sha256 b)
    \<and> (check_api_token sha256 config headers \<longleftrightarrow>
      (case sc_api_token (cf_server config) of
         None \<Rightarrow> True
       | Some expected \<Rightarrow>
           sha256 (as_bytes expected) = sha256 (as_bytes (case headers ''x-api-token'' of Some t \<Rightarrow> t | None \<Rightarrow> []))))"
  using assms by (auto simp: constant_time_eq_def check_api_token_def digest_diff_zero split: option.splits)

lemma token_check_exact_witness:
  "\<not> constant_time_eq sample_digest (as_bytes ''t'') (as_bytes ''s'') \<and> constant_time_eq sample_digest [1] [1]"
proof -
  have "length (sample_digest bs) = 32" for bs by (simp add: sample_digest_def)
  note eq = token_check_exact [OF this]
  have "sample_digest (as_bytes ''t'') \<noteq> sample_digest (as_bytes ''s'')"
    by (simp add: sample_digest_def numeral_eq_Suc as_bytes_def byte_of_char_eq_iff)
  with eq show ?thesis by simp
qed

text \<open>
  The health probe is green exactly when the artifacts of every configured host are
  ready: the status is 200 or 503 accordingly, and the body names the hosts that are not.
\<close>

theorem health_exact:
  "let ready = (\<lambda>h. ar_kernel (ca_files (cs (hc_mac h))) \<notin> {None, Some []}
                  \<and> ar_initrd (ca_files (cs (hc_mac h))) \<notin> {None, Some []});
       resp = api_health_handler config cs
   in rs_status resp = (if list_all ready (cf_hosts config) then 200 else 503)
    \<and> (\<exists>status. rs_body resp = HealthJson status (length (cf_hosts config))
                    (map hc_name (filter (\<lambda>h. \<not> ready h) (cf_hosts config))))"
proof -
  have "host_cache_ready c \<longleftrightarrow> ar_kernel (ca_files c) \<notin> {None, Some []} \<and> ar_initrd (ca_files c) \<notin> {None, Some []}" for c
    by (auto simp: host_cache_ready_def split: option.split)
  then show ?thesis
    by (simp add: api_health_handler_def json_def Let_def filter_empty_conv list_all_iff)
qed

text \<open>
  The wallpaper candidates of a directory are its first 1024 image names, in the order
  the directory lists them and up to the first entry that cannot be read; none if the
  directory cannot be listed.
\<close>

theorem wallpaper_candidates:
  "collect_wallpaper_candidates read_dir dir =
     (case read_dir dir of
        None \<Rightarrow> []
      | Some entries \<Rightarrow> take 1024 (filter is_image_name (map the (takeWhile (\<lambda>e. e \<noteq> None) entries))))"
  by (simp add: collect_wallpaper_candidates_def collect_entries_eq MAX_WALLPAPER_CANDIDATES_def split: option.split)

text \<open>
  C27. What a poll answers and records, for a valid MAC and a tracked host or a store with
  room: the answer is the boot script, the error script or the retry script, the store then
  holds the host as booting, failed or polling accordingly with the address of the client
  and the time of the poll, and only scripts rendered for a configured host are served.
\<close>

theorem poll_records:
  assumes "is_valid_mac (normalize_mac mac)" "\<not> store_full mac st" "he_boot env = Some rb"
    and "http_handle env config st headers addr (GetPoll mac) = (resp, ops)"
    and "decide_poll_outcome rb config st (normalize_mac mac) (host_header headers) = outcome"
  shows "(rs_status resp, rs_body resp) = poll_answer (host_header headers) (normalize_mac mac) outcome
    \<and> (\<exists>h. get_host mac (apply_ops now ops st) = Some h \<and> hs_status h = polled_status outcome
         \<and> hs_client_ip h = Some (ip_to_string (addr_ip addr)) \<and> hs_last_seen h = now)
    \<and> (case outcome of
         Boot script cache_mac \<Rightarrow> \<exists>h \<in> set (cf_hosts config). hc_mac h = cache_mac
           \<and> (\<exists>target_of. rb (boot_context_for h (host_header headers) target_of) = Some script)
       | _ \<Rightarrow> True)"
proof -
  have run: "poll_handler (Some rb) config st headers addr mac = (resp, ops)"
    using assms(3,4) by (simp add: http_handle_def)
  from boot_host assms(5) have "case outcome of
         Boot script cache_mac \<Rightarrow> \<exists>h \<in> set (cf_hosts config). hc_mac h = cache_mac
           \<and> (\<exists>target_of. rb (boot_context_for h (host_header headers) target_of) = Some script)
       | _ \<Rightarrow> True" by (auto split: poll_outcome.split)
  with poll_handler_answer [OF assms(1) run] get_after_poll [OF assms(1,2) run] assms(5) show ?thesis by auto
qed

lemma new_store_room: "\<not> store_full mac new_store"
  by (simp add: store_full_def new_store_def MAX_TRACKED_HOSTS_def)

lemma sample_decide:
  "decide_poll_outcome sample_boot sample_config new_store ''52:54:00:ab:cd:02'' hdr = Poll"
proof -
  have "find_host sample_config ''52:54:00:ab:cd:02'' = None"
    by (simp add: find_host_def sample_hosts) code_simp
  then show ?thesis by (simp add: decide_poll_outcome_def override_target_def get_host_def new_store_def)
qed

lemma poll_records_witness:
  "\<exists>resp ops h. http_handle sample_http sample_config new_store token_headers (SocketAddr (V4 [10, 0, 0, 9]) 99)
       (GetPoll ''52-54-00-AB-CD-02'') = (resp, ops)
     \<and> get_host ''52-54-00-AB-CD-02'' (apply_ops 7 ops new_store) = Some h \<and> hs_status h = Polling \<and> rs_status resp = 200"
proof -
  obtain resp ops where run: "http_handle sample_http sample_config new_store token_headers (SocketAddr (V4 [10, 0, 0, 9]) 99)
       (GetPoll ''52-54-00-AB-CD-02'') = (resp, ops)" by (cases "http_handle sample_http sample_config new_store
       token_headers (SocketAddr (V4 [10, 0, 0, 9]) 99) (GetPoll ''52-54-00-AB-CD-02'')")
  have "is_valid_mac (normalize_mac ''52-54-00-AB-CD-02'')" by (simp add: sample_override_mac)
  moreover have "he_boot sample_http = Some sample_boot" by (simp add: sample_http_def)
  moreover have "decide_poll_outcome sample_boot sample_config new_store (normalize_mac ''52-54-00-AB-CD-02'')
     (host_header token_headers) = Poll" unfolding sample_override_mac by (rule sample_decide)
  ultimately show ?thesis
    using poll_records [OF _ new_store_room _ run, of sample_boot Poll 7] run
    by (auto simp: poll_answer_def polled_status_def)
qed



text \<open>
  C30. An override can be lost: for a valid MAC that is not tracked, when the store already
  tracks 4096 hosts, the handler answers success although nothing is recorded of the host,
  and its next poll is not given the target.
\<close>

theorem override_lost_when_full:
  assumes "check_api_token (he_sha256 env) config headers" "is_valid_mac (normalize_mac mac)"
    and "target \<in> hc_name ` set (cf_hosts config)" "store_full mac st"
    and "http_handle env config st headers addr (PostOverride mac target) = (resp, ops)"
  shows "rs_status resp = 200 \<and> rs_body resp = OkJson
    \<and> get_host mac (apply_ops now ops st) = None
    \<and> (find_host config (normalize_mac mac) = None \<longrightarrow>
         decide_poll_outcome rb config (apply_ops now ops st) (normalize_mac mac) hdr = Poll)"
proof -
  have "list_ex (\<lambda>h. hc_name h = target) (cf_hosts config)" using assms(3) by (auto simp: list_ex_iff)
  with assms(1,2,5) have r: "resp = json 200 OkJson" "ops = [UpdateHost (normalize_mac mac) Polling None (Some target) None None,
      LogEvent ''INFO'' (Some (normalize_mac mac)) (''Assigned manual override target: '' @ target)]"
    by (auto simp: http_handle_def api_override_handler_def Let_def)
  have none: "get_host mac (apply_ops now ops st) = None"
    using assms(4) registry.full_absent [OF assms(4)] unfolding r
    by (simp add: apply_ops_def registry.get_update registry.get_log del: apply_op.simps)
  moreover have "get_host (normalize_mac mac) st' = get_host mac st'" for st' by (simp add: get_host_def)
  ultimately show ?thesis using r(1) by (simp add: json_def decide_poll_outcome_def override_target_def)
qed

text \<open>A store with 4096 hosts.\<close>

definition crowded_store :: state_store where
  "crowded_store = \<lparr>ss_hosts = fmap_of_list (map (\<lambda>i. (replicate i (CHR ''z''), blank_host [])) [0..<4096]), ss_logs = []\<rparr>"

lemma crowded_full: "store_full ''52-54-00-AB-CD-02'' crowded_store"
proof -
  have other: "''52:54:00:ab:cd:02'' \<noteq> replicate i (CHR ''z'')" for i by (cases i) simp_all
  have "''52:54:00:ab:cd:02'' \<notin> fst ` set (map (\<lambda>i. (replicate i (CHR ''z''), blank_host [])) [0..<4096])"
  proof
    assume "''52:54:00:ab:cd:02'' \<in> fst ` set (map (\<lambda>i. (replicate i (CHR ''z''), blank_host [])) [0..<4096])"
    then obtain i where "''52:54:00:ab:cd:02'' = replicate i (CHR ''z'')" by auto
    with other show False by blast
  qed
  then have "fmlookup (ss_hosts crowded_store) ''52:54:00:ab:cd:02'' = None"
    unfolding crowded_store_def state_store.simps fmlookup_of_list map_of_eq_None_iff .
  moreover have "fm_size (ss_hosts crowded_store) = 4096"
  proof -
    have "fmdom (ss_hosts crowded_store) = fset_of_list (map (\<lambda>i. replicate i (CHR ''z'')) [0..<4096])"
      by (simp add: crowded_store_def comp_def del: upt_rec_numeral)
    then have "fm_size (ss_hosts crowded_store) = card ((\<lambda>i. replicate i (CHR ''z'')) ` {0..<4096})"
      by (simp add: fm_size_def fcard.rep_eq fset_of_list.rep_eq del: upt_rec_numeral)
    also have "\<dots> = 4096" by (subst card_image) (auto intro: inj_onI dest: arg_cong [where f = length])
    finally show ?thesis .
  qed
  ultimately show ?thesis by (simp add: store_full_def sample_override_mac MAX_TRACKED_HOSTS_def)
qed

lemma override_lost_when_full_witness:
  "\<exists>resp ops. http_handle sample_http sample_config crowded_store token_headers (SocketAddr (V4 [10, 0, 0, 9]) 99)
       (PostOverride ''52-54-00-AB-CD-02'' ''n1'') = (resp, ops)
     \<and> rs_status resp = 200 \<and> get_host ''52-54-00-AB-CD-02'' (apply_ops 5 ops crowded_store) = None"
proof -
  obtain resp ops where run: "http_handle sample_http sample_config crowded_store token_headers (SocketAddr (V4 [10, 0, 0, 9]) 99)
       (PostOverride ''52-54-00-AB-CD-02'' ''n1'') = (resp, ops)"
    by (cases "http_handle sample_http sample_config crowded_store token_headers (SocketAddr (V4 [10, 0, 0, 9]) 99)
       (PostOverride ''52-54-00-AB-CD-02'' ''n1'')")
  have "check_api_token (he_sha256 sample_http) sample_config token_headers"
    using sample_token by (simp add: sample_http_def)
  moreover have "is_valid_mac (normalize_mac ''52-54-00-AB-CD-02'')" by (simp add: sample_override_mac)
  moreover have "''n1'' \<in> hc_name ` set (cf_hosts sample_config)" by (simp add: sample_hosts sample_host_def)
  ultimately show ?thesis using override_lost_when_full [OF _ _ _ crowded_full run, of 5] run by blast
qed

text \<open>
  C29. What leaves the server as a file: a response that streams a file streams a regular
  file below the canonical form of the configured static or cache directory, whatever
  symbolic links there are, with status 200 and the content type of the requested path.
\<close>

theorem served_file_inside:
  assumes "http_handle env config st headers addr req = (resp, ops)" "rs_body resp = FileStream c"
  shows "\<exists>dir path croot bs. (req = GetStatic path \<and> dir = sc_static_dir (cf_server config)
        \<or> req = GetCache path \<and> dir = sc_cache_dir (cf_server config))
    \<and> resolve_in (he_fs env) dir = Some croot \<and> prefix croot c \<and> node_at (he_fs env) c = Some (Regular bs)
    \<and> rs_status resp = 200 \<and> rs_content_type resp = Some (content_type_for path)"
proof -
  have served: "\<exists>croot bs. resolve_in v dir = Some croot \<and> prefix croot c \<and> node_at v c = Some (Regular bs)
      \<and> rs_status r = 200 \<and> rs_content_type r = Some (content_type_for path)"
    if "r = serve_file_from_dir v opens dir path" "rs_body r = FileStream c" for r v opens dir path
  proof -
    from that obtain p where join: "safe_join (resolve_in v) dir path = Some p" and "resolve_in v p = Some c"
      and rest: "\<exists>bs. node_at v c = Some (Regular bs)" "rs_status r = 200" "rs_content_type r = Some (content_type_for path)"
      by (auto simp: serve_file_from_dir_def status_only_def split: option.splits node.splits if_splits)
    with kernel.safe_join_inside [OF join] show ?thesis by blast
  qed
  have dir: "\<exists>opens path. (req = GetStatic path \<and> resp = serve_file_from_dir (he_fs env) opens (sc_static_dir (cf_server config)) path
      \<or> req = GetCache path \<and> resp = serve_file_from_dir (he_fs env) opens (sc_cache_dir (cf_server config)) path)"
    using assms
    by (cases req)
      (auto simp: http_handle_def root_redirect_def status_only_def serve_asset_def serve_static_file_def serve_cache_file_def
        start_handler_def plain_text_def utf8_text_def menu_handler_def wallpaper_handler_def api_status_handler_def json_def
        api_logs_handler_def api_health_handler_def poll_handler_def api_override_handler_def Let_def
        split: option.splits if_splits poll_outcome.splits)
  then show ?thesis using served assms(2) by metis
qed

definition sample_static :: config where
  "sample_static = sample_config\<lparr>cf_server := (cf_server sample_config)\<lparr>sc_static_dir := ''/srv''\<rparr>\<rparr>"

lemma sample_resolve: "resolve_in sample_view = resolve_path sample_fs []"
  by (rule ext, transfer) simp

lemma sample_node: "node_at sample_view = sample_fs"
  by (rule ext, transfer) simp

lemma served_file_inside_witness:
  "rs_body (fst (http_handle sample_http sample_static new_store token_headers (SocketAddr (V4 [10, 0, 0, 9]) 99) (GetStatic ''in'')))
     = FileStream [''srv'', ''boot'']
   \<and> (\<exists>croot. resolve_in (he_fs sample_http) ''/srv'' = Some croot \<and> prefix croot [''srv'', ''boot''])"
proof -
  have "safe_join (resolve_in sample_view) ''/srv'' ''in'' = Some ''/srv/boot''"
    "resolve_in sample_view ''/srv/boot'' = Some [''srv'', ''boot'']" "sample_fs [''srv'', ''boot''] = Some (Regular [1])"
    unfolding sample_resolve by code_simp+
  then have run: "http_handle sample_http sample_static new_store token_headers (SocketAddr (V4 [10, 0, 0, 9]) 99) (GetStatic ''in'')
      = (\<lparr>rs_status = 200, rs_content_type = Some (content_type_for ''in''), rs_location = None,
          rs_body = FileStream [''srv'', ''boot'']\<rparr>, [])"
    by (simp add: http_handle_def sample_http_def serve_static_file_def sample_static_def serve_file_from_dir_def sample_node)
  from served_file_inside [OF run] show ?thesis by (simp add: run) (auto simp: sample_static_def)
qed

end
