(* ===== verification/Boot_Suite.thy ===== *)
theory Boot_Suite
  imports Tftp_Listener Dhcp Http_Contract
begin

text \<open>
  The servers together, as \<^verbatim>\<open>crates/bootycall-rs/src/main.rs\<close> runs them: the DHCP loop, the
  TFTP listener and its transfers, the HTTP handlers, the reload thread and the periodic
  sweep share one configuration and one store. A handler reads the shared state at one
  moment; the calls it makes on the store are executed one by one, interleaved with the
  calls of every other task in any order. The LED and OLED tasks only read the store.
\<close>

section \<open>The state and its steps\<close>

definition STALE_HOST_TTL_SECS :: nat where "STALE_HOST_TTL_SECS = 300"

record suite =
  su_config :: config
  su_store :: state_store
  su_jobs :: "job list"
  su_slots :: nat
  su_pending :: "store_op list list"
  su_watch :: watch_state

definition suite_start :: "config \<Rightarrow> suite" where
  "suite_start config = \<lparr>su_config = config, su_store = new_store, su_jobs = [], su_slots = MAX_CONCURRENT_TRANSFERS,
     su_pending = [], su_watch = Blocked\<rparr>"

definition add_calls :: "store_op list \<Rightarrow> suite \<Rightarrow> suite" where
  "add_calls ops s = s\<lparr>su_pending := ops # su_pending s\<rparr>"

definition add_job :: "job option \<Rightarrow> suite \<Rightarrow> suite" where
  "add_job j s = (case j of None \<Rightarrow> s | Some job \<Rightarrow> s\<lparr>su_jobs := job # su_jobs s, su_slots := su_slots s - 1\<rparr>)"

definition end_job :: "job \<Rightarrow> suite \<Rightarrow> suite" where
  "end_job j s = s\<lparr>su_jobs := remove1 j (su_jobs s), su_slots := Suc (su_slots s)\<rparr>"

text \<open>
  What a step does, for those who look at a history: a DHCP datagram with the configuration
  it met, an HTTP request with its configuration, headers and status, a datagram to the
  TFTP listener, the end of a transfer with what it sent and what the file holds, a sweep,
  a reload, or one call on the store.
\<close>

datatype suite_event =
    DhcpSeen config
  | HttpDone "bytes \<Rightarrow> bytes" config headers request nat
  | TftpSeen
  | TransferEnded "string option" "bytes list" "bytes option" "unit io"
  | Swept
  | Reloaded
  | Called store_op

definition file_content :: "file_reader io \<Rightarrow> bytes option" where
  "file_content opened = (case opened of Inr r \<Rightarrow> Some (fr_data r) | Inl _ \<Rightarrow> None)"

inductive suite_step ::
  "host_order \<Rightarrow> (string \<Rightarrow> yaml_config option) \<Rightarrow> suite_event \<Rightarrow> suite \<Rightarrow> suite \<Rightarrow> bool"
  for order :: host_order and parse_yaml :: "string \<Rightarrow> yaml_config option" where
  dhcp: "dhcp_step decode encode x64 bc probe local_addr (su_config s) datagram src = (ops, reply) \<Longrightarrow>
    suite_step order parse_yaml (DhcpSeen (su_config s)) s (add_calls ops s)"
| http: "http_handle env (su_config s) (su_store s) headers addr req = (resp, ops) \<Longrightarrow>
    suite_step order parse_yaml (HttpDone (he_sha256 env) (su_config s) headers req (rs_status resp)) s (add_calls ops s)"
| tftp: "listener_step resolve order (su_config s) sock (su_slots s) (su_store s) datagram src = r \<Longrightarrow>
    suite_step order parse_yaml TftpSeen s (add_job (re_job r) (add_calls (re_ops r) s))"
| transfer: "j \<in> set (su_jobs s) \<Longrightarrow>
    handle_tftp_transfer file_read opened metadata start turns (jb_request j) (jb_mac j) = (out, ops, Some res) \<Longrightarrow>
    suite_step order parse_yaml (TransferEnded (jb_mac j) out (file_content opened) res) s (end_job j (add_calls ops s))"
| sweep: "suite_step order parse_yaml Swept s (add_calls [CleanStale STALE_HOST_TTL_SECS] s)"
| reload: "watch_step parse_yaml name (su_watch s) input = (w, out) \<Longrightarrow>
    suite_step order parse_yaml Reloaded s
      (s\<lparr>su_watch := w, su_config := (case out of Some c \<Rightarrow> c | None \<Rightarrow> su_config s)\<rparr>)"
| call: "su_pending s = ps @ (op # ops) # qs \<Longrightarrow>
    suite_step order parse_yaml (Called op) s
      (s\<lparr>su_store := apply_op now op (su_store s), su_pending := ps @ ops # qs\<rparr>)"

text \<open>Runs with their history, the latest event first, and the states they reach.\<close>

inductive suite_run ::
  "host_order \<Rightarrow> (string \<Rightarrow> yaml_config option) \<Rightarrow> suite_event list \<Rightarrow> suite \<Rightarrow> bool"
  for order :: host_order and parse_yaml :: "string \<Rightarrow> yaml_config option" where
  start: "load_config parse_yaml content = Inr config \<Longrightarrow> suite_run order parse_yaml [] (suite_start config)"
| step: "suite_run order parse_yaml evs s \<Longrightarrow> suite_step order parse_yaml e s s' \<Longrightarrow>
    suite_run order parse_yaml (e # evs) s'"

definition suite_reachable :: "host_order \<Rightarrow> (string \<Rightarrow> yaml_config option) \<Rightarrow> suite \<Rightarrow> bool" where
  "suite_reachable order parse_yaml s \<longleftrightarrow> (\<exists>evs. suite_run order parse_yaml evs s)"

lemma suite_reachable_start: "load_config parse_yaml content = Inr config \<Longrightarrow> suite_reachable order parse_yaml (suite_start config)"
  by (auto simp: suite_reachable_def intro: suite_run.start)

lemma suite_reachable_step:
  "suite_reachable order parse_yaml s \<Longrightarrow> suite_step order parse_yaml e s s' \<Longrightarrow> suite_reachable order parse_yaml s'"
  by (auto simp: suite_reachable_def intro: suite_run.step)

section \<open>The invariant\<close>

text \<open>\<open>HashMap::values\<close> yields nothing but values of the map.\<close>

definition yields_values :: "host_order \<Rightarrow> bool" where
  "yields_values order \<longleftrightarrow> (\<forall>m. set (order m) \<subseteq> ran (fmlookup m))"

definition good_call :: "store_op \<Rightarrow> bool" where
  "good_call op = (case op of CleanStale _ \<Rightarrow> True | _ \<Rightarrow> (case op_mac op of Some m \<Rightarrow> is_valid_mac m | None \<Rightarrow> False))"

definition macs_valid :: "state_store \<Rightarrow> bool" where
  "macs_valid st \<longleftrightarrow> (\<forall>k h. fmlookup (ss_hosts st) k = Some h \<longrightarrow> is_valid_mac (hs_mac h))
     \<and> (\<forall>e \<in> set (ss_logs st). \<exists>m. le_mac e = Some m \<and> is_valid_mac m)"

definition suite_inv :: "suite \<Rightarrow> bool" where
  "suite_inv s \<longleftrightarrow> valid_config (su_config s) \<and> wf_store (su_store s) \<and> macs_valid (su_store s)
     \<and> (\<forall>ops \<in> set (su_pending s). \<forall>op \<in> set ops. good_call op)
     \<and> length (su_jobs s) + su_slots s = MAX_CONCURRENT_TRANSFERS
     \<and> (\<forall>j \<in> set (su_jobs s). \<forall>m. jb_mac j = Some m \<longrightarrow> is_valid_mac m)"

lemma macs_valid_call:
  assumes "good_call op" "wf_store st" "macs_valid st"
  shows "macs_valid (apply_op now op st)"
proof (cases op)
  case (UpdateHost mac status name target ip arch)
  with assms(1) have v: "is_valid_mac mac" by (simp add: good_call_def op_mac_def)
  then have "is_valid_mac (hs_mac (blank_host mac))" by (simp add: blank_host_def normalize_valid_mac)
  with assms(3) UpdateHost show ?thesis
    by (auto simp: macs_valid_def store_simps merged_host_def get_host_def split: if_splits option.splits)
next
  case (LogEvent level m message)
  with assms(1) obtain mac where "m = Some mac" "is_valid_mac mac" by (auto simp: good_call_def op_mac_def split: option.splits)
  with assms(3) LogEvent set_evict_oldest [of "ss_logs st @ [log_entry (now, level, m, message)]"] show ?thesis
    by (auto simp: macs_valid_def log_event_def log_entry_def normalize_valid_mac)
next
  case (CleanStale secs)
  with assms(3) show ?thesis
    by (auto simp: macs_valid_def store_simps clean_stale_hosts_def split: option.splits if_splits)
qed

text \<open>Every handler makes good calls only.\<close>

lemma good_callI: "op_mac op = Some m \<Longrightarrow> is_valid_mac m \<Longrightarrow> good_call op"
  by (cases op) (auto simp: good_call_def op_mac_def)

lemma dhcp_calls: "dhcp_step decode encode x64 bc probe local_addr config datagram src = (ops, reply) \<Longrightarrow> op \<in> set ops \<Longrightarrow> good_call op"
  by (auto simp: dhcp_step_eq dhcp_ops_def Let_def good_call_def op_mac_def split: option.splits)

lemma http_calls:
  assumes "http_handle env config st headers addr req = (resp, ops)" "op \<in> set ops"
  shows "good_call op"
proof (cases req)
  case (GetPoll mac)
  with assms have "op \<in> set (snd (poll_handler (he_boot env) config st headers addr mac))" by (simp add: http_handle_def)
  from poll_handler_writes [OF this] show ?thesis by (blast intro: good_callI)
next
  case (PostOverride mac target)
  with assms show ?thesis
    by (auto simp: http_handle_def api_override_handler_def Let_def good_call_def op_mac_def split: if_splits)
qed (use assms in \<open>auto simp: http_handle_def\<close>)

lemma booting_calls: "op \<in> set (booting_ops mac_addr name path) \<Longrightarrow> (\<And>m. mac_addr = Some m \<Longrightarrow> is_valid_mac m) \<Longrightarrow> good_call op"
  by (auto simp: booting_ops_def good_call_def op_mac_def split: option.splits)

lemma client_host_valid:
  assumes "yields_values order" "macs_valid st" "client_host order st src = Some h"
  shows "is_valid_mac (hs_mac h)"
proof -
  from assms(3) have "h \<in> set (order (ss_hosts st))" by (auto simp: client_host_def list_hosts_def dest: find_Some_in)
  with assms(1) have "h \<in> ran (fmlookup (ss_hosts st))" by (auto simp: yields_values_def)
  with assms(2) show ?thesis by (auto simp: macs_valid_def ran_def)
qed

lemma listener_ops:
  "re_ops (listener_step resolve order config sock slots st datagram src) = [] \<or>
   (\<exists>name path. re_ops (listener_step resolve order config sock slots st datagram src)
      = booting_ops (map_option hs_mac (client_host order st src)) name path)"
  by (auto simp: listener_step_def start_transfer_def ignored_def Let_def
      split: dispatch.splits option.splits socket_setup.splits)

lemma finish_data_calls: "finish_data mac stop = (ops, r) \<Longrightarrow> op \<in> set ops \<Longrightarrow> (\<And>m. mac = Some m \<Longrightarrow> is_valid_mac m) \<Longrightarrow> good_call op"
  by (cases stop) (auto simp: mark_tftp_failed_def mark_tftp_completed_def good_call_def op_mac_def split: option.splits)

lemma transfer_calls:
  assumes "handle_tftp_transfer read opened metadata start turns request mac = (out, ops, res)" "op \<in> set ops"
    and "\<And>m. mac = Some m \<Longrightarrow> is_valid_mac m"
  shows "good_call op"
  using assms(1)
proof (cases rule: handle_cases)
  case (oack r sz result)
  with assms(2,3) show ?thesis
    by (auto simp: mark_tftp_failed_def good_call_def op_mac_def dest!: finish_oack_marks split: option.splits)
next
  case (data r sz out0 out1 left)
  then show ?thesis
    using assms(2) finish_data_calls [of mac, OF _ _ assms(3)] by (auto simp: run_data_def split: prod.splits option.splits)
qed (use assms(2) in auto)

lemma suite_inv_add_calls: "suite_inv s \<Longrightarrow> (\<And>op. op \<in> set ops \<Longrightarrow> good_call op) \<Longrightarrow> suite_inv (add_calls ops s)"
  by (auto simp: suite_inv_def add_calls_def)

lemma suite_inv_step:
  assumes inv: "suite_inv s" and order: "yields_values order" and step: "suite_step order parse_yaml e s s'"
  shows "suite_inv s'"
  using step
proof (cases rule: suite_step.cases)
  case (dhcp decode encode x64 bc probe local_addr datagram src ops reply)
  with inv show ?thesis by (blast intro: suite_inv_add_calls dhcp_calls)
next
  case (http env headers addr req resp ops)
  with inv show ?thesis by (blast intro: suite_inv_add_calls http_calls)
next
  case (tftp resolve sock datagram src r)
  have valid: "is_valid_mac m" if "map_option hs_mac (client_host order (su_store s) src) = Some m" for m
    using that client_host_valid [OF order, of "su_store s" src] inv by (auto simp: suite_inv_def)
  have "good_call op" if op: "op \<in> set (re_ops r)" for op
  proof -
    obtain name path where "re_ops r = booting_ops (map_option hs_mac (client_host order (su_store s) src)) name path"
      using listener_ops [of resolve order "su_config s" sock "su_slots s" "su_store s" datagram src] tftp(3) op by auto
    with op have "op \<in> set (booting_ops (map_option hs_mac (client_host order (su_store s) src)) name path)" by simp
    from booting_calls [OF this valid] show ?thesis .
  qed
  then have calls: "suite_inv (add_calls (re_ops r) s)" using inv by (rule suite_inv_add_calls [rotated])
  show ?thesis
  proof (cases "re_job r")
    case (Some j)
    with tftp(3) listener_job [of resolve order "su_config s" sock "su_slots s" "su_store s" datagram src j]
    have "0 < su_slots s" "jb_mac j = map_option hs_mac (client_host order (su_store s) src)" by blast+
    with calls Some valid tftp(2) show ?thesis by (auto simp: suite_inv_def add_job_def add_calls_def)
  qed (use calls tftp(2) in \<open>simp add: add_job_def\<close>)
next
  case (transfer j opened metadata start turns out ops res)
  then have mac: "is_valid_mac m" if "jb_mac j = Some m" for m using that inv by (auto simp: suite_inv_def)
  from transfer_calls [OF transfer(4) _ mac] have "suite_inv (add_calls ops s)" using inv by (blast intro: suite_inv_add_calls)
  moreover obtain n where "length (su_jobs s) = Suc n" using transfer(3) by (cases "length (su_jobs s)") auto
  ultimately show ?thesis using transfer(2,3)
    by (auto simp: suite_inv_def end_job_def add_calls_def length_remove1 dest: notin_set_remove1)
next
  case sweep
  with inv show ?thesis by (simp add: suite_inv_def add_calls_def good_call_def)
next
  case (reload name input w out)
  with inv watch_step_valid [of parse_yaml name "su_watch s" input w] show ?thesis
    by (auto simp: suite_inv_def split: option.splits)
next
  case (call ps op ops qs now)
  then have "good_call op" using inv by (auto simp: suite_inv_def)
  with inv call show ?thesis by (auto simp: suite_inv_def wf_apply_op macs_valid_call)
qed

lemma suite_inv_run: "suite_run order parse_yaml evs s \<Longrightarrow> yields_values order \<Longrightarrow> suite_inv s"
proof (induction rule: suite_run.induct)
  case (start content config)
  from load_config_valid [OF start(1)] show ?case
    by (simp add: suite_inv_def suite_start_def macs_valid_def new_store_def [symmetric]) (simp add: new_store_def)
next
  case (step evs s e s')
  then show ?case by (blast intro: suite_inv_step)
qed

lemma suite_inv_reachable: "suite_reachable order parse_yaml s \<Longrightarrow> yields_values order \<Longrightarrow> suite_inv s"
  by (auto simp: suite_reachable_def suite_inv_run)

section \<open>Properties\<close>

text \<open>
  C6. The suite is safe under every interleaving: in every reachable state, whatever packets,
  requests, file events and transfer endings there were, the shared configuration is valid,
  every tracked host and every log event carries a valid MAC, the hosts, the log and the
  transfers are within their limits.
\<close>

theorem suite_safe:
  assumes "suite_reachable order parse_yaml s" "yields_values order"
  shows "valid_config (su_config s)
    \<and> (\<forall>k h. fmlookup (ss_hosts (su_store s)) k = Some h \<longrightarrow> hs_mac h = k \<and> is_valid_mac k)
    \<and> (\<forall>e \<in> set (list_logs (su_store s)). \<exists>m. le_mac e = Some m \<and> is_valid_mac m)
    \<and> fm_size (ss_hosts (su_store s)) \<le> 4096 \<and> length (list_logs (su_store s)) \<le> 200
    \<and> length (su_jobs s) \<le> 128"
proof -
  have "valid_config (su_config s)" "wf_store (su_store s)" "macs_valid (su_store s)"
    "length (su_jobs s) + su_slots s = MAX_CONCURRENT_TRANSFERS"
    using suite_inv_reachable [OF assms] by (simp_all add: suite_inv_def)
  then show ?thesis
    by (auto simp: wf_store_def macs_valid_def list_logs_def MAX_TRACKED_HOSTS_def MAX_LOGS_def MAX_CONCURRENT_TRANSFERS_def)
qed

lemma sample_order_values: "yields_values sample_order"
  by (auto simp: yields_values_def sample_order_def ran_def split: option.splits)

text \<open>A reachable state with a tracked host: a poll was received and its call executed.\<close>

lemma suite_safe_witness:
  "\<exists>s. suite_reachable sample_order (\<lambda>_. Some sample_yaml) s
    \<and> get_host ''52-54-00-AB-CD-02'' (su_store s) \<noteq> None \<and> valid_config (su_config s)
    \<and> is_valid_mac ''52:54:00:ab:cd:02''"
proof -
  define addr where "addr = SocketAddr (V4 [10, 0, 0, 9]) 99"
  define op where "op = UpdateHost ''52:54:00:ab:cd:02'' Polling None None (Some (ip_to_string (addr_ip addr))) None"
  define s0 where "s0 = suite_start sample_config"
  have "suite_reachable sample_order (\<lambda>_. Some sample_yaml) s0"
    unfolding s0_def using sample_load [of undefined] by (rule suite_reachable_start)
  moreover obtain resp where "http_handle sample_http (su_config s0) (su_store s0) token_headers addr (GetPoll ''52-54-00-AB-CD-02'') = (resp, [op])"
  proof
    show "http_handle sample_http (su_config s0) (su_store s0) token_headers addr (GetPoll ''52-54-00-AB-CD-02'')
      = (plain_text 200 (retry_script (host_header token_headers) ''52:54:00:ab:cd:02''), [op])"
      by (simp add: http_handle_def sample_http_def poll_handler_def sample_override_mac sample_decide s0_def suite_start_def op_def Let_def)
  qed
  ultimately have r1: "suite_reachable sample_order (\<lambda>_. Some sample_yaml) (add_calls [op] s0)"
    by (blast intro: suite_reachable_step suite_step.http)
  define s2 where "s2 = (add_calls [op] s0)\<lparr>su_store := apply_op 5 op new_store, su_pending := [[]]\<rparr>"
  have pending: "su_pending (add_calls [op] s0) = [] @ (op # []) # []" and store: "su_store (add_calls [op] s0) = new_store"
    by (simp_all add: add_calls_def s0_def suite_start_def)
  from suite_step.call [OF pending, of sample_order "\<lambda>_. Some sample_yaml" 5]
  have "suite_step sample_order (\<lambda>_. Some sample_yaml) (Called op) (add_calls [op] s0) s2" by (simp add: s2_def store)
  with r1 have r2: "suite_reachable sample_order (\<lambda>_. Some sample_yaml) s2" by (rule suite_reachable_step)
  have "su_store s2 = apply_op 5 op new_store" by (simp add: s2_def)
  then have "fmlookup (ss_hosts (su_store s2)) ''52:54:00:ab:cd:02'' \<noteq> None"
    using new_store_room [of "''52:54:00:ab:cd:02''"] sample_override_mac(2)
    by (simp add: op_def store_simps normalize_valid_mac)
  moreover from this obtain h where "fmlookup (ss_hosts (su_store s2)) ''52:54:00:ab:cd:02'' = Some h" by blast
  ultimately show ?thesis
    using suite_safe [OF r2 sample_order_values] r2 by (auto simp: get_host_def sample_override_mac)
qed

end
