(* ===== verification/Led.thy ===== *)
theory Led
  imports State_Store
begin

text \<open>
  \<^verbatim>\<open>crates/bootycall-led/src/lib.rs\<close>: the two status LEDs. The LEDs are the files below
  \<^verbatim>\<open>/sys/class/leds\<close>; a write succeeds or fails as the plan of the hardware says (past its
  end it succeeds) and a failed write leaves the LED. The tasks are functions of the events
  they wait for. The lemmas show that the cached writes of the manager keep the cache equal
  to the hardware as long as nobody else writes, so that the LEDs show what they should.
\<close>

section \<open>The hardware\<close>

definition LED_BLUE_PATH :: string where "LED_BLUE_PATH = ''/sys/class/leds/blue/brightness''"
definition LED_WHITE_PATH :: string where "LED_WHITE_PATH = ''/sys/class/leds/white/brightness''"
definition LED_TEST_BLINK_CYCLES :: nat where "LED_TEST_BLINK_CYCLES = 10"

lemma led_paths [simp]: "LED_BLUE_PATH \<noteq> LED_WHITE_PATH" "LED_WHITE_PATH \<noteq> LED_BLUE_PATH"
  by (simp_all add: LED_BLUE_PATH_def LED_WHITE_PATH_def)

record leds =
  le_plan :: "bool list"
  le_value :: "string \<Rightarrow> u8"

definition set_led :: "string \<Rightarrow> u8 \<Rightarrow> leds \<Rightarrow> leds \<times> (unit + unit)" where
  "set_led path v hw =
     (case le_plan hw of
        [] \<Rightarrow> (hw\<lparr>le_value := (le_value hw)(path := v)\<rparr>, Inr ())
      | ok # plan \<Rightarrow>
          if ok then (\<lparr>le_plan = plan, le_value = (le_value hw)(path := v)\<rparr>, Inr ())
          else (hw\<lparr>le_plan := plan\<rparr>, Inl ()))"

definition set_led_cached_with ::
  "(string \<Rightarrow> u8 \<Rightarrow> 'h \<Rightarrow> 'h \<times> (unit + unit)) \<Rightarrow> string \<Rightarrow> u8 \<Rightarrow> u8 option \<Rightarrow> 'h \<Rightarrow> 'h \<times> u8 option" where
  "set_led_cached_with writer path v last_value hw =
     (if Some v = last_value then (hw, last_value)
      else (case writer path v hw of
              (hw', Inr _) \<Rightarrow> (hw', Some v)
            | (hw', Inl _) \<Rightarrow> (hw', last_value)))"

definition set_led_cached :: "string \<Rightarrow> u8 \<Rightarrow> u8 option \<Rightarrow> leds \<Rightarrow> leds \<times> u8 option" where
  "set_led_cached = set_led_cached_with set_led"

definition activate_blue_led :: "leds \<Rightarrow> leds" where
  "activate_blue_led hw = fst (set_led LED_WHITE_PATH 0 (fst (set_led LED_BLUE_PATH 255 hw)))"

definition activate_white_led :: "leds \<Rightarrow> leds" where
  "activate_white_led hw = fst (set_led LED_BLUE_PATH 0 (fst (set_led LED_WHITE_PATH 255 hw)))"

section \<open>The boot blink\<close>

text \<open>One 500 ms sleep of the loop, and the loop over the sleeps before the stop message.\<close>

definition blink_tick :: "bool \<times> leds \<Rightarrow> bool \<times> leds" where
  "blink_tick s =
     (case s of (state, hw) \<Rightarrow>
        (\<not> state,
         if state then fst (set_led LED_BLUE_PATH 0 (fst (set_led LED_WHITE_PATH 255 hw)))
         else fst (set_led LED_BLUE_PATH 0 (fst (set_led LED_WHITE_PATH 0 hw)))))"

definition run_boot_blink :: "nat \<Rightarrow> leds \<Rightarrow> leds" where
  "run_boot_blink sleeps hw = activate_blue_led (snd ((blink_tick ^^ sleeps) (False, hw)))"

section \<open>The manager\<close>

record led_manager =
  lm_state :: bool
  lm_blue :: "u8 option"
  lm_white :: "u8 option"

definition new_manager :: led_manager where
  "new_manager = \<lparr>lm_state = False, lm_blue = None, lm_white = None\<rparr>"

definition show_leds :: "u8 \<Rightarrow> u8 \<Rightarrow> led_manager \<times> leds \<Rightarrow> led_manager \<times> leds" where
  "show_leds blue white s =
     (case s of (m, hw) \<Rightarrow>
        (case set_led_cached LED_BLUE_PATH blue (lm_blue m) hw of
           (hw1, b) \<Rightarrow>
             (case set_led_cached LED_WHITE_PATH white (lm_white m) hw1 of
                (hw2, w) \<Rightarrow> (m\<lparr>lm_blue := b, lm_white := w\<rparr>, hw2))))"

text \<open>One sleep of the loop; \<open>active\<close> was read from the store before it.\<close>

definition manager_tick :: "bool \<Rightarrow> led_manager \<times> leds \<Rightarrow> led_manager \<times> leds" where
  "manager_tick active s =
     (let state = lm_state (fst s) in
      if active then
        (case show_leds (if state then 255 else 0) 0 s of (m, hw) \<Rightarrow> (m\<lparr>lm_state := \<not> state\<rparr>, hw))
      else (case show_leds 255 0 s of (m, hw) \<Rightarrow> (m\<lparr>lm_state := True\<rparr>, hw)))"

definition manager_stop :: "led_manager \<times> leds \<Rightarrow> led_manager \<times> leds" where
  "manager_stop s =
     (case s of (m, hw) \<Rightarrow>
        (case set_led_cached LED_WHITE_PATH 255 (lm_white m) hw of
           (hw1, w) \<Rightarrow>
             (case set_led_cached LED_BLUE_PATH 0 (lm_blue m) hw1 of
                (hw2, b) \<Rightarrow> (m\<lparr>lm_blue := b, lm_white := w\<rparr>, hw2))))"

text \<open>The activity the loop reads: a host seen within the last 30 seconds.\<close>

definition led_active :: "int \<Rightarrow> state_store \<Rightarrow> bool" where
  "led_active now st = has_recent_activity now (from_secs 30) st"

definition manager_loop :: "bool list \<Rightarrow> leds \<Rightarrow> led_manager \<times> leds" where
  "manager_loop readings hw = fold manager_tick readings (new_manager, hw)"

definition run_led_manager :: "(int \<times> state_store) list \<Rightarrow> leds \<Rightarrow> leds" where
  "run_led_manager readings hw =
     snd (manager_stop (manager_loop (map (\<lambda>(now, st). led_active now st) readings) hw))"

section \<open>The LED test\<close>

definition blink_cycle :: "string \<Rightarrow> string \<Rightarrow> leds \<Rightarrow> leds" where
  "blink_cycle on off hw =
     fst (set_led off 0 (fst (set_led on 0 (fst (set_led off 0 (fst (set_led on 255 hw)))))))"

definition led_test :: "string \<Rightarrow> bool \<Rightarrow> leds \<Rightarrow> leds \<times> (string + unit)" where
  "led_test color blinking hw =
     (case (if color = ''blue'' then Some (Some LED_BLUE_PATH, LED_WHITE_PATH)
            else if color = ''white'' then Some (Some LED_WHITE_PATH, LED_BLUE_PATH)
            else if color = ''off'' then Some (None, LED_WHITE_PATH)
            else None) of
        None \<Rightarrow> (hw, Inl (''Unknown LED color: '' @ color @ ''. Valid colors are blue, white, off.''))
      | Some (None, _) \<Rightarrow> (fst (set_led LED_WHITE_PATH 0 (fst (set_led LED_BLUE_PATH 0 hw))), Inr ())
      | Some (Some on, off) \<Rightarrow>
          (if blinking then ((blink_cycle on off ^^ LED_TEST_BLINK_CYCLES) hw, Inr ())
           else (fst (set_led off 0 (fst (set_led on 255 hw))), Inr ())))"

section \<open>A cached output\<close>

text \<open>
  The contract of a cached write, for any writer that sets the value it writes and leaves
  the other outputs, or fails and changes none.
\<close>

locale cached_output =
  fixes writer :: "string \<Rightarrow> u8 \<Rightarrow> 'h \<Rightarrow> 'h \<times> (unit + unit)"
    and value_of :: "'h \<Rightarrow> string \<Rightarrow> u8"
    and reliable :: "'h \<Rightarrow> bool"
  assumes write_ok: "writer path v hw = (hw', Inr u) \<Longrightarrow> value_of hw' = (value_of hw)(path := v)"
    and write_failed: "writer path v hw = (hw', Inl u) \<Longrightarrow> value_of hw' = value_of hw"
    and write_reliable: "reliable hw \<Longrightarrow> writer path v hw = (hw', r) \<Longrightarrow> r = Inr () \<and> reliable hw'"
begin

definition cached :: "string \<Rightarrow> u8 option \<Rightarrow> 'h \<Rightarrow> bool" where
  "cached path last_value hw \<longleftrightarrow> (\<forall>v. last_value = Some v \<longrightarrow> value_of hw path = v)"

lemma cached_write:
  assumes "set_led_cached_with writer path v last_value hw = (hw', last')" "cached path last_value hw"
  shows "cached path last' hw'" and "p \<noteq> path \<Longrightarrow> value_of hw' p = value_of hw p"
  using assms write_ok [of path v hw] write_failed [of path v hw]
  by (auto simp: set_led_cached_with_def cached_def split: if_splits prod.splits sum.splits)

lemma reliable_write:
  assumes "set_led_cached_with writer path v last_value hw = (hw', last')" "cached path last_value hw" "reliable hw"
  shows "value_of hw' path = v" and "reliable hw'"
  using assms write_ok [of path v hw] write_reliable [of hw path v]
  by (fastforce simp: set_led_cached_with_def cached_def split: if_splits prod.splits sum.splits)+

end

interpretation led_file: cached_output set_led le_value "\<lambda>hw. le_plan hw = []"
  by unfold_locales (auto simp: set_led_def split: list.splits if_splits)

section \<open>The manager keeps its cache\<close>

definition coherent :: "led_manager \<times> leds \<Rightarrow> bool" where
  "coherent s \<longleftrightarrow> led_file.cached LED_BLUE_PATH (lm_blue (fst s)) (snd s)
     \<and> led_file.cached LED_WHITE_PATH (lm_white (fst s)) (snd s)"

lemma cached_frame: "le_value hw' p = le_value hw p \<Longrightarrow> led_file.cached p lv hw' = led_file.cached p lv hw"
  by (simp add: led_file.cached_def)

text \<open>Two cached writes to different LEDs, whatever fails.\<close>

lemma two_writes:
  assumes "p \<noteq> q" "led_file.cached p lp hw" "led_file.cached q lq hw"
    and "set_led_cached p v lp hw = (hw1, lp')" "set_led_cached q w lq hw1 = (hw2, lq')"
  shows "led_file.cached p lp' hw2 \<and> led_file.cached q lq' hw2
    \<and> (le_plan hw = [] \<longrightarrow> le_value hw2 p = v \<and> le_value hw2 q = w \<and> le_plan hw2 = [])"
proof -
  note w1 = assms(4) [unfolded set_led_cached_def] and w2 = assms(5) [unfolded set_led_cached_def]
  have q1: "led_file.cached q lq hw1"
    using led_file.cached_write(2) [OF w1 assms(2), of q] cached_frame [of hw1 q hw] assms(1,3) by simp
  have p2: "le_value hw2 p = le_value hw1 p" using led_file.cached_write(2) [OF w2 q1, of p] assms(1) by simp
  have "led_file.cached p lp' hw2" using led_file.cached_write(1) [OF w1 assms(2)] cached_frame [OF p2] by simp
  moreover have "led_file.cached q lq' hw2" using led_file.cached_write(1) [OF w2 q1] .
  moreover have "le_value hw2 p = v \<and> le_value hw2 q = w \<and> le_plan hw2 = []" if "le_plan hw = []"
  proof -
    from led_file.reliable_write [OF w1 assms(2) that] have r1: "le_value hw1 p = v" "le_plan hw1 = []" by blast+
    from led_file.reliable_write [OF w2 q1 this(2)] p2 r1(1) show ?thesis by simp
  qed
  ultimately show ?thesis by blast
qed

lemma show_leds_spec:
  assumes "coherent s" "show_leds blue white s = s'"
  shows "coherent s' \<and> lm_state (fst s') = lm_state (fst s)
    \<and> (le_plan (snd s) = [] \<longrightarrow> le_value (snd s') LED_BLUE_PATH = blue \<and> le_value (snd s') LED_WHITE_PATH = white
         \<and> le_plan (snd s') = [])"
proof -
  obtain m hw where s: "s = (m, hw)" by (cases s)
  obtain hw1 b where 1: "set_led_cached LED_BLUE_PATH blue (lm_blue m) hw = (hw1, b)" by fastforce
  obtain hw2 w where 2: "set_led_cached LED_WHITE_PATH white (lm_white m) hw1 = (hw2, w)" by fastforce
  have "s' = (m\<lparr>lm_blue := b, lm_white := w\<rparr>, hw2)" using assms(2) by (simp add: show_leds_def s 1 2)
  with two_writes [OF _ _ _ 1 2] assms(1) s show ?thesis by (simp add: coherent_def)
qed

lemma coherent_new: "coherent (new_manager, hw)"
  by (simp add: coherent_def new_manager_def led_file.cached_def)

lemma coherent_state [simp]: "coherent (m\<lparr>lm_state := b\<rparr>, hw) = coherent (m, hw)"
  by (simp add: coherent_def)

definition blink_phase :: "bool list \<Rightarrow> bool" where
  "blink_phase readings = fold (\<lambda>active state. if active then \<not> state else True) readings False"

definition wanted_blue :: "bool \<Rightarrow> bool \<Rightarrow> u8" where
  "wanted_blue phase active = (if active \<and> \<not> phase then 0 else 255)"

lemma manager_tick_spec:
  assumes "coherent s" "manager_tick active s = s'"
  shows "coherent s' \<and> lm_state (fst s') = (if active then \<not> lm_state (fst s) else True)
    \<and> (le_plan (snd s) = [] \<longrightarrow> le_value (snd s') LED_BLUE_PATH = wanted_blue (lm_state (fst s)) active
         \<and> le_value (snd s') LED_WHITE_PATH = 0 \<and> le_plan (snd s') = [])"
proof -
  obtain m hw where r: "show_leds (wanted_blue (lm_state (fst s)) active) 0 s = (m, hw)" by fastforce
  have "s' = (m\<lparr>lm_state := (if active then \<not> lm_state (fst s) else True)\<rparr>, hw)"
    using assms(2) r by (auto simp: manager_tick_def wanted_blue_def Let_def split: if_splits)
  with show_leds_spec [OF assms(1) r] show ?thesis by simp
qed

lemma manager_loop_spec: "coherent (manager_loop readings hw) \<and> lm_state (fst (manager_loop readings hw)) = blink_phase readings"
proof (induction readings rule: rev_induct)
  case Nil
  show ?case by (simp add: manager_loop_def coherent_new blink_phase_def) (simp add: new_manager_def)
next
  case (snoc active readings)
  have "manager_loop (readings @ [active]) hw = manager_tick active (manager_loop readings hw)" by (simp add: manager_loop_def)
  with manager_tick_spec [OF conjunct1 [OF snoc] refl] snoc show ?case by (simp add: blink_phase_def)
qed

lemma manager_stop_spec:
  assumes "coherent s" "le_plan (snd s) = []"
  shows "le_value (snd (manager_stop s)) LED_WHITE_PATH = 255 \<and> le_value (snd (manager_stop s)) LED_BLUE_PATH = 0"
proof -
  obtain m hw where s: "s = (m, hw)" by (cases s)
  obtain hw1 w where 1: "set_led_cached LED_WHITE_PATH 255 (lm_white m) hw = (hw1, w)" by fastforce
  obtain hw2 b where 2: "set_led_cached LED_BLUE_PATH 0 (lm_blue m) hw1 = (hw2, b)" by fastforce
  from two_writes [OF _ _ _ 1 2] assms show ?thesis by (simp add: coherent_def s manager_stop_def 1 2)
qed

section \<open>Properties\<close>

text \<open>
  The LEDs show the state of the suite: whatever writes failed before, a tick whose
  writes succeed leaves the white LED off and the blue one on, or alternating while a
  deployment is active; and a shutdown whose writes succeed leaves white on and blue off.
\<close>

theorem leds_show_activity:
  assumes "manager_loop readings hw = s" "le_plan (snd s) = []"
  shows "le_value (snd (manager_tick active s)) LED_WHITE_PATH = 0
    \<and> le_value (snd (manager_tick active s)) LED_BLUE_PATH = (if active \<and> \<not> blink_phase readings then 0 else 255)
    \<and> le_value (snd (manager_stop s)) LED_WHITE_PATH = 255 \<and> le_value (snd (manager_stop s)) LED_BLUE_PATH = 0"
proof -
  have "coherent s" "lm_state (fst s) = blink_phase readings" using manager_loop_spec [of readings hw] assms(1) by auto
  with manager_tick_spec [OF this(1) refl, of active] manager_stop_spec [OF this(1)] assms(2) show ?thesis
    by (simp add: wanted_blue_def)
qed

lemma leds_show_activity_witness:
  "le_value (snd (manager_tick True (manager_loop [True, False, True] \<lparr>le_plan = [True, False], le_value = \<lambda>_. 7\<rparr>))) LED_BLUE_PATH = 0"
proof -
  have "le_plan (snd (manager_loop [True, False, True] \<lparr>le_plan = [True, False], le_value = \<lambda>_. 7\<rparr>)) = []"
    by (simp add: manager_loop_def manager_tick_def show_leds_def set_led_cached_def set_led_cached_with_def set_led_def
        new_manager_def Let_def)
  from leds_show_activity [OF refl this, of True] show ?thesis by (simp add: blink_phase_def)
qed

lemma white_stays:
  assumes "lm_white (fst s) = Some 0" "le_value (snd s) LED_WHITE_PATH = 255"
  shows "lm_white (fst (manager_tick active s)) = Some 0 \<and> le_value (snd (manager_tick active s)) LED_WHITE_PATH = 255"
  using assms
  by (cases s)
    (auto simp: manager_tick_def show_leds_def set_led_cached_def set_led_cached_with_def set_led_def Let_def
      split: list.splits)

lemma white_stays_run:
  "lm_white (fst s) = Some 0 \<Longrightarrow> le_value (snd s) LED_WHITE_PATH = 255 \<Longrightarrow>
   le_value (snd (fold manager_tick readings s)) LED_WHITE_PATH = 255"
  by (induction readings arbitrary: s) (simp_all add: white_stays)

lemma white_cached:
  assumes "coherent s" "le_plan (snd s) = []"
  shows "lm_white (fst (manager_tick active s)) = Some 0 \<and> le_plan (snd (manager_tick active s)) = []"
  using assms
  by (cases s)
    (auto simp: manager_tick_def show_leds_def set_led_cached_def set_led_cached_with_def set_led_def Let_def
      split: list.splits)

text \<open>
  After a panic the white LED is stuck: the panic hook writes the LEDs behind the
  manager's cache, and from then on no tick of the manager turns the white LED off again,
  whatever the activity, though the suite runs on.
\<close>

theorem panic_leaves_white:
  assumes "manager_loop readings hw = s" "le_plan (snd s) = []" "manager_tick active s = (m, hw')"
  shows "le_value (snd (fold manager_tick later (m, activate_white_led hw'))) LED_WHITE_PATH = 255"
proof (rule white_stays_run)
  have "coherent s" using manager_loop_spec [of readings hw] assms(1) by simp
  from white_cached [OF this assms(2), of active] assms(3)
  show "lm_white (fst (m, activate_white_led hw')) = Some 0" by simp
  from white_cached [OF \<open>coherent s\<close> assms(2), of active] assms(3)
  show "le_value (snd (m, activate_white_led hw')) LED_WHITE_PATH = 255"
    by (simp add: activate_white_led_def set_led_def)
qed

lemma panic_leaves_white_witness:
  "\<exists>m hw'. manager_tick False (manager_loop [] \<lparr>le_plan = [], le_value = \<lambda>_. 7\<rparr>) = (m, hw')
    \<and> le_value (snd (fold manager_tick [False, True, False] (m, activate_white_led hw'))) LED_WHITE_PATH = 255"
proof -
  obtain m hw' where run: "manager_tick False (manager_loop [] \<lparr>le_plan = [], le_value = \<lambda>_. 7\<rparr>) = (m, hw')" by fastforce
  have "le_plan (snd (manager_loop [] \<lparr>le_plan = [], le_value = \<lambda>_. 7\<rparr>)) = []" by (simp add: manager_loop_def)
  from panic_leaves_white [OF refl this run] run show ?thesis by blast
qed

end
