(* ===== verification/Panel.thy ===== *)
theory Panel
  imports Rust_Str
begin

text \<open>
  \<^verbatim>\<open>crates/bootycall-oled/src/framebuffer.rs\<close>: the grayscale back buffer, its lookup table to
  RGB565 and the packing for the panel. The device is the answers of the system calls:
  whether opening succeeds and how a write ends. The lemmas give the invariant of the
  framebuffer and what the packed bytes are for every pixel, brightness and rotation.
\<close>

section \<open>Geometry\<close>

definition WIDTH :: nat where "WIDTH = 160"
definition HEIGHT :: nat where "HEIGHT = 60"
definition BITS_PER_PIXEL :: nat where "BITS_PER_PIXEL = 16"
definition FULL_BRIGHTNESS :: u8 where "FULL_BRIGHTNESS = 255"

record fb_geometry =
  geo_xres :: nat
  geo_yres :: nat
  geo_bits_per_pixel :: nat

definition split_once :: "char \<Rightarrow> string \<Rightarrow> (string \<times> string) option" where
  "split_once c s =
     (if c \<in> set s then Some (takeWhile (\<lambda>d. d \<noteq> c) s, tl (dropWhile (\<lambda>d. d \<noteq> c) s)) else None)"

definition parse_u32 :: "string \<Rightarrow> nat option" where
  "parse_u32 s = parse_uint (2 ^ 32) s"

definition parse_fb_geometry :: "string \<Rightarrow> string \<Rightarrow> fb_geometry option" where
  "parse_fb_geometry virtual_size bits_per_pixel =
     (case split_once (CHR '','') (trim virtual_size) of
        None \<Rightarrow> None
      | Some (x, y) \<Rightarrow>
          (case parse_u32 (trim x) of
             None \<Rightarrow> None
           | Some xr \<Rightarrow>
               (case parse_u32 (trim y) of
                  None \<Rightarrow> None
                | Some yr \<Rightarrow>
                    (case parse_u32 (trim bits_per_pixel) of
                       None \<Rightarrow> None
                     | Some bpp \<Rightarrow> Some \<lparr>geo_xres = xr, geo_yres = yr, geo_bits_per_pixel = bpp\<rparr>))))"

text \<open>The two files, as \<open>read_to_string\<close> gives them.\<close>

definition read_fb_geometry :: "string option \<Rightarrow> string option \<Rightarrow> fb_geometry option" where
  "read_fb_geometry virtual_size bits_per_pixel =
     (case virtual_size of
        None \<Rightarrow> None
      | Some vs \<Rightarrow> (case bits_per_pixel of None \<Rightarrow> None | Some bpp \<Rightarrow> parse_fb_geometry vs bpp))"

section \<open>The lookup table and the packing\<close>

definition lut_entry :: "u8 \<Rightarrow> nat \<Rightarrow> u16" where
  "lut_entry brightness g =
     (let scaled = of_nat (g * unat brightness div 255) :: u64;
          r5 = drop_bit 3 scaled AND 0x1F;
          g6 = drop_bit 2 scaled AND 0x3F;
          b5 = drop_bit 3 scaled AND 0x1F;
          val = ucast ((push_bit 11 r5 OR push_bit 5 g6) OR b5) :: u16
      in push_bit 8 (val AND 0xFF) OR (drop_bit 8 val AND 0xFF))"

definition build_lut :: "u8 \<Rightarrow> u16 list" where
  "build_lut brightness = map (lut_entry brightness) [0..<256]"

definition pack_pixel :: "u16 list \<Rightarrow> u8 \<Rightarrow> bytes" where
  "pack_pixel lut gray =
     (let rgb565 = lut ! unat gray in [ucast (rgb565 AND 0xFF), ucast (drop_bit 8 rgb565)])"

definition pack_buffer :: "bytes \<Rightarrow> u16 list \<Rightarrow> u16 \<Rightarrow> bytes" where
  "pack_buffer buffer lut rotation =
     (if rotation = 0 then concat (map (pack_pixel lut) (rev buffer))
      else concat (map (pack_pixel lut) buffer))"

section \<open>The framebuffer\<close>

record framebuffer =
  fb_buffer :: bytes
  fb_lut :: "u16 list"
  fb_brightness :: u8
  fb_file :: bool
  fb_rotation :: u16

definition with_brightness :: "bool \<Rightarrow> u8 \<Rightarrow> framebuffer" where
  "with_brightness opens brightness =
     \<lparr>fb_buffer = replicate (WIDTH * HEIGHT) 0, fb_lut = build_lut brightness, fb_brightness = brightness,
      fb_file = opens, fb_rotation = 180\<rparr>"

definition new_framebuffer :: "bool \<Rightarrow> framebuffer" where
  "new_framebuffer opens = with_brightness opens FULL_BRIGHTNESS"

definition set_brightness :: "u8 \<Rightarrow> framebuffer \<Rightarrow> framebuffer" where
  "set_brightness brightness fb =
     (if brightness \<noteq> fb_brightness fb then fb\<lparr>fb_brightness := brightness, fb_lut := build_lut brightness\<rparr> else fb)"

definition clear :: "framebuffer \<Rightarrow> framebuffer" where
  "clear fb = fb\<lparr>fb_buffer := replicate (length (fb_buffer fb)) 0\<rparr>"

definition set_pixel :: "nat \<Rightarrow> nat \<Rightarrow> u8 \<Rightarrow> framebuffer \<Rightarrow> framebuffer" where
  "set_pixel x y color fb =
     (if x < WIDTH \<and> y < HEIGHT then fb\<lparr>fb_buffer := (fb_buffer fb)[y * WIDTH + x := color]\<rparr> else fb)"

definition ensure_open :: "bool \<Rightarrow> framebuffer \<Rightarrow> framebuffer \<times> bool" where
  "ensure_open opens fb =
     (let fb' = (if \<not> fb_file fb then fb\<lparr>fb_file := opens\<rparr> else fb) in (fb', fb_file fb'))"

text \<open>\<open>written\<close> is how the seek and the write end; the bytes written are part of the result.\<close>

definition write_packed :: "io_error option \<Rightarrow> framebuffer \<Rightarrow> framebuffer \<times> bool io \<times> bytes option" where
  "write_packed written fb =
     (if \<not> fb_file fb then (fb, Inr False, None)
      else
        (let packed = pack_buffer (fb_buffer fb) (fb_lut fb) (fb_rotation fb) in
         case written of
           Some e \<Rightarrow> (fb\<lparr>fb_file := False\<rparr>, Inl e, None)
         | None \<Rightarrow> (fb, Inr True, Some packed)))"

definition flush :: "bool \<Rightarrow> io_error option \<Rightarrow> framebuffer \<Rightarrow> framebuffer \<times> unit io \<times> bytes option" where
  "flush opens written fb =
     (case write_packed written (fst (ensure_open opens fb)) of
        (fb', Inl e, out) \<Rightarrow> (fb', Inl e, out)
      | (fb', Inr True, out) \<Rightarrow> (fb', Inr (), out)
      | (fb', Inr False, out) \<Rightarrow> (fb', Inl NotFound, out))"

section \<open>The invariant\<close>

text \<open>The buffer covers the panel and the table belongs to the brightness.\<close>

definition fb_wf :: "framebuffer \<Rightarrow> bool" where
  "fb_wf fb \<longleftrightarrow> length (fb_buffer fb) = WIDTH * HEIGHT \<and> fb_lut fb = build_lut (fb_brightness fb)"

lemma fb_wf_new [simp]: "fb_wf (with_brightness opens brightness)"
  by (simp add: fb_wf_def with_brightness_def)

lemma fb_wf_set_brightness [simp]: "fb_wf fb \<Longrightarrow> fb_wf (set_brightness brightness fb)"
  by (simp add: fb_wf_def set_brightness_def)

lemma fb_wf_clear [simp]: "fb_wf fb \<Longrightarrow> fb_wf (clear fb)"
  by (simp add: fb_wf_def clear_def)

lemma fb_wf_set_pixel [simp]: "fb_wf fb \<Longrightarrow> fb_wf (set_pixel x y color fb)"
  by (simp add: fb_wf_def set_pixel_def)

lemma fb_wf_ensure_open [simp]: "fb_wf fb \<Longrightarrow> fb_wf (fst (ensure_open opens fb))"
  by (simp add: fb_wf_def ensure_open_def Let_def)

lemma fb_wf_write [simp]: "fb_wf fb \<Longrightarrow> fb_wf (fst (write_packed written fb))"
  by (simp add: fb_wf_def write_packed_def Let_def split: option.split)

section \<open>What the panel receives\<close>

text \<open>The intensity a gray level is shown at, and its RGB565 value.\<close>

definition dimmed :: "u8 \<Rightarrow> u8 \<Rightarrow> nat" where
  "dimmed brightness gray = unat gray * unat brightness div 255"

definition rgb565 :: "nat \<Rightarrow> nat" where
  "rgb565 s = 2048 * (s div 8) + 32 * (s div 4) + s div 8"

lemma dimmed_le: "dimmed brightness gray \<le> unat gray"
proof -
  have "unat gray * unat brightness \<le> unat gray * 255" using unat_u8_less [of brightness] by (intro mult_left_mono) auto
  then have "unat gray * unat brightness div 255 \<le> unat gray * 255 div 255" by (rule div_le_mono)
  then show ?thesis by (simp add: dimmed_def)
qed

lemma dimmed_full [simp]: "dimmed FULL_BRIGHTNESS gray = unat gray"
  by (simp add: dimmed_def FULL_BRIGHTNESS_def)

text \<open>The bytes of a table entry come out swapped, so the high byte of the value goes first.\<close>

lemma swapped_bytes:
  fixes v :: u16
  defines "w \<equiv> push_bit 8 (v AND 0xFF) OR (drop_bit 8 v AND 0xFF)"
  shows "(ucast (w AND 0xFF) :: u8) = ucast (drop_bit 8 v)" "(ucast (drop_bit 8 w) :: u8) = ucast v"
proof -
  have m: "(0xFF :: u16) = mask 8" by (simp add: mask_numeral)
  show "(ucast (w AND 0xFF) :: u8) = ucast (drop_bit 8 v)" "(ucast (drop_bit 8 w) :: u8) = ucast v"
    unfolding w_def m by (rule bit_word_eqI; auto simp: bit_simps)+
qed

lemma or_disjoint:
  fixes a b c :: nat
  assumes "b < 64" "c < 32"
  shows "(push_bit 11 a OR push_bit 5 b) OR c = 2048 * a + 32 * b + c"
proof -
  have b: "take_bit 6 b = b" and c: "take_bit 5 c = c" using assms by (simp_all add: take_bit_nat_eq_self)
  have "bit (push_bit 11 a) n \<Longrightarrow> \<not> bit (push_bit 5 b) n" for n
    by (subst b [symmetric]) (auto simp: bit_simps)
  then have "push_bit 11 a AND push_bit 5 b = 0" by (auto simp: bit_eq_iff bit_simps)
  then have 1: "push_bit 11 a OR push_bit 5 b = 2048 * a + 32 * b"
    by (simp add: disjunctive_add_eq_or [symmetric] push_bit_eq_mult)
  have "bit (2048 * a + 32 * b) n \<Longrightarrow> \<not> bit c n" for n
    by (subst c [symmetric]) (auto simp: bit_simps 1 [symmetric])
  then have "(2048 * a + 32 * b) AND c = 0" by (auto simp: bit_eq_iff bit_simps)
  then show ?thesis by (simp add: disjunctive_add_eq_or [symmetric] 1)
qed

lemma ucast_of_nat_unat: "(ucast (w :: 'a::len word) :: 'b::len word) = of_nat (unat w)"
  by (simp add: unsigned_def) 

lemma val_565:
  fixes x :: u64
  assumes "unat x = s" "s < 256"
  shows "(ucast ((push_bit 11 (drop_bit 3 x AND 0x1F) OR push_bit 5 (drop_bit 2 x AND 0x3F)) OR (drop_bit 3 x AND 0x1F)) :: u16)
    = of_nat (rgb565 s)"
proof -
  have m: "(0x1F :: u64) = mask 5" "(0x3F :: u64) = mask 6" by (simp_all add: mask_numeral)
  have r: "unat (drop_bit 3 x AND 0x1F) = s div 8" "unat (drop_bit 2 x AND 0x3F) = s div 4"
    using assms by (simp_all add: m take_bit_eq_mask [symmetric] unsigned_take_bit_eq unsigned_drop_bit_eq take_bit_nat_eq_self
      drop_bit_eq_div unat_div)
  have p: "unat (push_bit 11 (drop_bit 3 x AND 0x1F)) = push_bit 11 (s div 8)"
     "unat (push_bit 5 (drop_bit 2 x AND 0x3F)) = push_bit 5 (s div 4)"
  proof -
    have lt: "push_bit 11 (s div 8) < 2 ^ 64" "push_bit 5 (s div 4) < 2 ^ 64" using assms(2) by (simp_all add: push_bit_eq_mult)
    show "unat (push_bit 11 (drop_bit 3 x AND 0x1F)) = push_bit 11 (s div 8)"
     "unat (push_bit 5 (drop_bit 2 x AND 0x3F)) = push_bit 5 (s div 4)"
      unfolding unsigned_push_bit_eq r using lt by (simp_all add: take_bit_nat_eq_self)
  qed
  have "unat ((push_bit 11 (drop_bit 3 x AND 0x1F) OR push_bit 5 (drop_bit 2 x AND 0x3F)) OR (drop_bit 3 x AND 0x1F))
    = (push_bit 11 (s div 8) OR push_bit 5 (s div 4)) OR (s div 8)"
    by (simp only: unsigned_or_eq p r)
  also have "\<dots> = rgb565 s" using assms(2) by (subst or_disjoint) (auto simp: rgb565_def)
  finally show ?thesis by (simp only: ucast_of_nat_unat)
qed

lemma pack_pixel_lut: "pack_pixel (build_lut brightness) gray = to_be16 (of_nat (rgb565 (dimmed brightness gray)))"
proof -
  have s: "dimmed brightness gray < 256" using dimmed_le [of brightness gray] unat_u8_less [of gray] by linarith
  then have u: "unat (of_nat (dimmed brightness gray) :: u64) = dimmed brightness gray"
    by (simp add: unat_of_nat)
  note v = val_565 [OF u s]
  have g: "unat gray < 256" by (rule unat_u8_less)
  have be: "to_be16 w = [ucast (drop_bit 8 w), ucast w]" for w :: u16
  proof -
    have "(of_nat (unat w mod 256) :: u8) = of_nat (unat w)" unfolding word_unat_eq_iff unat_of_nat by simp
    moreover have "unat (drop_bit 8 w) = unat w div 256" by (simp add: unsigned_drop_bit_eq drop_bit_eq_div unat_div)
    ultimately show ?thesis by (simp only: to_be16_def ucast_of_nat_unat)
  qed
  define e :: u16 where "e = of_nat (rgb565 (dimmed brightness gray))"
  have "build_lut brightness ! unat gray = push_bit 8 (e AND 0xFF) OR (drop_bit 8 e AND 0xFF)"
    using g v by (simp only: build_lut_def lut_entry_def Let_def dimmed_def [symmetric] e_def nth_map length_upt nth_upt
        diff_zero add_0)
  then show ?thesis by (simp only: pack_pixel_def Let_def swapped_bytes be e_def)
qed

lemma length_pack: "length (pack_buffer buffer (build_lut brightness) rotation) = 2 * length buffer"
  by (simp add: pack_buffer_def length_concat comp_def pack_pixel_lut sum_list_triv)

section \<open>Properties\<close>



end
