(* ===== verification/Rust_Float.thy ===== *)
theory Rust_Float
  imports Rust_Str Complex_Main
begin

text \<open>
  The operations of Rust's \<open>f32\<close> and \<open>f64\<close> that the sources call: the rounding of an exact
  result to the nearest value of the format with ties to even, conversion of \<open>u64\<close>, division
  by a constant, comparison, \<open>parse\<close>, and display with one decimal. A value is a sign and a
  rational magnitude, an infinity, or not a number, so every operation is exact arithmetic
  followed by one rounding, as IEEE 754 prescribes. They model the standard library, so they
  have no entry under \<open>src/\<close>.
\<close>

section \<open>Values and rounding\<close>

datatype flt = Fin bool rat | Infinite bool | NaN

text \<open>The value of a finite number.\<close>

definition signed :: "bool \<Rightarrow> rat \<Rightarrow> rat" where
  "signed neg x = (if neg then - x else x)"

definition round_half_even :: "rat \<Rightarrow> int" where
  "round_half_even x =
     (let f = \<lfloor>x\<rfloor>; d = x - of_int f in
      if d < 1 / 2 then f else if d > 1 / 2 then f + 1 else if even f then f else f + 1)"

definition pow2 :: "int \<Rightarrow> rat" where
  "pow2 e = (if e \<ge> 0 then 2 ^ nat e else 1 / 2 ^ nat (- e))"

text \<open>The number of binary digits, and the exponent \<open>e\<close> with \<open>2 ^ e \<le> x < 2 ^ (e + 1)\<close>.\<close>

function bits :: "int \<Rightarrow> int" where
  "bits n = (if n \<le> 0 then 0 else bits (n div 2) + 1)"
  by pat_completeness auto
termination by (relation "measure nat") auto

declare bits.simps [simp del]

definition binade :: "rat \<Rightarrow> int" where
  "binade x =
     (case quotient_of x of (p, q) \<Rightarrow>
        (let e = bits p - bits q in if pow2 e \<le> x then e else e - 1))"

text \<open>A format: the digits of the significand, the least exponent of its last digit, and the exponent of overflow.\<close>

record flt_format =
  ff_digits :: int
  ff_min :: int
  ff_max :: int

definition f32 :: flt_format where "f32 = \<lparr>ff_digits = 24, ff_min = - 149, ff_max = 128\<rparr>"
definition f64 :: flt_format where "f64 = \<lparr>ff_digits = 53, ff_min = - 1074, ff_max = 1024\<rparr>"

lemma format_sels [simp]:
  "ff_digits f32 = 24" "ff_min f32 = - 149" "ff_max f32 = 128"
  "ff_digits f64 = 53" "ff_min f64 = - 1074" "ff_max f64 = 1024"
  by (simp_all add: f32_def f64_def)

definition round_to :: "flt_format \<Rightarrow> rat \<Rightarrow> rat" where
  "round_to F x =
     (if x = 0 then 0
      else (let e = max (binade x - (ff_digits F - 1)) (ff_min F) in of_int (round_half_even (x / pow2 e)) * pow2 e))"

definition mk_flt :: "flt_format \<Rightarrow> bool \<Rightarrow> rat \<Rightarrow> flt" where
  "mk_flt F neg x = (let y = round_to F x in if y \<ge> pow2 (ff_max F) then Infinite neg else Fin neg y)"

section \<open>Operations\<close>

definition flt_of_u64 :: "flt_format \<Rightarrow> u64 \<Rightarrow> flt" where
  "flt_of_u64 F n = mk_flt F False (of_int (uint n))"

definition flt_of_nat :: "flt_format \<Rightarrow> nat \<Rightarrow> flt" where
  "flt_of_nat F n = mk_flt F False (of_int (int n))"

definition flt_add :: "flt_format \<Rightarrow> flt \<Rightarrow> flt \<Rightarrow> flt" where
  "flt_add F a b =
     (case (a, b) of
        (NaN, _) \<Rightarrow> NaN
      | (_, NaN) \<Rightarrow> NaN
      | (Infinite n, Infinite m) \<Rightarrow> if n = m then Infinite n else NaN
      | (Infinite n, Fin _ _) \<Rightarrow> Infinite n
      | (Fin _ _, Infinite m) \<Rightarrow> Infinite m
      | (Fin n x, Fin m y) \<Rightarrow>
          (let s = signed n x + signed m y in if s = 0 then Fin (n \<and> m) 0 else mk_flt F (s < 0) \<bar>s\<bar>))"

text \<open>Multiplication with a positive number of the format, rounding up to a whole number, and the saturating cast.\<close>

definition flt_mul :: "flt_format \<Rightarrow> flt \<Rightarrow> rat \<Rightarrow> flt" where
  "flt_mul F a c = (case a of Fin neg x \<Rightarrow> mk_flt F neg (x * c) | Infinite neg \<Rightarrow> Infinite neg | NaN \<Rightarrow> NaN)"

definition flt_ceil :: "flt \<Rightarrow> flt" where
  "flt_ceil a = (case a of Fin neg x \<Rightarrow> Fin neg \<bar>of_int \<lceil>signed neg x\<rceil>\<bar> | _ \<Rightarrow> a)"

definition flt_cast :: "int \<Rightarrow> int \<Rightarrow> flt \<Rightarrow> int" where
  "flt_cast lo hi a =
     (case a of
        Fin neg x \<Rightarrow> max lo (min hi (if neg then - \<lfloor>x\<rfloor> else \<lfloor>x\<rfloor>))
      | Infinite neg \<Rightarrow> (if neg then lo else hi)
      | NaN \<Rightarrow> 0)"

text \<open>Division by a positive number of the format.\<close>

definition flt_div :: "flt_format \<Rightarrow> flt \<Rightarrow> rat \<Rightarrow> flt" where
  "flt_div F a c = (case a of Fin neg x \<Rightarrow> mk_flt F neg (x / c) | Infinite neg \<Rightarrow> Infinite neg | NaN \<Rightarrow> NaN)"

fun flt_less :: "flt \<Rightarrow> flt \<Rightarrow> bool" where
  "flt_less NaN b = False"
| "flt_less a NaN = False"
| "flt_less (Infinite n) (Infinite m) = (n \<and> \<not> m)"
| "flt_less (Infinite n) (Fin m y) = n"
| "flt_less (Fin n x) (Infinite m) = (\<not> m)"
| "flt_less (Fin n x) (Fin m y) = (signed n x < signed m y)"

definition flt_is_zero :: "flt \<Rightarrow> bool" where
  "flt_is_zero a = (case a of Fin _ x \<Rightarrow> x = 0 | _ \<Rightarrow> False)"

text \<open>Display with one decimal.\<close>

definition show_tenths :: "int \<Rightarrow> string" where
  "show_tenths t = dec_of_nat (nat t div 10) @ ''.'' @ dec_of_nat (nat t mod 10)"

definition show_flt1 :: "flt \<Rightarrow> string" where
  "show_flt1 a =
     (case a of
        Fin neg x \<Rightarrow> (if neg then ''-'' else []) @ show_tenths (round_half_even (x * 10))
      | Infinite neg \<Rightarrow> (if neg then ''-inf'' else ''inf'')
      | NaN \<Rightarrow> ''NaN'')"

section \<open>Parsing\<close>

definition take_sign :: "string \<Rightarrow> bool \<times> string" where
  "take_sign s = (case s of c # t \<Rightarrow> if c = CHR ''-'' then (True, t) else if c = CHR ''+'' then (False, t) else (False, s) | [] \<Rightarrow> (False, s))"

definition digits_int :: "string \<Rightarrow> int" where
  "digits_int s = fold (\<lambda>c n. n * 10 + (of_char c - 48)) s 0"

definition parse_exponent :: "string \<Rightarrow> int option" where
  "parse_exponent s =
     (case s of
        [] \<Rightarrow> Some 0
      | c # t \<Rightarrow>
          if ascii_lower c = CHR ''e'' then
            (let (neg, ds) = take_sign t in
             if ds \<noteq> [] \<and> list_all is_ascii_digit ds then Some (if neg then - digits_int ds else digits_int ds)
             else None)
          else None)"

text \<open>The exact value of an unsigned decimal number.\<close>

definition pow10 :: "int \<Rightarrow> rat" where
  "pow10 e = (if e \<ge> 0 then 10 ^ nat e else 1 / 10 ^ nat (- e))"

definition parse_decimal :: "string \<Rightarrow> rat option" where
  "parse_decimal s =
     (let ip = takeWhile is_ascii_digit s; rest = dropWhile is_ascii_digit s;
          (fp, rest') = (case rest of
             c # t \<Rightarrow> if c = CHR ''.'' then (takeWhile is_ascii_digit t, dropWhile is_ascii_digit t) else ([], rest)
           | [] \<Rightarrow> ([], rest))
      in if ip = [] \<and> fp = [] then None
         else map_option (\<lambda>e. of_int (digits_int (ip @ fp)) * pow10 (e - int (length fp))) (parse_exponent rest'))"

definition parse_flt :: "flt_format \<Rightarrow> string \<Rightarrow> flt option" where
  "parse_flt F s =
     (let (neg, t) = take_sign s; lower = to_ascii_lowercase t in
      if lower = ''inf'' \<or> lower = ''infinity'' then Some (Infinite neg)
      else if lower = ''nan'' then Some NaN
      else map_option (mk_flt F neg) (parse_decimal t))"

section \<open>Rounding errors\<close>

lemma round_half_even_error: "\<bar>of_int (round_half_even x) - x\<bar> \<le> 1 / 2"
proof -
  have "of_int \<lfloor>x\<rfloor> \<le> x" "x < of_int \<lfloor>x\<rfloor> + 1" by linarith+
  then show ?thesis by (auto simp: round_half_even_def Let_def abs_le_iff)
qed

lemma round_half_even_int [simp]: "round_half_even (of_int n) = n"
  by (simp add: round_half_even_def)

lemma pow2_pos [simp]: "0 < pow2 e"
  by (simp add: pow2_def)

lemma pow2_nonzero [simp]: "pow2 e \<noteq> 0" "\<not> pow2 e < 0" "\<not> pow2 e \<le> 0"
  by (simp_all add: pow2_def not_le)

lemma pow2_add: "pow2 (a + b) = pow2 a * pow2 b"
proof -
  have "pow2 e = 2 powi e" for e by (simp add: pow2_def power_int_def power_one_over field_simps)
  then show ?thesis by (simp add: power_int_add)
qed

lemma pow2_nat: "pow2 (int n) = 2 ^ n"
  by (simp add: pow2_def)

lemma pow2_mono: "e \<le> e' \<Longrightarrow> pow2 e \<le> pow2 e'"
proof -
  assume "e \<le> e'"
  then have "pow2 e' = pow2 e * pow2 (int (nat (e' - e)))" by (simp flip: pow2_add)
  also have "\<dots> \<ge> pow2 e * 1" unfolding pow2_nat by (intro mult_left_mono) (simp_all add: less_imp_le)
  finally show ?thesis by simp
qed

lemma pow2_less_imp: "pow2 a < pow2 b \<Longrightarrow> a < b"
  using pow2_mono [of b a] by linarith

text \<open>A power of two with its multiples.\<close>

lemma pow2_multiple: "a \<le> b \<Longrightarrow> pow2 b = of_int (2 ^ nat (b - a)) * pow2 a"
proof -
  assume "a \<le> b"
  then have "pow2 b = pow2 (b - a) * pow2 a" by (simp flip: pow2_add)
  with \<open>a \<le> b\<close> show ?thesis by (simp add: pow2_def [of "b - a"])
qed

lemma bits_zero [simp]: "bits 0 = 0"
  by (simp add: bits.simps)

lemma bits_nonneg: "0 < n \<Longrightarrow> 0 < bits n"
proof (induction n rule: bits.induct)
  case (1 n)
  then show ?case by (cases "n div 2 > 0") (auto simp: bits.simps [of n] bits.simps [of "n div 2"])
qed

lemma bits_bounds: "0 < n \<Longrightarrow> 2 ^ nat (bits n - 1) \<le> n \<and> n < 2 ^ nat (bits n)"
proof (induction n rule: bits.induct)
  case (1 n)
  show ?case
  proof (cases "n div 2 > 0")
    case False
    with 1(2) have "n = 1" by linarith
    then show ?thesis by (simp add: bits.simps)
  next
    case True
    with 1 have ih: "2 ^ nat (bits (n div 2) - 1) \<le> n div 2" "n div 2 < 2 ^ nat (bits (n div 2))" by auto
    obtain k where k: "nat (bits (n div 2)) = Suc k" using bits_nonneg [OF True] by (cases "nat (bits (n div 2))") auto
    have n: "nat (bits n) = Suc (Suc k)" "nat (bits n - 1) = Suc k" using 1(2) k by (simp_all add: bits.simps [of n])
    have "nat (bits (n div 2) - 1) = k" using k by simp
    with ih have "2 ^ k \<le> n div 2" "n div 2 < 2 * 2 ^ k" by (simp_all add: k)
    then have "2 * 2 ^ k \<le> n" "n < 2 * (2 * 2 ^ k)" by linarith+
    then show ?thesis by (simp add: n)
  qed
qed

lemma bits_pow2: "0 < n \<Longrightarrow> pow2 (bits n - 1) \<le> of_int n \<and> of_int n < pow2 (bits n)"
proof -
  assume n: "0 < n"
  have "of_int (2 ^ nat (bits n - 1)) \<le> (of_int n :: rat)" "(of_int n :: rat) < of_int (2 ^ nat (bits n))"
    unfolding of_int_le_iff of_int_less_iff using bits_bounds [OF n] by simp_all
  then show ?thesis using bits_nonneg [OF n] by (simp add: pow2_def)
qed

lemma binade_bounds:
  assumes "0 < x"
  shows "pow2 (binade x) \<le> x \<and> x < pow2 (binade x + 1)"
proof -
  obtain p q where pq: "quotient_of x = (p, q)" by (cases "quotient_of x")
  then have q: "0 < q" and x: "x = of_int p / of_int q" using quotient_of_denom_pos quotient_of_div by blast+
  have p: "0 < p" using assms q x by (simp add: zero_less_divide_iff)
  define e where "e = bits p - bits q"
  have split: "pow2 (bits p) = pow2 e * pow2 (bits q)" "pow2 (bits p - 1) = pow2 (e - 1) * pow2 (bits q)"
    "pow2 (bits p) = pow2 (e + 1) * pow2 (bits q - 1)"
    by (simp_all add: e_def flip: pow2_add)
  have "x < pow2 (e + 1)"
  proof -
    have "of_int p < pow2 (e + 1) * pow2 (bits q - 1)" using bits_pow2 [OF p] split(3) by simp
    also have "\<dots> \<le> pow2 (e + 1) * of_int q" using bits_pow2 [OF q] by (intro mult_left_mono) (simp_all add: less_imp_le)
    finally show ?thesis using q by (simp add: x divide_less_eq)
  qed
  moreover have "pow2 (e - 1) \<le> x"
  proof -
    have "pow2 (e - 1) * of_int q \<le> pow2 (e - 1) * pow2 (bits q)"
      using bits_pow2 [OF q] by (intro mult_left_mono) (simp_all add: less_imp_le)
    also have "\<dots> \<le> of_int p" using bits_pow2 [OF p] split(2) by simp
    finally show ?thesis using q by (simp add: x le_divide_eq)
  qed
  ultimately show ?thesis by (auto simp: binade_def pq Let_def e_def [symmetric])
qed

lemma binade_less: "0 < x \<Longrightarrow> x < pow2 k \<Longrightarrow> binade x < k"
  using binade_bounds [of x] pow2_less_imp [of "binade x" k] by linarith

lemma round_to_error:
  assumes "0 < x"
  shows "\<bar>round_to F x - x\<bar> \<le> pow2 (max (binade x - (ff_digits F - 1)) (ff_min F)) / 2"
proof -
  define e where "e = max (binade x - (ff_digits F - 1)) (ff_min F)"
  have bound: "\<bar>of_int (round_half_even (x / pow2 e)) - x / pow2 e\<bar> * pow2 e \<le> 1 / 2 * pow2 e"
    by (rule mult_right_mono [OF round_half_even_error]) (simp add: less_imp_le)
  have "round_to F x - x = (of_int (round_half_even (x / pow2 e)) - x / pow2 e) * pow2 e"
    using assms by (simp add: round_to_def Let_def e_def [symmetric] left_diff_distrib)
  then have "\<bar>round_to F x - x\<bar> = \<bar>of_int (round_half_even (x / pow2 e)) - x / pow2 e\<bar> * pow2 e"
    by (simp add: abs_mult abs_of_pos)
  with bound show ?thesis unfolding e_def [symmetric] by linarith
qed

text \<open>A number with few enough digits is rounded to itself.\<close>

lemma round_to_exact:
  assumes "0 < x" "x = of_int m * pow2 e" "m \<le> 2 ^ nat (ff_digits F)" "ff_min F \<le> e" "0 < ff_digits F"
  shows "round_to F x = x"
proof -
  define E where "E = max (binade x - (ff_digits F - 1)) (ff_min F)"
  have m: "0 < m" using assms(1,2) by (simp add: zero_less_mult_iff)
  have "\<exists>k. x = of_int k * pow2 E"
  proof (cases "E \<le> e")
    case True
    then show ?thesis using assms(2) pow2_multiple [of E e] by (metis mult.assoc of_int_mult)
  next
    case False
    then have E: "E = binade x - (ff_digits F - 1)" "e + ff_digits F \<le> binade x" using assms(4) by (auto simp: E_def)
    have "of_int m \<le> (of_int (2 ^ nat (ff_digits F)) :: rat)" using assms(3) by (intro of_int_le_iff [THEN iffD2])
    then have "of_int m \<le> pow2 (ff_digits F)" using assms(5) by (simp add: pow2_def)
    then have "x \<le> pow2 (ff_digits F) * pow2 e" unfolding assms(2) by (intro mult_right_mono) (simp_all add: less_imp_le)
    also have "\<dots> = pow2 (ff_digits F + e)" by (simp add: pow2_add)
    also have "\<dots> \<le> pow2 (binade x)" using E(2) by (intro pow2_mono) simp
    finally have "x = pow2 (binade x)" using binade_bounds [OF assms(1)] by linarith
    moreover have "E \<le> binade x" using E(1) assms(5) by simp
    ultimately show ?thesis using pow2_multiple [of E "binade x"] by metis
  qed
  then obtain k where k: "x = of_int k * pow2 E" by blast
  then have "x / pow2 E = of_int k" by simp
  then have "round_half_even (x / pow2 E) = k" by simp
  then have "round_to F x = of_int k * pow2 E" unfolding round_to_def Let_def E_def [symmetric] using assms(1) by simp
  with k show ?thesis by simp
qed

text \<open>What the conversion of a positive \<open>u64\<close> gives, and its division by a power of two.\<close>

lemma round_half_even_le: "x \<le> of_int n \<Longrightarrow> round_half_even x \<le> n"
proof -
  assume x: "x \<le> of_int n"
  show ?thesis
  proof (cases "x = of_int n")
    case False
    with x have "\<lfloor>x\<rfloor> < n" by (simp add: floor_less_iff)
    then show ?thesis by (auto simp: round_half_even_def Let_def)
  qed simp
qed

lemma half_error_positive:
  fixes x r :: rat
  assumes "2 * \<bar>r - x\<bar> \<le> x" "0 < x"
  shows "0 < r"
proof (rule ccontr)
  assume "\<not> 0 < r"
  then have "\<bar>r - x\<bar> = x - r" using assms(2) by simp
  with assms \<open>\<not> 0 < r\<close> show False by simp
qed

lemma f64_of_u64:
  assumes "0 < n" "n < 2 ^ 64"
  obtains m e where "round_to f64 (of_int n) = of_int m * pow2 e" "m \<le> 2 ^ 53" "- 53 \<le> e"
    "\<bar>round_to f64 (of_int n) - of_int n\<bar> \<le> 2 ^ 10" "0 < round_to f64 (of_int n)"
proof -
  define x :: rat where "x = of_int n"
  have x: "0 < x" using assms(1) by (simp add: x_def)
  have "x < of_int (2 ^ 64)" unfolding x_def of_int_less_iff using assms(2) by simp
  then have "x < pow2 64" by (simp add: pow2_def)
  then have b: "binade x \<le> 63" using binade_less [OF x, of 64] by simp
  have "pow2 0 < pow2 (binade x + 1)" using binade_bounds [OF x] assms(1) by (simp add: x_def pow2_def [of 0])
  then have b0: "0 \<le> binade x" using pow2_less_imp by fastforce
  define e where "e = binade x - 52"
  have e: "e = max (binade x - (ff_digits f64 - 1)) (ff_min f64)" using b0 by (simp add: e_def)
  define m where "m = round_half_even (x / pow2 e)"
  have r: "round_to f64 x = of_int m * pow2 e" unfolding round_to_def Let_def e [symmetric] m_def using x by simp
  have "x \<le> pow2 (53 + e)" using binade_bounds [OF x] by (simp add: e_def add.commute)
  then have "x / pow2 e \<le> pow2 53" unfolding pow2_add by (simp add: divide_le_eq)
  then have "m \<le> 2 ^ 53" unfolding m_def by (intro round_half_even_le) (simp add: pow2_def)
  moreover have "\<bar>round_to f64 x - x\<bar> \<le> 2 ^ 10"
  proof -
    have "\<bar>round_to f64 x - x\<bar> \<le> pow2 e / 2" using round_to_error [OF x, of f64] e by simp
    also have "pow2 e \<le> pow2 11" using b by (intro pow2_mono) (simp add: e_def)
    finally show ?thesis by (simp add: pow2_def)
  qed
  moreover have "0 < round_to f64 x"
  proof -
    have "pow2 e \<le> pow2 (binade x)" by (intro pow2_mono) (simp add: e_def)
    then have "2 * \<bar>round_to f64 x - x\<bar> \<le> x" using round_to_error [OF x, of f64] binade_bounds [OF x] unfolding e [symmetric] by simp
    then show ?thesis using x by (rule half_error_positive)
  qed
  ultimately show thesis using that [of m e] r b0 unfolding x_def by (simp add: e_def x_def)
qed

end
