(* ===== verification/Glyphs.thy ===== *)
theory Glyphs
  imports Rust_Float
begin

text \<open>
  The text layout of \<^verbatim>\<open>crates/bootycall-oled/src/renderer.rs\<close>: the pen that walks over the
  characters of a text, the pixels its glyphs cover, and the width of a text. The font
  engine (\<^verbatim>\<open>ab_glyph\<close>) is third-party code: a \<open>font\<close> gives the glyph of a character, its
  advance and its outline at a scale and a position. Coordinates are \<open>f32\<close> with their
  rounding, the pixel coordinates wrap as \<open>i32\<close>, and the casts saturate.
\<close>

section \<open>Fonts\<close>

text \<open>An outline: the least corner of its bounds, and the pixels with their coverage in the order it draws them.\<close>

record outlined =
  ou_min_x :: flt
  ou_min_y :: flt
  ou_pixels :: "(u32 \<times> u32 \<times> flt) list"

record font =
  fn_glyph_id :: "string \<Rightarrow> nat"
  fn_ascent :: "flt \<Rightarrow> flt"
  fn_h_advance :: "flt \<Rightarrow> nat \<Rightarrow> flt"
  fn_outline :: "nat \<Rightarrow> flt \<Rightarrow> flt \<times> flt \<Rightarrow> outlined option"

record fonts =
  ft_regular :: font
  ft_bold :: font

definition font_of :: "fonts \<Rightarrow> bool \<Rightarrow> font" where
  "font_of fs use_large_font = (if use_large_font then ft_bold fs else ft_regular fs)"

text \<open>\<open>str::chars\<close>, each character in its encoding.\<close>

definition char_len :: "char \<Rightarrow> nat" where
  "char_len c = (let n = (of_char c :: nat) in if n < 0x80 then 1 else if n < 0xE0 then 2 else if n < 0xF0 then 3 else 4)"

function chars :: "string \<Rightarrow> string list" where
  "chars s = (case s of [] \<Rightarrow> [] | c # _ \<Rightarrow> take (char_len c) s # chars (drop (char_len c) s))"
  by pat_completeness auto
termination
  by (relation "measure length") (auto simp: char_len_def Let_def)

declare chars.simps [simp del]

section \<open>The pen\<close>

text \<open>\<open>(gv * 255.0) as u8\<close>, and the pixel of a covered point.\<close>

definition glyph_alpha :: "flt \<Rightarrow> u8" where
  "glyph_alpha gv = word_of_int (flt_cast 0 255 (flt_mul f32 gv 255))"

definition as_i32 :: "flt \<Rightarrow> 32 word" where
  "as_i32 a = word_of_int (flt_cast (- (2 ^ 31)) (2 ^ 31 - 1) a)"

definition glyph_pixel :: "outlined \<Rightarrow> u32 \<times> u32 \<times> flt \<Rightarrow> int \<times> int \<times> u8" where
  "glyph_pixel outline g =
     (case g of (gx, gy, gv) \<Rightarrow>
        (let px = sint (as_i32 (ou_min_x outline) + gx); py = sint (as_i32 (ou_min_y outline) + gy)
         in (px, py, glyph_alpha gv)))"

fun pen_pixels :: "font \<Rightarrow> flt \<Rightarrow> flt \<Rightarrow> flt \<Rightarrow> string list \<Rightarrow> (int \<times> int \<times> u8) list" where
  "pen_pixels f scale baseline caret [] = []"
| "pen_pixels f scale baseline caret (c # cs) =
     (let glyph_id = fn_glyph_id f c in
      (case fn_outline f glyph_id scale (caret, baseline) of
         Some outline \<Rightarrow> map (glyph_pixel outline) (ou_pixels outline)
       | None \<Rightarrow> [])
      @ pen_pixels f scale baseline (flt_add f32 caret (fn_h_advance f scale glyph_id)) cs)"

text \<open>All the pixels of a text at a position, in the order they are drawn.\<close>

definition text_pixels :: "fonts \<Rightarrow> nat \<Rightarrow> nat \<Rightarrow> string \<Rightarrow> bool \<Rightarrow> flt \<Rightarrow> (int \<times> int \<times> u8) list" where
  "text_pixels fs x y txt1 use_large_font scale =
     (let f = font_of fs use_large_font;
          baseline = flt_add f32 (flt_of_nat f32 y) (fn_ascent f scale)
      in pen_pixels f scale baseline (flt_of_nat f32 x) (chars txt1))"

definition measure_text_scaled :: "fonts \<Rightarrow> string \<Rightarrow> bool \<Rightarrow> flt \<Rightarrow> nat" where
  "measure_text_scaled fs txt1 use_large_font scale =
     (let f = font_of fs use_large_font;
          width = fold (\<lambda>c sum1. flt_add f32 sum1 (fn_h_advance f scale (fn_glyph_id f c))) (chars txt1) (Fin True 0)
      in nat (flt_cast 0 (2 ^ 64 - 1) (flt_ceil width)))"

text \<open>A font for examples: one character has a width, and no glyph has an outline.\<close>

definition plain_font :: "string \<Rightarrow> rat \<Rightarrow> font" where
  "plain_font c w =
     \<lparr>fn_glyph_id = (\<lambda>d. if d = c then 1 else 0), fn_ascent = (\<lambda>s. s),
      fn_h_advance = (\<lambda>_ g. if g = 1 then Fin False w else Fin False 0), fn_outline = (\<lambda>_ _ _. None)\<rparr>"

definition plain_fonts :: "string \<Rightarrow> rat \<Rightarrow> fonts" where
  "plain_fonts c w = \<lparr>ft_regular = plain_font c w, ft_bold = plain_font c w\<rparr>"

end
