(* ===== verification/Canvas.thy ===== *)
theory Canvas
  imports Panel Glyphs
begin

text \<open>
  \<^verbatim>\<open>crates/bootycall-oled/src/renderer.rs\<close>: drawing on the back buffer, with
  the pixels of a text from \<open>Glyphs\<close>. The line loop is Bresenham's and could run forever for other increments, so it is a
  partial function. The lemmas refine every drawing to its effect on single pixels.
\<close>

section \<open>Drawing\<close>

definition SMALL_SCALE :: flt where "SMALL_SCALE = Fin False 11"
definition LARGE_SCALE :: flt where "LARGE_SCALE = Fin False 15"
definition BOLD_THRESHOLD :: nat where "BOLD_THRESHOLD = 13"

definition draw_rect :: "nat \<Rightarrow> nat \<Rightarrow> nat \<Rightarrow> nat \<Rightarrow> u8 \<Rightarrow> framebuffer \<Rightarrow> framebuffer" where
  "draw_rect x y w h color fb =
     fold (\<lambda>dy. fold (\<lambda>dx. set_pixel (x + dx) (y + dy) color) [0..<w]) [0..<h] fb"

definition plot :: "u8 \<Rightarrow> int \<times> int \<Rightarrow> framebuffer \<Rightarrow> framebuffer" where
  "plot color p fb =
     (case p of (x, y) \<Rightarrow>
        if 0 \<le> x \<and> x < int WIDTH \<and> 0 \<le> y \<and> y < int HEIGHT then set_pixel (nat x) (nat y) color fb else fb)"

partial_function (option) line_loop ::
  "u8 \<Rightarrow> int \<Rightarrow> int \<Rightarrow> int \<Rightarrow> int \<Rightarrow> int \<Rightarrow> int \<Rightarrow> framebuffer \<Rightarrow> int \<Rightarrow> int \<Rightarrow> int \<Rightarrow> framebuffer option" where
  "line_loop color end_x end_y dx dy sx sy fb x y err =
     (let fb1 = plot color (x, y) fb in
      if x = end_x \<and> y = end_y then Some fb1
      else
        (let e2 = 2 * err;
             err1 = (if dy \<le> e2 then err + dy else err);
             x1 = (if dy \<le> e2 then x + sx else x);
             err2 = (if e2 \<le> dx then err1 + dx else err1);
             y1 = (if e2 \<le> dx then y + sy else y)
         in line_loop color end_x end_y dx dy sx sy fb1 x1 y1 err2))"

definition draw_line :: "nat \<Rightarrow> nat \<Rightarrow> nat \<Rightarrow> nat \<Rightarrow> u8 \<Rightarrow> framebuffer \<Rightarrow> framebuffer option" where
  "draw_line x0 y0 x1 y1 color fb =
     (let x = int x0; y = int y0; end_x = int x1; end_y = int y1;
          dx = \<bar>end_x - x\<bar>; dy = - \<bar>end_y - y\<bar>;
          sx = (if x < end_x then 1 else - 1); sy = (if y < end_y then 1 else - 1)
      in line_loop color end_x end_y dx dy sx sy fb x y (dx + dy))"

definition draw_bitmap :: "nat \<Rightarrow> nat \<Rightarrow> bytes \<Rightarrow> nat \<Rightarrow> nat \<Rightarrow> framebuffer \<Rightarrow> framebuffer" where
  "draw_bitmap x y bmp w h fb =
     fold (\<lambda>dy. fold (\<lambda>dx fb.
         if dy * w + dx < length bmp then
           (let pixel = bmp ! (dy * w + dx) in if pixel > 64 then set_pixel (x + dx) (y + dy) pixel fb else fb)
         else fb) [0..<w]) [0..<h] fb"

definition blend :: "int \<times> int \<times> u8 \<Rightarrow> framebuffer \<Rightarrow> framebuffer" where
  "blend g fb =
     (case g of (px, py, alpha) \<Rightarrow>
        if 0 \<le> px \<and> px < int WIDTH \<and> 0 \<le> py \<and> py < int HEIGHT then
          if alpha > 0 then
            (let current = fb_buffer fb ! (nat py * WIDTH + nat px);
                 blended = max current alpha
             in set_pixel (nat px) (nat py) blended fb)
          else fb
        else fb)"

definition draw_text_scaled :: "fonts \<Rightarrow> nat \<Rightarrow> nat \<Rightarrow> string \<Rightarrow> bool \<Rightarrow> flt \<Rightarrow> framebuffer \<Rightarrow> framebuffer" where
  "draw_text_scaled fs x y txt1 large scale fb = fold blend (text_pixels fs x y txt1 large scale) fb"

definition draw_text :: "fonts \<Rightarrow> nat \<Rightarrow> nat \<Rightarrow> string \<Rightarrow> bool \<Rightarrow> framebuffer \<Rightarrow> framebuffer" where
  "draw_text fs x y txt1 large fb =
     draw_text_scaled fs x y txt1 large (if large then LARGE_SCALE else SMALL_SCALE) fb"

definition measure_text :: "fonts \<Rightarrow> string \<Rightarrow> bool \<Rightarrow> nat" where
  "measure_text fs txt1 large = measure_text_scaled fs txt1 large (if large then LARGE_SCALE else SMALL_SCALE)"

definition braille_chars :: "bool list list list" where
  "braille_chars =
     [[[False, True], [True, True], [True, False]],
      [[True, False], [False, False], [False, False]],
      [[True, False], [True, True], [True, False]],
      [[False, True], [True, False], [True, False]]]"

definition draw_braille :: "nat \<Rightarrow> nat \<Rightarrow> nat \<Rightarrow> nat \<Rightarrow> nat \<Rightarrow> framebuffer \<Rightarrow> framebuffer" where
  "draw_braille x_start y_start col_dist row_dist char_dist fb =
     fold (\<lambda>(c_idx, char_grid).
       fold (\<lambda>(row_idx, row).
         fold (\<lambda>(col_idx, is_set) fb.
           if is_set then
             draw_rect (x_start + c_idx * char_dist + col_idx * col_dist) (y_start + row_idx * row_dist) 2 2 255 fb
           else fb) (enumerate 0 row)) (enumerate 0 char_grid)) (enumerate 0 braille_chars) fb"

section \<open>Single pixels\<close>

definition pixel :: "framebuffer \<Rightarrow> nat \<Rightarrow> nat \<Rightarrow> u8" where
  "pixel fb x y = fb_buffer fb ! (y * WIDTH + x)"

lemma index_inj: "x < WIDTH \<Longrightarrow> x' < WIDTH \<Longrightarrow> y * WIDTH + x = y' * WIDTH + x' \<longleftrightarrow> x = x' \<and> y = y'"
  by (metis add_diff_cancel_left' div_mult_self3 div_less add.right_neutral less_nat_zero_code nat_neq_iff)

lemma index_less: "x < WIDTH \<Longrightarrow> y < HEIGHT \<Longrightarrow> y * WIDTH + x < WIDTH * HEIGHT"
  by (simp add: WIDTH_def HEIGHT_def)

lemma pixel_set_pixel:
  assumes "fb_wf fb" "x' < WIDTH" "y' < HEIGHT"
  shows "pixel (set_pixel x y c fb) x' y' = (if x' = x \<and> y' = y then c else pixel fb x' y')"
  using assms index_less [OF assms(2,3)] index_inj [of x x' y y']
  by (auto simp: pixel_def set_pixel_def fb_wf_def nth_list_update)

text \<open>A colour, or none, for every position: painting a list of positions with it.\<close>

definition paint :: "(nat \<Rightarrow> nat \<Rightarrow> u8 option) \<Rightarrow> nat \<times> nat \<Rightarrow> framebuffer \<Rightarrow> framebuffer" where
  "paint col p fb = (case p of (x, y) \<Rightarrow> (case col x y of Some c \<Rightarrow> set_pixel x y c fb | None \<Rightarrow> fb))"

lemma fb_wf_paint [simp]: "fb_wf fb \<Longrightarrow> fb_wf (fold (paint col) ps fb)"
  by (induction ps arbitrary: fb) (auto simp: paint_def split: option.split prod.split)

lemma pixel_paint:
  assumes "fb_wf fb" "x < WIDTH" "y < HEIGHT"
  shows "pixel (fold (paint col) ps fb) x y =
    (if (x, y) \<in> set ps then (case col x y of Some c \<Rightarrow> c | None \<Rightarrow> pixel fb x y) else pixel fb x y)"
  using assms(1)
proof (induction ps arbitrary: fb)
  case (Cons p ps)
  have "fb_wf (paint col p fb)" using fb_wf_paint [OF Cons.prems, of col "[p]"] by simp
  moreover have "pixel (paint col p fb) x y =
      (if p = (x, y) then (case col x y of Some c \<Rightarrow> c | None \<Rightarrow> pixel fb x y) else pixel fb x y)"
    using assms(2,3) Cons.prems by (cases p) (auto simp: paint_def pixel_set_pixel split: option.split)
  ultimately show ?case using Cons.IH [of "paint col p fb"] by (auto split: option.splits)
qed simp

definition grid :: "nat \<Rightarrow> nat \<Rightarrow> nat \<Rightarrow> nat \<Rightarrow> (nat \<times> nat) list" where
  "grid x y w h = concat (map (\<lambda>dy. map (\<lambda>dx. (x + dx, y + dy)) [0..<w]) [0..<h])"

lemma set_grid: "(x', y') \<in> set (grid x y w h) \<longleftrightarrow> x \<le> x' \<and> x' < x + w \<and> y \<le> y' \<and> y' < y + h"
proof -
  have "(x', y') \<in> set (grid x y w h) \<longleftrightarrow> (\<exists>dy < h. \<exists>dx < w. x' = x + dx \<and> y' = y + dy)"
    by (auto simp: grid_def image_iff)
  also have "\<dots> \<longleftrightarrow> x \<le> x' \<and> x' < x + w \<and> y \<le> y' \<and> y' < y + h"
  proof
    assume "x \<le> x' \<and> x' < x + w \<and> y \<le> y' \<and> y' < y + h"
    then have "y' - y < h" "x' - x < w" "x' = x + (x' - x)" "y' = y + (y' - y)" by auto
    then show "\<exists>dy < h. \<exists>dx < w. x' = x + dx \<and> y' = y + dy" by blast
  qed auto
  finally show ?thesis .
qed

lemma fold_rows:
  "fold (\<lambda>dy. fold (\<lambda>dx. f (x + dx, y + dy)) xs) ys fb =
   fold f (concat (map (\<lambda>dy. map (\<lambda>dx. (x + dx, y + dy)) xs) ys)) fb"
  by (induction ys arbitrary: fb) (simp_all add: fold_map comp_def)

lemma draw_rect_paint: "draw_rect x y w h c fb = fold (paint (\<lambda>_ _. Some c)) (grid x y w h) fb"
proof -
  have "paint (\<lambda>_ _. Some c) (a, b) = set_pixel a b c" for a b by (rule ext) (simp add: paint_def)
  then show ?thesis by (simp add: draw_rect_def grid_def fold_rows [symmetric])
qed

definition bitmap_colour :: "nat \<Rightarrow> nat \<Rightarrow> bytes \<Rightarrow> nat \<Rightarrow> nat \<Rightarrow> nat \<Rightarrow> u8 option" where
  "bitmap_colour x y bmp w px py =
     (let i = (py - y) * w + (px - x) in if i < length bmp \<and> bmp ! i > 64 then Some (bmp ! i) else None)"

lemma draw_bitmap_paint: "draw_bitmap x y bmp w h fb = fold (paint (bitmap_colour x y bmp w)) (grid x y w h) fb"
proof -
  have "paint (bitmap_colour x y bmp w) (x + dx, y + dy) =
      (\<lambda>fb. if dy * w + dx < length bmp then
           (let pixel = bmp ! (dy * w + dx) in if pixel > 64 then set_pixel (x + dx) (y + dy) pixel fb else fb)
         else fb)" for dx dy
    by (rule ext) (simp add: paint_def bitmap_colour_def Let_def)
  then show ?thesis by (simp add: draw_bitmap_def grid_def fold_rows [symmetric])
qed

text \<open>Text only brightens: a pixel becomes the maximum of what it was and what covers it.\<close>

definition coverage :: "nat \<Rightarrow> nat \<Rightarrow> (int \<times> int \<times> u8) list \<Rightarrow> u8 list" where
  "coverage x y gs = map (\<lambda>(_, _, a). a) (filter (\<lambda>(px, py, _). px = int x \<and> py = int y) gs)"

lemma pixel_blend:
  assumes "fb_wf fb" "x < WIDTH" "y < HEIGHT"
  shows "pixel (blend g fb) x y = fold max (coverage x y [g]) (pixel fb x y)" and "fb_wf (blend g fb)"
proof -
  obtain px py a where g: "g = (px, py, a)" by (cases g)
  show "fb_wf (blend g fb)" using assms(1) by (simp add: blend_def g Let_def)
  show "pixel (blend g fb) x y = fold max (coverage x y [g]) (pixel fb x y)"
  proof (cases "px = int x \<and> py = int y")
    case True
    with assms show ?thesis
      by (auto simp: blend_def g coverage_def Let_def pixel_set_pixel pixel_def [symmetric] max_def word_gt_0)
  next
    case False
    then have "0 \<le> px \<Longrightarrow> 0 \<le> py \<Longrightarrow> \<not> (x = nat px \<and> y = nat py)" by auto
    moreover have "coverage x y [g] = []" using False by (auto simp: coverage_def g)
    ultimately show ?thesis using assms
      by (cases "0 \<le> px \<and> 0 \<le> py") (auto simp: blend_def g Let_def pixel_set_pixel)
  qed
qed

lemma pixel_blends:
  assumes "fb_wf fb" "x < WIDTH" "y < HEIGHT"
  shows "pixel (fold blend gs fb) x y = fold max (coverage x y gs) (pixel fb x y)"
  using assms(1)
proof (induction gs arbitrary: fb)
  case Nil
  show ?case by (simp add: coverage_def)
next
  case (Cons g gs)
  have "coverage x y (g # gs) = coverage x y [g] @ coverage x y gs" by (simp add: coverage_def)
  with Cons pixel_blend [OF Cons.prems assms(2,3), of g] show ?case by simp
qed

lemma fb_wf_blends [simp]: "fb_wf fb \<Longrightarrow> fb_wf (fold blend gs fb)"
  by (induction gs arbitrary: fb) (simp_all add: pixel_blend(2) [of _ 0 0] WIDTH_def HEIGHT_def)

section \<open>The line loop ends\<close>

lemma fb_wf_plot [simp]: "fb_wf fb \<Longrightarrow> fb_wf (plot color p fb)"
  by (simp add: plot_def split: prod.split)

definition neighbours :: "int \<times> int \<Rightarrow> int \<times> int \<Rightarrow> bool" where
  "neighbours p q \<longleftrightarrow> p \<noteq> q \<and> \<bar>fst p - fst q\<bar> \<le> 1 \<and> \<bar>snd p - snd q\<bar> \<le> 1"

definition path_between :: "int \<times> int \<Rightarrow> int \<times> int \<Rightarrow> (int \<times> int) list \<Rightarrow> bool" where
  "path_between p q ps \<longleftrightarrow> ps \<noteq> [] \<and> hd ps = p \<and> last ps = q \<and> list_all2 neighbours (butlast ps) (tl ps)"

definition in_box :: "int \<times> int \<Rightarrow> int \<times> int \<Rightarrow> int \<times> int \<Rightarrow> bool" where
  "in_box p q r \<longleftrightarrow> min (fst p) (fst q) \<le> fst r \<and> fst r \<le> max (fst p) (fst q)
     \<and> min (snd p) (snd q) \<le> snd r \<and> snd r \<le> max (snd p) (snd q)"

lemma path_between_Cons:
  "path_between p q ps \<Longrightarrow> neighbours r p \<Longrightarrow> path_between r q (r # ps)"
  by (cases ps) (auto simp: path_between_def)

lemma line_loop_path:
  fixes a b D E :: int
  assumes "0 \<le> a" "a \<le> D" "0 \<le> b" "b \<le> E" "sx = 1 \<or> sx = - 1" "sy = 1 \<or> sy = - 1"
    and "x = ex - sx * (D - a)" "y = ey - sy * (E - b)" "err = D * (b + 1) - E * (a + 1)"
  shows "\<exists>ps. line_loop c ex ey D (- E) sx sy fb x y err = Some (fold (plot c) ps fb)
    \<and> path_between (x, y) (ex, ey) ps \<and> list_all (in_box (x, y) (ex, ey)) ps \<and> length ps \<le> nat (D - a + (E - b)) + 1"
  using assms
proof (induction "nat (D - a + (E - b))" arbitrary: a b x y err fb rule: less_induct)
  case less
  show ?case
  proof (cases "a = D \<and> b = E")
    case True
    with less.prems(7,8) have "x = ex" "y = ey" by simp_all
    then show ?thesis
      unfolding line_loop.simps [of c ex ey D "- E" sx sy fb x y err]
      by (intro exI [of _ "[(x, y)]"]) (simp add: path_between_def in_box_def Let_def)
  next
    case False
    have away: "\<not> (x = ex \<and> y = ey)" using False less.prems(5-8) by auto
    define mx where "mx = (if - E \<le> 2 * err then 1 else 0 :: int)"
    define my where "my = (if 2 * err \<le> D then 1 else 0 :: int)"
    define x1 y1 err1 where "x1 = x + sx * mx" "y1 = y + sy * my" "err1 = D * (b + my + 1) - E * (a + mx + 1)"
    have two: "2 * err = 2 * (D * b) + 2 * D - 2 * (E * a) - 2 * E"
      using less.prems(9) by (simp add: algebra_simps)
    have nonneg: "0 \<le> D" "0 \<le> E" using less.prems(1-4) by auto
    have some: "mx = 1 \<or> my = 1" using nonneg by (auto simp: mx_def my_def two)
    have ax: "a + mx \<le> D"
    proof (cases "a = D")
      case True
      with False less.prems(4) have "b + 1 \<le> E" by auto
      then have "D * (b + 1) \<le> D * E" using nonneg by (simp add: mult_left_mono)
      then have "D * b + D \<le> E * D" by (simp add: algebra_simps)
      with True \<open>b + 1 \<le> E\<close> less.prems(3) have "mx = 0" by (auto simp: mx_def two)
      with True show ?thesis by simp
    qed (use less.prems(2) in \<open>auto simp: mx_def\<close>)
    have by_: "b + my \<le> E"
    proof (cases "b = E")
      case True
      with False less.prems(2) have "a + 1 \<le> D" by auto
      then have "E * (a + 1) \<le> E * D" using nonneg by (simp add: mult_left_mono)
      then have "E * a + E \<le> D * E" by (simp add: algebra_simps)
      with True \<open>a + 1 \<le> D\<close> less.prems(1) have "my = 0" by (auto simp: my_def two)
      with True show ?thesis by simp
    qed (use less.prems(4) in \<open>auto simp: my_def\<close>)
    have step: "line_loop c ex ey D (- E) sx sy fb x y err = line_loop c ex ey D (- E) sx sy (plot c (x, y) fb) x1 y1 err1"
    proof -
      have "err1 = (let e1 = (if - E \<le> 2 * err then err + - E else err) in if 2 * err \<le> D then e1 + D else e1)"
        using less.prems(9) by (simp add: x1_y1_err1_def mx_def my_def Let_def algebra_simps)
      moreover have "x1 = (if - E \<le> 2 * err then x + sx else x)" "y1 = (if 2 * err \<le> D then y + sy else y)"
        by (simp_all add: x1_y1_err1_def mx_def my_def)
      ultimately show ?thesis
        unfolding line_loop.simps [of c ex ey D "- E" sx sy fb x y err] Let_def if_not_P [OF away] by simp
    qed
    have m01: "0 \<le> mx" "mx \<le> 1" "0 \<le> my" "my \<le> 1" by (auto simp: mx_def my_def)
    have less_left: "nat (D - (a + mx) + (E - (b + my))) < nat (D - a + (E - b))" using some ax by_ m01 by linarith
    from less.hyps [OF this, where x = x1 and y = y1 and err = err1 and fb = "plot c (x, y) fb"] less.prems ax by_ m01
    obtain ps where ps: "line_loop c ex ey D (- E) sx sy (plot c (x, y) fb) x1 y1 err1 = Some (fold (plot c) ps (plot c (x, y) fb))"
      "path_between (x1, y1) (ex, ey) ps" "list_all (in_box (x1, y1) (ex, ey)) ps"
      "length ps \<le> nat (D - (a + mx) + (E - (b + my))) + 1"
      by (auto simp: x1_y1_err1_def algebra_simps)
    have "neighbours (x, y) (x1, y1)"
      using some m01 less.prems(5,6) by (auto simp: neighbours_def x1_y1_err1_def mx_def my_def split: if_splits)
    with ps(2) have "path_between (x, y) (ex, ey) ((x, y) # ps)" by (rule path_between_Cons)
    moreover have "list_all (in_box (x, y) (ex, ey)) ((x, y) # ps)"
    proof -
      have "in_box (x, y) (ex, ey) r" if "in_box (x1, y1) (ex, ey) r" for r
        using that ax by_ m01 less.prems(1-8) by (auto simp: in_box_def x1_y1_err1_def min_def max_def split: if_splits)
      moreover have "in_box (x, y) (ex, ey) (x, y)" by (simp add: in_box_def)
      ultimately show ?thesis using ps(3) by (auto simp: list_all_iff)
    qed
    moreover have "length ((x, y) # ps) \<le> nat (D - a + (E - b)) + 1"
      unfolding list.size using ps(4) less_left by linarith
    ultimately show ?thesis using step ps(1) by (intro exI [of _ "(x, y) # ps"]) simp
  qed
qed

lemma line_path:
  "\<exists>ps. draw_line x0 y0 x1 y1 color fb = Some (fold (plot color) ps fb)
    \<and> path_between (int x0, int y0) (int x1, int y1) ps
    \<and> list_all (in_box (int x0, int y0) (int x1, int y1)) ps
    \<and> length ps \<le> nat \<bar>int x1 - int x0\<bar> + nat \<bar>int y1 - int y0\<bar> + 1"
proof -
  define sx sy where "sx = (if int x0 < int x1 then 1 else - 1 :: int)" and "sy = (if int y0 < int y1 then 1 else - 1 :: int)"
  define D E where "D = \<bar>int x1 - int x0\<bar>" and "E = \<bar>int y1 - int y0\<bar>"
  have ends: "int x0 = int x1 - sx * (D - 0)" "int y0 = int y1 - sy * (E - 0)" and pos: "0 \<le> D" "0 \<le> E"
    by (auto simp: sx_def sy_def D_def E_def)
  have signs: "sx = 1 \<or> sx = - 1" "sy = 1 \<or> sy = - 1" by (auto simp: sx_def sy_def)
  have err: "D + - E = D * (0 + 1) - E * (0 + 1)" by simp
  have "draw_line x0 y0 x1 y1 color fb = line_loop color (int x1) (int y1) D (- E) sx sy fb (int x0) (int y0) (D + - E)"
    by (simp add: draw_line_def Let_def sx_def sy_def D_def E_def)
  moreover have "nat (D - 0 + (E - 0)) = nat \<bar>int x1 - int x0\<bar> + nat \<bar>int y1 - int y0\<bar>"
    by (simp add: D_def E_def nat_add_distrib)
  ultimately show ?thesis
    using line_loop_path [OF order_refl pos(1) order_refl pos(2) signs ends err, of color fb] by simp
qed

section \<open>Properties\<close>

text \<open>
  Every line is drawn: the loop ends for any two end points, on the panel or not, and
  what it plots is a path of neighbouring points from the first to the second that stays
  in their bounding box.
\<close>

theorem line_drawn:
  "\<exists>ps. draw_line x0 y0 x1 y1 color fb = Some (fold (plot color) ps fb)
    \<and> path_between (int x0, int y0) (int x1, int y1) ps
    \<and> list_all (in_box (int x0, int y0) (int x1, int y1)) ps
    \<and> length ps \<le> nat \<bar>int x1 - int x0\<bar> + nat \<bar>int y1 - int y0\<bar> + 1"
  by (rule line_path)

text \<open>
  C37. Drawing refines painting single pixels: a rectangle gives its colour to exactly the
  pixels of the panel it covers, a bitmap gives its bytes above 64 to the pixels they fall
  on, and a text leaves every pixel at the maximum of what it was and the alpha values that
  cover it; no other pixel changes.
\<close>

theorem canvas_refines:
  assumes "fb_wf fb" "px < WIDTH" "py < HEIGHT"
  shows "pixel (draw_rect x y w h color fb) px py =
      (if x \<le> px \<and> px < x + w \<and> y \<le> py \<and> py < y + h then color else pixel fb px py)
    \<and> pixel (draw_bitmap x y bmp w h fb) px py =
      (let i = (py - y) * w + (px - x) in
       if x \<le> px \<and> px < x + w \<and> y \<le> py \<and> py < y + h \<and> i < length bmp \<and> bmp ! i > 64 then bmp ! i
       else pixel fb px py)
    \<and> pixel (draw_text_scaled fs x y txt1 large scale fb) px py =
      fold max (coverage px py (text_pixels fs x y txt1 large scale)) (pixel fb px py)"
proof -
  define i where "i = (py - y) * w + (px - x)"
  have "pixel (draw_bitmap x y bmp w h fb) px py =
      (let i = (py - y) * w + (px - x) in
       if x \<le> px \<and> px < x + w \<and> y \<le> py \<and> py < y + h \<and> i < length bmp \<and> bmp ! i > 64 then bmp ! i
       else pixel fb px py)"
    unfolding draw_bitmap_paint pixel_paint [OF assms] set_grid bitmap_colour_def Let_def i_def [symmetric] by simp
  then show ?thesis
    by (simp add: draw_rect_paint draw_text_scaled_def pixel_paint [OF assms] set_grid pixel_blends [OF assms])
qed

lemma canvas_refines_witness:
  "pixel (draw_rect 1 2 3 4 200 (new_framebuffer True)) 3 5 = 200
   \<and> pixel (draw_rect 1 2 3 4 200 (new_framebuffer True)) 4 5 = 0"
proof -
  have wf: "fb_wf (new_framebuffer True)" by (simp add: new_framebuffer_def)
  have "pixel (new_framebuffer True) 4 5 = 0"
    by (simp add: pixel_def new_framebuffer_def with_brightness_def WIDTH_def HEIGHT_def)
  with canvas_refines [OF wf, of 3 5 1 2 3 4 200] canvas_refines [OF wf, of 4 5 1 2 3 4 200] show ?thesis
    by (simp add: WIDTH_def HEIGHT_def)
qed

end
