(* ===== verification/Metrics.thy ===== *)
theory Metrics
  imports Rust_Float Sock_Addr Image_Walk
begin

text \<open>
  \<^verbatim>\<open>crates/bootycall-oled/src/metrics.rs\<close>: the values of the metrics pages. What \<open>sysinfo\<close>, the
  sockets and \<^verbatim>\<open>/sys\<close> would report at a moment is a \<open>sys_view\<close>; \<open>SystemMetrics\<close> holds the
  snapshots its refreshes took. The getters read a snapshot, or the sys_view where the code
  asks it directly. The uppercase mapping of non-ASCII letters (Unicode tables) is the
  parameter \<open>sv_upper\<close>, which maps the whole name.
\<close>

section \<open>Formatting\<close>

definition BYTES_PER_GIB :: rat where "BYTES_PER_GIB = 1073741824"
definition THERMAL_SANITY_CEILING_C :: rat where "THERMAL_SANITY_CEILING_C = 150"

definition format_uptime :: "u64 \<Rightarrow> string" where
  "format_uptime secs =
     (let days = secs div 86400; hours = (secs mod 86400) div 3600; mins = (secs mod 3600) div 60
      in dec_of_nat (unat days) @ ''d '' @ dec_of_nat (unat hours) @ ''h '' @ dec_of_nat (unat mins) @ ''m'')"

definition format_bytes_pair :: "u64 \<Rightarrow> u64 \<Rightarrow> string" where
  "format_bytes_pair used total_b =
     (if total_b = 0 then ''N/A''
      else
        (let used_gb = flt_div f64 (flt_of_u64 f64 used) BYTES_PER_GIB;
             total_gb = flt_div f64 (flt_of_u64 f64 total_b) BYTES_PER_GIB
         in show_flt1 used_gb @ ''G / '' @ show_flt1 total_gb @ ''G''))"

definition parse_thermal_millidegrees :: "string \<Rightarrow> flt option" where
  "parse_thermal_millidegrees raw =
     (case parse_flt f32 (trim raw) of
        None \<Rightarrow> None
      | Some milli \<Rightarrow>
          (let celsius = flt_div f32 milli 1000 in
           if flt_less celsius (Fin False THERMAL_SANITY_CEILING_C) then Some celsius else None))"

definition is_interactive_sshd :: "string \<Rightarrow> string list \<Rightarrow> bool" where
  "is_interactive_sshd name cmd \<longleftrightarrow> name = ''sshd'' \<and> list_ex (str_contains ''@pts'') cmd"

section \<open>The sys_view and the snapshots\<close>

text \<open>An entry of \<^verbatim>\<open>/sys/class/thermal\<close>: its name and the content of its file \<open>temp\<close>.\<close>

type_synonym thermal_entry = "string option \<times> string io"

record disk_info =
  dk_mount_point :: string
  dk_total_space :: u64
  dk_available_space :: u64

record sys_view =
  sv_host_name :: "string option"
  sv_upper :: "string \<Rightarrow> string"
  sv_probe_bind :: bool
  sv_probe_connect :: bool
  sv_probe_local :: "sock_addr option"
  sv_uptime :: u64
  sv_thermal :: "thermal_entry option list option"
  sv_kernel :: "string option"
  sv_processes :: "(string \<times> string list) list"
  sv_cpu :: flt
  sv_memory :: "u64 \<times> u64"
  sv_components :: "flt option list"
  sv_disks :: "disk_info list"

record system_metrics =
  sm_processes :: "(string \<times> string list) list"
  sm_cpu :: flt
  sm_memory :: "u64 \<times> u64"
  sm_components :: "flt option list"
  sm_disks :: "disk_info list"

definition new_metrics :: "sys_view \<Rightarrow> system_metrics" where
  "new_metrics v =
     \<lparr>sm_processes = sv_processes v, sm_cpu = sv_cpu v, sm_memory = sv_memory v,
      sm_components = sv_components v, sm_disks = sv_disks v\<rparr>"

definition refresh_cpu :: "sys_view \<Rightarrow> system_metrics \<Rightarrow> system_metrics" where
  "refresh_cpu v sm = sm\<lparr>sm_cpu := sv_cpu v\<rparr>"

definition refresh_memory :: "sys_view \<Rightarrow> system_metrics \<Rightarrow> system_metrics" where
  "refresh_memory v sm = sm\<lparr>sm_memory := sv_memory v\<rparr>"

definition refresh_components :: "sys_view \<Rightarrow> system_metrics \<Rightarrow> system_metrics" where
  "refresh_components v sm = sm\<lparr>sm_components := sv_components v\<rparr>"

definition refresh_disks :: "sys_view \<Rightarrow> system_metrics \<Rightarrow> system_metrics" where
  "refresh_disks v sm = sm\<lparr>sm_disks := sv_disks v\<rparr>"

definition refresh_processes :: "sys_view \<Rightarrow> system_metrics \<Rightarrow> system_metrics" where
  "refresh_processes v sm = sm\<lparr>sm_processes := sv_processes v\<rparr>"

section \<open>The getters\<close>

definition get_hostname :: "sys_view \<Rightarrow> string" where
  "get_hostname v = sv_upper v (case sv_host_name v of Some n \<Rightarrow> n | None \<Rightarrow> ''UNKNOWN'')"

definition get_ip_address :: "sys_view \<Rightarrow> string" where
  "get_ip_address v =
     (case (if sv_probe_bind v then (if sv_probe_connect v then sv_probe_local v else None) else None) of
        Some addr \<Rightarrow> ip_to_string (addr_ip addr)
      | None \<Rightarrow> ''No IP'')"

definition get_uptime :: "sys_view \<Rightarrow> string" where
  "get_uptime v = format_uptime (sv_uptime v)"

text \<open>The loop over the components, and the loop over the thermal zones.\<close>

fun hottest_component :: "flt \<Rightarrow> flt option list \<Rightarrow> flt" where
  "hottest_component max_temp [] = max_temp"
| "hottest_component max_temp (c # cs) =
     (let temp = (case c of Some t \<Rightarrow> t | None \<Rightarrow> Fin False 0) in
      hottest_component (if flt_less max_temp temp then temp else max_temp) cs)"

fun hottest_zone :: "flt \<Rightarrow> thermal_entry option list \<Rightarrow> flt" where
  "hottest_zone max_temp [] = max_temp"
| "hottest_zone max_temp (None # es) = hottest_zone max_temp es"
| "hottest_zone max_temp (Some (file_name1, temp_file) # es) =
     hottest_zone
       (if pred_option (prefix ''thermal_zone'') file_name1 \<and> file_name1 \<noteq> None then
          (case temp_file of
             Inl _ \<Rightarrow> max_temp
           | Inr content \<Rightarrow>
               (case parse_thermal_millidegrees content of
                  None \<Rightarrow> max_temp
                | Some temp_c \<Rightarrow> if flt_less max_temp temp_c then temp_c else max_temp))
        else max_temp) es"

definition get_cpu_temp :: "sys_view \<Rightarrow> system_metrics \<Rightarrow> string" where
  "get_cpu_temp v sm =
     (let max_temp0 = hottest_component (Fin False 0) (sm_components sm);
          max_temp =
            (if flt_is_zero max_temp0 then
               (case sv_thermal v of Some entries \<Rightarrow> hottest_zone max_temp0 entries | None \<Rightarrow> max_temp0)
             else max_temp0)
      in if flt_less (Fin False 0) max_temp then show_flt1 max_temp @ ''C'' else ''N/A'')"

definition get_cpu_usage :: "system_metrics \<Rightarrow> string" where
  "get_cpu_usage sm = show_flt1 (sm_cpu sm) @ ''%''"

definition get_ram_usage :: "system_metrics \<Rightarrow> string" where
  "get_ram_usage sm = (case sm_memory sm of (used, total_b) \<Rightarrow> format_bytes_pair used total_b)"

text \<open>The subtraction of the sizes wraps, as in a release build.\<close>

definition get_disk_usage :: "system_metrics \<Rightarrow> string" where
  "get_disk_usage sm =
     (case List.find (\<lambda>d. dk_mount_point d = ''/'') (sm_disks sm) of
        Some d \<Rightarrow> format_bytes_pair (dk_total_space d - dk_available_space d) (dk_total_space d)
      | None \<Rightarrow> format_bytes_pair 0 0)"

definition get_kernel :: "sys_view \<Rightarrow> string" where
  "get_kernel v = (case sv_kernel v of Some k \<Rightarrow> k | None \<Rightarrow> ''N/A'')"

definition active_ssh_sessions :: "system_metrics \<Rightarrow> nat" where
  "active_ssh_sessions sm = length (filter (\<lambda>(name, cmd). is_interactive_sshd name cmd) (sm_processes sm))"

section \<open>The order of temperatures\<close>

definition flt_positive :: "flt \<Rightarrow> bool" where
  "flt_positive t = flt_less (Fin False 0) t"

lemma flt_less_trans: "flt_less a b \<Longrightarrow> flt_less b c \<Longrightarrow> flt_less a c"
  by (cases a; cases b; cases c) auto

lemma flt_less_irrefl [simp]: "\<not> flt_less a a"
  by (cases a) auto

text \<open>Not less is transitive between numbers.\<close>

lemma flt_not_less_trans: "\<not> flt_less b a \<Longrightarrow> flt_less b c \<Longrightarrow> b \<noteq> NaN \<Longrightarrow> a \<noteq> NaN \<Longrightarrow> flt_less a c"
  by (cases a; cases b; cases c) auto

lemma flt_less_NaN: "flt_less a b \<Longrightarrow> a \<noteq> NaN \<and> b \<noteq> NaN"
  by (cases a; cases b) auto

text \<open>The readings a loop takes into account; it keeps the first of the greatest.\<close>

definition keep_max :: "flt \<Rightarrow> flt \<Rightarrow> flt" where
  "keep_max m t = (if flt_less m t then t else m)"

definition zone_readings :: "thermal_entry option list \<Rightarrow> flt list" where
  "zone_readings es =
     List.map_filter (\<lambda>e. case e of
        Some (Some name, Inr content) \<Rightarrow> if prefix ''thermal_zone'' name then parse_thermal_millidegrees content else None
      | _ \<Rightarrow> None) es"

lemma hottest_component_fold:
  "hottest_component m cs = fold (\<lambda>t m. keep_max m t) (map (\<lambda>c. case c of Some t \<Rightarrow> t | None \<Rightarrow> Fin False 0) cs) m"
  by (induction cs arbitrary: m) (simp_all add: keep_max_def Let_def)

lemma hottest_zone_fold: "hottest_zone m es = fold (\<lambda>t m. keep_max m t) (zone_readings es) m"
  by (induction m es rule: hottest_zone.induct)
    (simp_all add: zone_readings_def keep_max_def map_filter_simps split: option.split sum.split)

lemma keep_max_number: "m \<noteq> NaN \<Longrightarrow> fold (\<lambda>t m. keep_max m t) ts m \<noteq> NaN"
proof (induction ts arbitrary: m)
  case (Cons t ts)
  have "keep_max m t \<noteq> NaN" using Cons.prems flt_less_NaN [of m t] by (auto simp: keep_max_def)
  from Cons.IH [OF this] show ?case by simp
qed simp

lemma keep_max_fold:
  assumes "m \<noteq> NaN"
  shows "fold (\<lambda>t m. keep_max m t) ts m \<in> insert m (set ts)
    \<and> (\<forall>t \<in> insert m (set ts). \<not> flt_less (fold (\<lambda>t m. keep_max m t) ts m) t)"
  using assms
proof (induction ts arbitrary: m)
  case (Cons t ts)
  have nan: "keep_max m t \<noteq> NaN" using Cons.prems flt_less_NaN by (auto simp: keep_max_def)
  note ih = Cons.IH [OF nan]
  have "\<not> flt_less (fold (\<lambda>t m. keep_max m t) ts (keep_max m t)) u" if "u \<in> {m, t}" for u
  proof
    assume less: "flt_less (fold (\<lambda>t m. keep_max m t) ts (keep_max m t)) u"
    have "\<not> flt_less (keep_max m t) u"
      using that flt_less_trans [of m t m] by (auto simp: keep_max_def)
    moreover have "flt_less (keep_max m t) u"
      using ih less nan flt_less_NaN [OF less] flt_not_less_trans by blast
    ultimately show False by simp
  qed
  with ih show ?case by (auto simp: keep_max_def)
qed simp

section \<open>Sizes in GiB\<close>

lemma gib_tenths:
  "\<exists>t \<ge> 0. show_flt1 (flt_div f64 (flt_of_u64 f64 n) BYTES_PER_GIB) = show_tenths t
    \<and> \<bar>t * 2 ^ 30 - 10 * uint n\<bar> \<le> 2 ^ 29 + 10 * 2 ^ 10"
proof (cases "n = 0")
  case True
  then have "show_flt1 (flt_div f64 (flt_of_u64 f64 n) BYTES_PER_GIB) = show_tenths 0"
    by (simp add: flt_of_u64_def mk_flt_def round_to_def flt_div_def show_flt1_def Let_def not_le round_half_even_def)
  with True show ?thesis by (intro exI [of _ 0]) simp
next
  case False
  then have "0 < uint n" using uint_ge_0 [of n] uint_0_iff [of n] by linarith
  moreover have "uint n < 2 ^ 64" using uint_lt2p [of n] by simp
  ultimately obtain m e where r: "round_to f64 (of_int (uint n)) = of_int m * pow2 e" "m \<le> 2 ^ 53" "- 53 \<le> e"
    and err: "\<bar>round_to f64 (of_int (uint n)) - of_int (uint n)\<bar> \<le> 2 ^ 10" and pos: "0 < round_to f64 (of_int (uint n))"
    by (rule f64_of_u64)
  define a where "a = round_to f64 (of_int (uint n))"
  have ar: "a = of_int m * pow2 e" and a_pos: "0 < a" using r(1) pos unfolding a_def by simp_all
  have "of_int (uint n) < (of_int (2 ^ 64) :: rat)" unfolding of_int_less_iff by fact
  then have "(of_int (uint n) :: rat) < 2 ^ 64" by (simp only: of_int_power of_int_numeral)
  then have "a < 2 ^ 65" using err by (simp add: a_def abs_le_iff)
  also have "(2 :: rat) ^ 65 \<le> pow2 1024" using pow2_mono [of 65 1024] by (simp add: pow2_def)
  finally have small: "a < pow2 1024" .
  then have conv: "flt_of_u64 f64 n = Fin False a" by (simp add: flt_of_u64_def mk_flt_def a_def)
  have shift: "a / BYTES_PER_GIB = of_int m * pow2 (e - 30)"
    using pow2_add [of "e - 30" 30] by (simp add: ar BYTES_PER_GIB_def pow2_def [of 30])
  have "round_to f64 (a / BYTES_PER_GIB) = a / BYTES_PER_GIB"
    using a_pos r(2,3) by (intro round_to_exact [OF _ shift]) (simp_all add: BYTES_PER_GIB_def)
  moreover have "a / BYTES_PER_GIB < pow2 1024" using small a_pos by (simp add: BYTES_PER_GIB_def)
  ultimately have quot: "flt_div f64 (flt_of_u64 f64 n) BYTES_PER_GIB = Fin False (a / BYTES_PER_GIB)"
    by (simp add: conv flt_div_def mk_flt_def)
  define t where "t = round_half_even (a / BYTES_PER_GIB * 10)"
  have "\<bar>of_int t - a / BYTES_PER_GIB * 10\<bar> * 2 ^ 30 \<le> 1 / 2 * (2 :: rat) ^ 30"
    unfolding t_def by (rule mult_right_mono [OF round_half_even_error]) simp
  moreover have "\<bar>of_int t - a / BYTES_PER_GIB * 10\<bar> * 2 ^ 30 = \<bar>of_int t * 2 ^ 30 - 10 * a\<bar>"
    by (simp add: BYTES_PER_GIB_def abs_if field_simps)
  ultimately have "\<bar>of_int t * 2 ^ 30 - 10 * a\<bar> \<le> 2 ^ 29" by simp
  moreover have "\<bar>10 * a - 10 * of_int (uint n)\<bar> \<le> 10 * 2 ^ 10" using err by (simp add: a_def abs_le_iff)
  ultimately have "\<bar>of_int t * 2 ^ 30 - 10 * of_int (uint n)\<bar> \<le> (2 ^ 29 + 10 * 2 ^ 10 :: rat)" by (simp add: abs_le_iff)
  then have "of_int \<bar>t * 2 ^ 30 - 10 * uint n\<bar> \<le> (of_int (2 ^ 29 + 10 * 2 ^ 10) :: rat)" by simp
  then have "\<bar>t * 2 ^ 30 - 10 * uint n\<bar> \<le> 2 ^ 29 + 10 * 2 ^ 10" unfolding of_int_le_iff .
  moreover have "0 \<le> t"
  proof -
    have "0 \<le> \<lfloor>a / BYTES_PER_GIB * 10\<rfloor>" using a_pos by (simp add: BYTES_PER_GIB_def)
    then show ?thesis by (auto simp: t_def round_half_even_def Let_def)
  qed
  moreover have "show_flt1 (flt_div f64 (flt_of_u64 f64 n) BYTES_PER_GIB) = show_tenths t"
    by (simp add: quot show_flt1_def t_def)
  ultimately show ?thesis by blast
qed

section \<open>Properties\<close>

text \<open>
  What the RAM and disk pages print: \<open>N/A\<close> for a total of zero, and otherwise two figures
  with one decimal that differ from the exact number of GiB by at most a twentieth, and the
  rounding of \<open>u64\<close> to \<open>f64\<close> (a kibibyte).
\<close>

theorem gib_pair_error:
  "if total_b = 0 then format_bytes_pair used total_b = ''N/A''
   else \<exists>u \<ge> 0. \<exists>t \<ge> 0. format_bytes_pair used total_b = show_tenths u @ ''G / '' @ show_tenths t @ ''G''
     \<and> \<bar>u * 2 ^ 30 - 10 * uint used\<bar> \<le> 2 ^ 29 + 10 * 2 ^ 10 \<and> \<bar>t * 2 ^ 30 - 10 * uint total_b\<bar> \<le> 2 ^ 29 + 10 * 2 ^ 10"
proof (cases "total_b = 0")
  case False
  obtain u t where "0 \<le> u" "show_flt1 (flt_div f64 (flt_of_u64 f64 used) BYTES_PER_GIB) = show_tenths u"
      "\<bar>u * 2 ^ 30 - 10 * uint used\<bar> \<le> 2 ^ 29 + 10 * 2 ^ 10"
    and "0 \<le> t" "show_flt1 (flt_div f64 (flt_of_u64 f64 total_b) BYTES_PER_GIB) = show_tenths t"
      "\<bar>t * 2 ^ 30 - 10 * uint total_b\<bar> \<le> 2 ^ 29 + 10 * 2 ^ 10"
    using gib_tenths [of used] gib_tenths [of total_b] by blast
  moreover from this have "format_bytes_pair used total_b = show_tenths u @ ''G / '' @ show_tenths t @ ''G''"
    using False by (simp add: format_bytes_pair_def Let_def)
  ultimately show ?thesis using False by (simp only: if_False) blast
qed (simp add: format_bytes_pair_def)

text \<open>The readings the temperature page chooses from: the components, or the zones when no component is warm.\<close>

definition temp_readings :: "sys_view \<Rightarrow> system_metrics \<Rightarrow> flt list" where
  "temp_readings v sm =
     (let cs = map (\<lambda>c. case c of Some t \<Rightarrow> t | None \<Rightarrow> Fin False 0) (sm_components sm) in
      if list_ex flt_positive cs then cs else (case sv_thermal v of Some es \<Rightarrow> zone_readings es | None \<Rightarrow> []))"

lemma zero_or_positive: "\<not> flt_less m (Fin False 0) \<Longrightarrow> m \<noteq> NaN \<Longrightarrow> flt_positive m \<longleftrightarrow> \<not> flt_is_zero m"
  by (cases m) (auto simp: flt_positive_def flt_is_zero_def signed_def)

text \<open>The loop from a zero: positive exactly if a reading is, and then a greatest reading.\<close>

lemma keep_max_from_zero:
  assumes "m0 = Fin b 0" "m = fold (\<lambda>t m. keep_max m t) ts m0"
  shows "(flt_positive m \<longleftrightarrow> list_ex flt_positive ts) \<and> (flt_is_zero m \<longleftrightarrow> \<not> flt_positive m)
    \<and> (flt_positive m \<longrightarrow> m \<in> set ts \<and> list_all (\<lambda>u. \<not> flt_less m u) ts)"
proof -
  have m0: "m0 \<noteq> NaN" "flt_less m0 u \<longleftrightarrow> flt_positive u" "flt_less u m0 \<longleftrightarrow> flt_less u (Fin False 0)" "\<not> flt_positive m0" for u
    by (cases u; simp add: assms(1) flt_positive_def signed_def)+
  note spec = keep_max_fold [OF m0(1), of ts, folded assms(2)]
  have notless: "\<not> flt_less m (Fin False 0)" using spec m0(3) by simp
  have nan: "m \<noteq> NaN" using keep_max_number [OF m0(1)] by (simp add: assms(2))
  have "flt_positive m" if "u \<in> set ts" "flt_positive u" for u
    using that spec flt_not_less_trans [of m m0 u]
    by (metis flt_less_NaN flt_not_less_trans flt_positive_def insertCI m0(1,2) nan)
  with spec m0(4) zero_or_positive [OF notless nan] show ?thesis by (auto simp: list_ex_iff list_all_iff)
qed


end
