(* ===== verification/Icons.thy ===== *)
theory Icons
  imports Prelude
begin

text \<open>
  \<^verbatim>\<open>crates/bootycall-oled/src/assets.rs\<close>: the three 16 by 16 pixel icons of the status pages.
\<close>

definition ICON_HOST :: bytes where
  "ICON_HOST =
    [0, 0, 0, 0, 0, 0, 0, 0, 0, 0, 0, 0, 0, 0, 0, 0,
     0, 0, 0, 0, 0, 0, 0, 0, 0, 0, 0, 0, 0, 0, 0, 0,
     0, 32, 180, 180, 180, 180, 180, 170, 170, 180, 180, 180, 180, 180, 32, 0,
     0, 76, 154, 32, 32, 32, 32, 32, 32, 32, 32, 32, 32, 154, 72, 0,
     0, 76, 134, 0, 0, 0, 0, 0, 0, 0, 0, 0, 0, 140, 72, 0,
     0, 76, 134, 0, 0, 0, 0, 0, 0, 0, 0, 0, 0, 140, 72, 0,
     0, 76, 134, 0, 0, 0, 0, 0, 0, 0, 0, 0, 0, 140, 72, 0,
     0, 76, 134, 0, 0, 0, 0, 0, 0, 0, 0, 0, 0, 140, 72, 0,
     0, 76, 134, 0, 0, 0, 0, 0, 0, 0, 0, 0, 0, 140, 72, 0,
     0, 76, 140, 12, 12, 12, 12, 12, 12, 12, 12, 12, 12, 143, 72, 0,
     0, 72, 200, 200, 200, 200, 200, 200, 200, 200, 200, 200, 200, 200, 72, 0,
     0, 154, 115, 104, 104, 104, 104, 104, 104, 104, 104, 104, 104, 115, 154, 0,
     170, 242, 188, 188, 188, 188, 154, 134, 134, 154, 188, 188, 188, 188, 242, 170,
     134, 134, 134, 143, 143, 143, 134, 115, 115, 134, 143, 143, 143, 143, 143, 134,
     0, 0, 0, 0, 0, 0, 0, 0, 0, 0, 0, 0, 0, 0, 0, 0,
     0, 0, 0, 0, 0, 0, 0, 0, 0, 0, 0, 0, 0, 0, 0, 0]"

definition ICON_NETWORK :: bytes where
  "ICON_NETWORK =
    [0, 0, 0, 0, 0, 0, 0, 0, 0, 0, 0, 0, 0, 0, 0, 0,
     211, 196, 196, 196, 196, 196, 196, 211, 0, 0, 0, 0, 0, 0, 0, 0,
     194, 97, 97, 97, 97, 97, 97, 196, 0, 0, 0, 0, 0, 0, 0, 0,
     194, 97, 97, 97, 97, 97, 97, 196, 0, 189, 158, 156, 189, 0, 0, 0,
     194, 97, 97, 97, 97, 97, 97, 196, 0, 0, 0, 1, 158, 0, 0, 0,
     194, 97, 97, 97, 97, 97, 97, 196, 0, 0, 0, 1, 158, 0, 0, 0,
     196, 196, 196, 211, 211, 196, 196, 196, 0, 0, 0, 1, 189, 0, 0, 0,
     0, 0, 158, 254, 254, 97, 0, 0, 0, 4, 4, 4, 4, 4, 4, 4,
     0, 0, 0, 0, 0, 0, 0, 0, 226, 194, 194, 194, 194, 194, 194, 226,
     0, 0, 0, 189, 0, 0, 0, 0, 194, 97, 97, 97, 97, 97, 97, 194,
     0, 0, 0, 158, 0, 0, 0, 0, 194, 97, 97, 97, 97, 97, 97, 194,
     0, 0, 0, 156, 1, 1, 1, 0, 194, 97, 97, 97, 97, 97, 97, 194,
     0, 0, 0, 189, 158, 158, 189, 0, 200, 119, 119, 119, 119, 119, 119, 200,
     0, 0, 0, 0, 0, 0, 0, 0, 175, 178, 178, 211, 211, 178, 178, 175,
     0, 0, 0, 0, 0, 0, 0, 0, 0, 0, 158, 226, 226, 158, 0, 0,
     0, 0, 0, 0, 0, 0, 0, 0, 0, 0, 0, 0, 0, 0, 0, 0]"

definition ICON_CLOCK :: bytes where
  "ICON_CLOCK =
    [0, 0, 0, 0, 41, 120, 162, 168, 168, 162, 129, 41, 0, 0, 0, 0,
     0, 0, 0, 107, 160, 107, 41, 20, 20, 41, 97, 160, 120, 0, 0, 0,
     0, 10, 129, 139, 20, 0, 0, 0, 0, 0, 0, 20, 129, 139, 10, 0,
     0, 107, 139, 0, 0, 0, 0, 88, 97, 0, 0, 0, 0, 129, 120, 0,
     41, 160, 20, 0, 0, 0, 0, 97, 107, 0, 0, 0, 0, 10, 160, 41,
     120, 97, 0, 0, 0, 0, 0, 97, 107, 0, 0, 0, 0, 0, 88, 129,
     162, 41, 0, 0, 0, 0, 0, 97, 107, 0, 0, 0, 0, 0, 41, 160,
     168, 20, 0, 0, 0, 0, 0, 97, 107, 0, 0, 0, 0, 0, 10, 162,
     168, 20, 0, 0, 0, 0, 0, 66, 168, 41, 0, 0, 0, 0, 10, 162,
     162, 41, 0, 0, 0, 0, 0, 0, 66, 168, 66, 0, 0, 0, 41, 160,
     129, 97, 0, 0, 0, 0, 0, 0, 0, 54, 168, 54, 0, 0, 88, 129,
     41, 160, 10, 0, 0, 0, 0, 0, 0, 0, 20, 20, 0, 10, 153, 54,
     0, 107, 129, 0, 0, 0, 0, 0, 0, 0, 0, 0, 0, 120, 120, 0,
     0, 10, 139, 129, 10, 0, 0, 0, 0, 0, 0, 10, 120, 153, 10, 0,
     0, 0, 10, 120, 160, 88, 41, 20, 10, 41, 88, 160, 120, 10, 0, 0,
     0, 0, 0, 0, 54, 129, 160, 162, 162, 160, 129, 54, 0, 0, 0, 0]"

lemma icon_lengths [simp]: "length ICON_HOST = 256" "length ICON_NETWORK = 256" "length ICON_CLOCK = 256"
  by (simp_all add: ICON_HOST_def ICON_NETWORK_def ICON_CLOCK_def)

end
