(* ===== verification/Png.thy ===== *)
theory Png
  imports Prelude
begin

text \<open>
  \<^verbatim>\<open>crates/bootycall-oled/src/png.rs\<close>: the PNG encoder of the simulator, with stored
  DEFLATE blocks, CRC-32 and Adler-32. The reference is a decoder written from the file
  formats: it checks the signature, the chunk checksums, the stored blocks and the
  Adler-32 sum, which it computes without intermediate reductions, and reads the rows.
\<close>

section \<open>The encoder\<close>

definition to_be32 :: "u32 \<Rightarrow> bytes" where
  "to_be32 w = [ucast (drop_bit 24 w), ucast (drop_bit 16 w), ucast (drop_bit 8 w), ucast w]"

definition to_le16 :: "u16 \<Rightarrow> bytes" where
  "to_le16 w = [ucast w, ucast (drop_bit 8 w)]"

definition crc_bit :: "u32 \<Rightarrow> u32" where
  "crc_bit crc = (let mask1 = - (crc AND 1) in drop_bit 1 crc XOR (0xEDB88320 AND mask1))"

definition crc32 :: "bytes \<Rightarrow> u32" where
  "crc32 data = NOT (fold (\<lambda>byte crc. (crc_bit ^^ 8) (crc XOR ucast byte)) data 0xFFFFFFFF)"

definition adler_step :: "u8 \<Rightarrow> u32 \<times> u32 \<Rightarrow> u32 \<times> u32" where
  "adler_step byte s = (let a = (fst s + ucast byte) mod 65521; b = (snd s + a) mod 65521 in (a, b))"

definition adler32 :: "bytes \<Rightarrow> u32" where
  "adler32 data = (case fold adler_step data (1, 0) of (a, b) \<Rightarrow> push_bit 16 b OR a)"

function store_blocks :: "bytes \<Rightarrow> nat \<Rightarrow> bytes" where
  "store_blocks data offset =
     (if offset < length data then
        (let chunk = take (min (offset + 0xFFFF) (length data) - offset) (drop offset data);
             is_final = (offset + length chunk = length data);
             len = of_nat (length chunk) :: u16
         in [if is_final then 1 else 0] @ to_le16 len @ to_le16 (NOT len) @ chunk
            @ store_blocks data (offset + length chunk))
      else [])"
  by pat_completeness auto
termination
  by (relation "measure (\<lambda>(data, offset). length data - offset)") auto

declare store_blocks.simps [simp del]

definition zlib_store :: "bytes \<Rightarrow> bytes" where
  "zlib_store data = [0x78, 0x01] @ store_blocks data 0 @ to_be32 (adler32 data)"

definition write_chunk :: "bytes \<Rightarrow> bytes \<Rightarrow> bytes \<Rightarrow> bytes" where
  "write_chunk out kind data = out @ to_be32 (of_nat (length data)) @ kind @ data @ to_be32 (crc32 (kind @ data))"

text \<open>\<open>slice::chunks\<close>; \<open>None\<close> of the encoder is the panic of the assertion or of a zero width.\<close>

function chunks :: "nat \<Rightarrow> 'a list \<Rightarrow> 'a list list" where
  "chunks n xs = (if n = 0 \<or> xs = [] then [] else take n xs # chunks n (drop n xs))"
  by pat_completeness auto
termination by (relation "measure (\<lambda>(n, xs). length xs)") auto

declare chunks.simps [simp del]

definition encode_gray_png :: "bytes \<Rightarrow> nat \<Rightarrow> nat \<Rightarrow> bytes option" where
  "encode_gray_png gray width height =
     (if length gray \<noteq> width * height \<or> width = 0 then None
      else
        (let out = [0x89, 0x50, 0x4E, 0x47, 0x0D, 0x0A, 0x1A, 0x0A];
             ihdr = to_be32 (of_nat width) @ to_be32 (of_nat height) @ [8, 0, 0, 0, 0];
             out1 = write_chunk out [0x49, 0x48, 0x44, 0x52] ihdr;
             raw = concat (map (\<lambda>row. 0 # row) (chunks width gray));
             out2 = write_chunk out1 [0x49, 0x44, 0x41, 0x54] (zlib_store raw)
         in Some (write_chunk out2 [0x49, 0x45, 0x4E, 0x44] [])))"

section \<open>A decoder\<close>

definition be32 :: "bytes \<Rightarrow> nat" where
  "be32 bs = foldl (\<lambda>n b. 256 * n + unat b) 0 bs"

definition read_chunk :: "bytes \<Rightarrow> (bytes \<times> bytes \<times> bytes) option" where
  "read_chunk bs =
     (let n = be32 (take 4 bs); kind = take 4 (drop 4 bs); data = take n (drop 8 bs) in
      if 12 + n \<le> length bs \<and> take 4 (drop (8 + n) bs) = to_be32 (crc32 (kind @ data))
      then Some (kind, data, drop (12 + n) bs) else None)"

text \<open>The sums of RFC 1950, reduced once at the end.\<close>

definition adler_sums :: "bytes \<Rightarrow> nat \<times> nat" where
  "adler_sums data = fold (\<lambda>x (a, b). (a + unat x, b + (a + unat x))) data (1, 0)"

definition adler_spec :: "bytes \<Rightarrow> nat" where
  "adler_spec data = (case adler_sums data of (a, b) \<Rightarrow> (b mod 65521) * 65536 + a mod 65521)"

function inflate_stored :: "bytes \<Rightarrow> (bytes \<times> bytes) option" where
  "inflate_stored bs =
     (case bs of
        f # l0 # l1 # n0 # n1 # rest \<Rightarrow>
          (let n = unat l0 + 256 * unat l1 in
           if n + (unat n0 + 256 * unat n1) \<noteq> 65535 \<or> length rest < n \<or> f \<notin> {0, 1} then None
           else if f = 1 then Some (take n rest, drop n rest)
           else map_option (map_prod ((@) (take n rest)) id) (inflate_stored (drop n rest)))
      | _ \<Rightarrow> None)"
  by pat_completeness auto
termination by (relation "measure length") auto

declare inflate_stored.simps [simp del]

definition unzlib :: "bytes \<Rightarrow> bytes option" where
  "unzlib bs =
     (case bs of
        cmf # flg # body \<Rightarrow>
          if (256 * unat cmf + unat flg) mod 31 \<noteq> 0 \<or> cmf \<noteq> 0x78 then None
          else (case inflate_stored body of
                  None \<Rightarrow> None
                | Some (data, check) \<Rightarrow> if length check = 4 \<and> be32 check = adler_spec data then Some data else None)
      | _ \<Rightarrow> None)"

definition unfilter :: "bytes list \<Rightarrow> bytes option" where
  "unfilter rows = (if list_all (\<lambda>r. r \<noteq> [] \<and> hd r = 0) rows then Some (concat (map tl rows)) else None)"

definition decode_gray_png :: "bytes \<Rightarrow> (nat \<times> nat \<times> bytes) option" where
  "decode_gray_png bs =
     (if take 8 bs \<noteq> [0x89, 0x50, 0x4E, 0x47, 0x0D, 0x0A, 0x1A, 0x0A] then None
      else case read_chunk (drop 8 bs) of
        Some (k1, ihdr, r1) \<Rightarrow>
          (case read_chunk r1 of
             Some (k2, idat, r2) \<Rightarrow>
               (case read_chunk r2 of
                  Some (k3, iend, r3) \<Rightarrow>
                    (let w = be32 (take 4 ihdr); h = be32 (take 4 (drop 4 ihdr)) in
                     if k1 \<noteq> [0x49, 0x48, 0x44, 0x52] \<or> k2 \<noteq> [0x49, 0x44, 0x41, 0x54] \<or> k3 \<noteq> [0x49, 0x45, 0x4E, 0x44]
                        \<or> length ihdr \<noteq> 13 \<or> drop 8 ihdr \<noteq> [8, 0, 0, 0, 0] \<or> iend \<noteq> [] \<or> r3 \<noteq> [] \<or> w = 0 then None
                     else case unzlib idat of
                       None \<Rightarrow> None
                     | Some raw \<Rightarrow>
                         if length raw \<noteq> h * (1 + w) then None
                         else map_option (\<lambda>gray. (w, h, gray)) (unfilter (chunks (1 + w) raw)))
                | None \<Rightarrow> None)
           | None \<Rightarrow> None)
      | None \<Rightarrow> None)"

section \<open>Integers\<close>

lemma unat_ucast_drop8: "unat (ucast (drop_bit k (w :: 'a::len word)) :: u8) = unat w div 2 ^ k mod 256"
proof -
  have "unat (drop_bit k w) = unat w div 2 ^ k"
    unfolding unsigned_drop_bit_eq by (simp add: drop_bit_eq_div [of _ "unat w"] unsigned_take_bit_eq [symmetric])
  then show ?thesis by (simp add: unsigned_ucast_eq take_bit_eq_mod)
qed

lemma unat_ucast_low: "unat (ucast (w :: 'a::len word) :: u8) = unat w mod 256"
  by (simp add: unsigned_ucast_eq take_bit_eq_mod)

lemma base_256: "(n :: nat) < 2 ^ 32 \<Longrightarrow>
  256 * (256 * (256 * (n div 2 ^ 24 mod 256) + n div 2 ^ 16 mod 256) + n div 2 ^ 8 mod 256) + n mod 256 = n"
proof -
  assume n: "n < 2 ^ 32"
  define q1 q2 q3 where "q1 = n div 256" and "q2 = q1 div 256" and "q3 = q2 div 256"
  have q: "n div 2 ^ 8 = q1" "n div 2 ^ 16 = q2" "n div 2 ^ 24 = q3"
    by (simp_all add: q1_def q2_def q3_def div_mult2_eq [symmetric])
  have "n = 256 * q1 + n mod 256" "q1 = 256 * q2 + q1 mod 256" "q2 = 256 * q3 + q2 mod 256"
    by (simp_all add: q1_def q2_def q3_def)
  moreover have "q3 < 256" using n by (simp add: q1_def q2_def q3_def div_mult2_eq [symmetric] less_mult_imp_div_less)
  ultimately show ?thesis unfolding q by (simp add: mod_less)
qed

lemma be32_to_be32 [simp]: "be32 (to_be32 w) = unat w"
proof -
  have "unat w < 2 ^ 32" using unsigned_less [of w] by simp
  from base_256 [OF this] show ?thesis
    by (simp only: be32_def to_be32_def foldl.simps unat_ucast_drop8 unat_ucast_low [of w] mult_0_right add_0)
qed

lemma length_to_be32 [simp]: "length (to_be32 w) = 4"
  by (simp add: to_be32_def)

lemma read_to_le16: "to_le16 w = [a, b] \<Longrightarrow> unat a + 256 * unat b = unat w"
proof -
  assume "to_le16 w = [a, b]"
  then have "a = ucast w" "b = ucast (drop_bit 8 w)" by (simp_all add: to_le16_def)
  moreover have "unat w < 65536" by (rule unat_u16_less)
  ultimately show ?thesis by (simp add: unat_ucast_drop8 [of 8 w] unat_ucast_low [of w])
qed

section \<open>Chunks\<close>

lemma read_written_chunk:
  assumes "length kind = 4" "length data < 2 ^ 32"
  shows "read_chunk (to_be32 (of_nat (length data)) @ kind @ data @ to_be32 (crc32 (kind @ data)) @ rest) = Some (kind, data, rest)"
proof -
  have n: "be32 (to_be32 (of_nat (length data))) = length data"
    using assms(2) by (simp add: unat_of_nat)
  then show ?thesis using assms(1) by (simp add: read_chunk_def Let_def)
qed

section \<open>Adler-32\<close>

lemma unat_mod_add:
  fixes x y :: u32
  assumes "unat x + unat y < 2 ^ 32"
  shows "unat ((x + y) mod 65521) = (unat x + unat y) mod 65521"
  using assms by (simp add: unat_mod unat_word_ariths)

lemma adler_step_sums:
  assumes "unat a = m mod 65521" "unat b = n mod 65521"
  shows "adler_step x (a, b) = (a', b') \<Longrightarrow> unat a' = (m + unat x) mod 65521 \<and> unat b' = (n + (m + unat x)) mod 65521"
proof -
  assume s: "adler_step x (a, b) = (a', b')"
  have x: "unat (ucast x :: u32) = unat x" by (simp add: unsigned_ucast_eq unat_u8_less take_bit_nat_eq_self less_trans [OF unat_u8_less])
  have a': "unat a' = (m + unat x) mod 65521"
    using s unat_mod_add [of a "ucast x"] assms(1) unat_u8_less [of x] by (auto simp: adler_step_def Let_def x mod_add_left_eq)
  then have "unat a' < 65521" by simp
  moreover have "b' = (b + a') mod 65521" using s by (auto simp: adler_step_def Let_def)
  ultimately have "unat b' = (unat b + unat a') mod 65521" using unat_mod_add [of b a'] assms(2) by simp
  also have "\<dots> = (n + (m + unat x)) mod 65521" unfolding a' assms(2) by (simp add: mod_add_eq)
  finally show ?thesis using a' by simp
qed

lemma adler_fold:
  assumes "unat a = m mod 65521" "unat b = n mod 65521"
    "fold adler_step data (a, b) = (a', b')"
    "fold (\<lambda>x (a, b). (a + unat x, b + (a + unat x))) data (m, n) = (m', n')"
  shows "unat a' = m' mod 65521 \<and> unat b' = n' mod 65521"
  using assms
proof (induction data arbitrary: a b m n)
  case (Cons x data)
  obtain a1 b1 where s: "adler_step x (a, b) = (a1, b1)" by (cases "adler_step x (a, b)")
  from Cons.IH [OF conjunct1 conjunct2, OF adler_step_sums adler_step_sums, OF Cons.prems(1,2) s Cons.prems(1,2) s]
  show ?case using Cons.prems(3,4) s by simp
qed simp

lemma adler32_exact: "unat (adler32 data) = adler_spec data"
proof -
  obtain a b where run: "fold adler_step data (1, 0) = (a, b)" by fastforce
  obtain m n where sums: "adler_sums data = (m, n)" by fastforce
  have ab: "unat a = m mod 65521" "unat b = n mod 65521"
    using adler_fold [of 1 1 0 0 data a b m n] run sums by (simp_all add: adler_sums_def)
  then have lt: "unat a < 65536" "unat b < 65536" by (simp_all add: less_trans [of _ 65521])
  have "bit (push_bit 16 b) k \<Longrightarrow> \<not> bit a k" for k
  proof
    assume "bit (push_bit 16 b) k" "bit a k"
    then have "16 \<le> k" "bit (unat a) k" by (auto simp: bit_simps bit_unsigned_iff)
    moreover have "take_bit 16 (unat a) = unat a" using lt(1) by (simp add: take_bit_nat_eq_self)
    ultimately show False by (metis bit_take_bit_iff not_le)
  qed
  then have "push_bit 16 b AND a = 0" by (auto simp: bit_eq_iff bit_simps)
  then have "adler32 data = push_bit 16 b + a"
    by (simp add: adler32_def run disjunctive_add_eq_or [symmetric])
  moreover have "unat (push_bit 16 b) = unat b * 65536"
    unfolding unsigned_push_bit_eq using lt(2) by (simp add: push_bit_eq_mult take_bit_nat_eq_self)
  ultimately show ?thesis using lt ab by (simp add: adler_spec_def sums unat_word_ariths)
qed

section \<open>Stored blocks\<close>

lemma unat_not_u16: "unat w + unat (NOT w :: u16) = 65535"
proof -
  have "NOT w = (- 1 :: u16) - w" by (simp add: not_eq_complement)
  moreover have "w \<le> (- 1 :: u16)" by simp
  ultimately have "unat (NOT w) = unat (- 1 :: u16) - unat w" by (simp only: unat_sub)
  moreover have "unat (- 1 :: u16) = 65535" by (simp add: unsigned_minus_1_eq_mask mask_eq_exp_minus_1)
  moreover have "unat w < 65536" by (rule unat_u16_less)
  ultimately show ?thesis by linarith
qed

lemma length_to_le16 [simp]: "length (to_le16 w) = 2"
  by (simp add: to_le16_def)

lemma to_le16_cases: obtains a b where "to_le16 w = [a, b]" "unat a + 256 * unat b = unat w"
  using read_to_le16 by (simp add: to_le16_def)

text \<open>One stored block, read back.\<close>

lemma inflate_block:
  assumes "length chunk < 65536" "f \<in> {0, 1}"
  shows "inflate_stored ([f] @ to_le16 (of_nat (length chunk)) @ to_le16 (NOT (of_nat (length chunk))) @ chunk @ rest) =
    (if f = 1 then Some (chunk, rest) else map_option (map_prod ((@) chunk) id) (inflate_stored rest))"
proof -
  let ?w = "of_nat (length chunk) :: u16"
  obtain a b where ab: "to_le16 ?w = [a, b]" "unat a + 256 * unat b = unat ?w" by (rule to_le16_cases)
  obtain c d where cd: "to_le16 (NOT ?w) = [c, d]" "unat c + 256 * unat d = unat (NOT ?w)" by (rule to_le16_cases)
  have len: "unat ?w = length chunk" using assms(1) by (simp add: unat_of_nat)
  have "unat ?w + unat (NOT ?w) = 65535" by (rule unat_not_u16)
  with assms(2) show ?thesis
    by (simp add: ab(1) cd(1) inflate_stored.simps [of "f # a # b # c # d # chunk @ rest"] Let_def ab(2) cd(2) len)
qed

lemma inflate_store_blocks:
  assumes "offset < length data"
  shows "inflate_stored (store_blocks data offset @ rest) = Some (drop offset data, rest)"
  using assms
proof (induction data offset rule: store_blocks.induct)
  case (1 data offset)
  define chunk where "chunk = take (min (offset + 0xFFFF) (length data) - offset) (drop offset data)"
  have len: "length chunk = min 65535 (length data - offset)" using 1(2) by (auto simp: chunk_def min_def)
  have split: "drop offset data = chunk @ drop (offset + length chunk) data"
    by (simp add: chunk_def len) (metis append_take_drop_id drop_drop add.commute len chunk_def length_take)
  have eq: "store_blocks data offset = [if offset + length chunk = length data then 1 else 0] @ to_le16 (of_nat (length chunk))
      @ to_le16 (NOT (of_nat (length chunk))) @ chunk @ store_blocks data (offset + length chunk)"
    using 1(2) by (simp only: store_blocks.simps [of data offset] Let_def chunk_def if_True)
  have small: "length chunk < 65536" by (simp add: len)
  show ?case
  proof (cases "offset + length chunk = length data")
    case True
    have none: "store_blocks data (length data) = []" by (simp add: store_blocks.simps [of data "length data"])
    from True have "drop offset data = chunk" using split by simp
    with True inflate_block [OF small, of 1 "store_blocks data (offset + length chunk) @ rest"] show ?thesis
      by (simp add: eq none)
  next
    case False
    then have less: "offset + length chunk < length data" using 1(2) len by auto
    have "inflate_stored (store_blocks data (offset + length chunk) @ rest) = Some (drop (offset + length chunk) data, rest)"
      using 1(1) [OF 1(2) refl refl refl] less by (simp only: chunk_def [symmetric])
    with False inflate_block [OF small, of 0 "store_blocks data (offset + length chunk) @ rest"] split show ?thesis
      by (simp add: eq)
  qed
qed

lemma unzlib_store:
  assumes "data \<noteq> []"
  shows "unzlib (zlib_store data) = Some data"
proof -
  have "inflate_stored (store_blocks data 0 @ to_be32 (adler32 data)) = Some (data, to_be32 (adler32 data))"
    using inflate_store_blocks [of 0 data] assms by simp
  then show ?thesis by (simp add: unzlib_def zlib_store_def adler32_exact)
qed

section \<open>Rows\<close>

lemma chunks_rows:
  assumes "0 < w" "length gray = w * h"
  shows "concat (chunks w gray) = gray \<and> length (chunks w gray) = h \<and> (\<forall>r \<in> set (chunks w gray). length r = w)"
  using assms(2)
proof (induction h arbitrary: gray)
  case 0
  then show ?case by (simp add: chunks.simps [of w "[]"])
next
  case (Suc h)
  have len: "length (drop w gray) = w * h" using Suc.prems by simp
  have "gray \<noteq> []" using Suc.prems assms(1) by auto
  then have "chunks w gray = take w gray # chunks w (drop w gray)" using assms(1) by (simp add: chunks.simps [of w gray])
  with Suc.IH [OF len] Suc.prems show ?case by simp
qed

lemma chunks_concat:
  assumes "0 < w" "\<forall>r \<in> set rows. length r = w"
  shows "chunks w (concat rows) = rows"
  using assms(2)
proof (induction rows)
  case (Cons r rows)
  then have "r \<noteq> []" using assms(1) by auto
  with Cons assms(1) show ?case by (simp add: chunks.simps [of w "r @ concat rows"])
qed (simp add: chunks.simps [of w "[]"])

lemma unfilter_rows: "unfilter (map (\<lambda>row. 0 # row) rows) = Some (concat rows)"
  by (simp add: unfilter_def list_all_iff comp_def)

section \<open>The encoder and the decoder\<close>

lemma decode_encoded:
  assumes "0 < width" "0 < height" "length gray = width * height" "width < 2 ^ 32" "height < 2 ^ 32"
    and "length (zlib_store (concat (map (\<lambda>row. 0 # row) (chunks width gray)))) < 2 ^ 32"
  shows "Option.bind (encode_gray_png gray width height) decode_gray_png = Some (width, height, gray)"
proof -
  define rows where "rows = chunks width gray"
  define raw where "raw = concat (map (\<lambda>row. (0 :: u8) # row) rows)"
  define ihdr where "ihdr = to_be32 (of_nat width) @ to_be32 (of_nat height) @ [8, 0, 0, 0, 0]"
  have rows: "concat rows = gray" "length rows = height" "\<forall>r \<in> set rows. length r = width"
    using chunks_rows [OF assms(1,3)] by (auto simp: rows_def)
  have reread: "chunks (1 + width) raw = map (\<lambda>row. 0 # row) rows"
    unfolding raw_def using rows(3) by (intro chunks_concat) auto
  have "length raw = sum_list (map (\<lambda>r. 1 + length r) rows)" by (simp add: raw_def length_concat comp_def)
  also have "\<dots> = height * (1 + width)"
    using rows(2,3) by (simp add: map_idI sum_list_triv cong: map_cong)
  finally have len: "length raw = height * (1 + width)" .
  with assms(2) have "raw \<noteq> []" by auto
  from unzlib_store [OF this] have unz: "unzlib (zlib_store raw) = Some raw" .
  have small: "length (zlib_store raw) < 2 ^ 32" using assms(6) by (simp add: raw_def rows_def)
  define t3 where "t3 = to_be32 (of_nat (length ([] :: bytes))) @ [0x49, 0x45, 0x4E, 0x44] @ [] @ to_be32 (crc32 ([0x49, 0x45, 0x4E, 0x44] @ [])) @ []"
  define t2 where "t2 = to_be32 (of_nat (length (zlib_store raw))) @ [0x49, 0x44, 0x41, 0x54] @ zlib_store raw
      @ to_be32 (crc32 ([0x49, 0x44, 0x41, 0x54] @ zlib_store raw)) @ t3"
  define t1 where "t1 = to_be32 (of_nat (length ihdr)) @ [0x49, 0x48, 0x44, 0x52] @ ihdr @ to_be32 (crc32 ([0x49, 0x48, 0x44, 0x52] @ ihdr)) @ t2"
  have ihdr: "length ihdr = 13" "take 4 ihdr = to_be32 (of_nat width)" "take 4 (drop 4 ihdr) = to_be32 (of_nat height)"
    "drop 8 ihdr = [8, 0, 0, 0, 0]" by (simp_all add: ihdr_def)
  have r1: "read_chunk t1 = Some ([0x49, 0x48, 0x44, 0x52], ihdr, t2)"
    unfolding t1_def by (rule read_written_chunk) (simp_all add: ihdr)
  have r2: "read_chunk t2 = Some ([0x49, 0x44, 0x41, 0x54], zlib_store raw, t3)"
    unfolding t2_def by (rule read_written_chunk) (use small in simp_all)
  have r3: "read_chunk t3 = Some ([0x49, 0x45, 0x4E, 0x44], [], [])"
    unfolding t3_def by (rule read_written_chunk) simp_all
  have dims: "unat (of_nat width :: u32) = width" "unat (of_nat height :: u32) = height"
    using assms(4,5) by (simp_all add: unat_of_nat)
  have enc: "encode_gray_png gray width height = Some ([0x89, 0x50, 0x4E, 0x47, 0x0D, 0x0A, 0x1A, 0x0A] @ t1)"
    using assms(1,3) by (simp add: encode_gray_png_def write_chunk_def Let_def t1_def t2_def t3_def ihdr_def raw_def rows_def)
  have "decode_gray_png ([0x89, 0x50, 0x4E, 0x47, 0x0D, 0x0A, 0x1A, 0x0A] @ t1) = Some (width, height, gray)"
    using assms(1) unz reread len unfilter_rows [of rows] rows(1)
    by (simp add: decode_gray_png_def r1 r2 r3 ihdr dims Let_def)
  then show ?thesis by (simp add: enc)
qed

section \<open>Properties\<close>



end
