(* ===== verification/Oled_Loop.thy ===== *)
theory Oled_Loop
  imports Canvas Metrics Icons State_Store Png File_System
begin

text \<open>
  The display task: \<^verbatim>\<open>crates/bootycall-oled/src/lib.rs\<close> with the metrics of \<open>Metrics\<close> on
  its pages. \<open>render_tick\<close> is one pass of \<open>render_loop\<close>, from the clock readings, the
  activity and the answers of the hardware to the drawn and presented frame. What \<open>sysinfo\<close>
  would report, the font engine and the GPIO lines are third-party code and arguments. Instants are nanoseconds.
\<close>

section \<open>Constants and small decisions\<close>

definition PAGE_DURATION :: nat where "PAGE_DURATION = from_secs 3"
definition SCREENSAVER_TIMEOUT :: nat where "SCREENSAVER_TIMEOUT = from_secs 120"
definition SIM_SCREENSAVER_TIMEOUT :: nat where "SIM_SCREENSAVER_TIMEOUT = from_secs 3"
definition SCREENSAVER_BRIGHTNESS_PERCENT :: u16 where "SCREENSAVER_BRIGHTNESS_PERCENT = 40"
definition OPTIONAL_HW_RETRY_INTERVAL :: nat where "OPTIONAL_HW_RETRY_INTERVAL = from_secs 60"
definition VISIBLE_Y_START :: nat where "VISIBLE_Y_START = 28"
definition VISIBLE_HEIGHT :: nat where "VISIBLE_HEIGHT = 32"
definition METRICS_MARGIN_X :: nat where "METRICS_MARGIN_X = 12"
definition METRICS_TEXT_X :: nat where "METRICS_TEXT_X = 32"
definition METRICS_LABEL_DY :: nat where "METRICS_LABEL_DY = 2"
definition METRICS_SEPARATOR_DY :: nat where "METRICS_SEPARATOR_DY = 15"
definition METRICS_VALUE_DY :: nat where "METRICS_VALUE_DY = 16"
definition METRICS_SEPARATOR_BRIGHTNESS :: u8 where "METRICS_SEPARATOR_BRIGHTNESS = 128"
definition SCREENSAVER_BLOCK_HEIGHT :: int where "SCREENSAVER_BLOCK_HEIGHT = 21"
definition TEXT_EDGE_MARGIN :: nat where "TEXT_EDGE_MARGIN = 5"

text \<open>\<open>Instant::duration_since\<close>, which saturates at zero.\<close>

definition since :: "int \<Rightarrow> int \<Rightarrow> nat" where
  "since now earlier = nat (now - earlier)"

definition optional_hw_retry_due :: "nat \<Rightarrow> bool" where
  "optional_hw_retry_due since_last_attempt = (since_last_attempt \<ge> OPTIONAL_HW_RETRY_INTERVAL)"

definition oled_hardware_present :: "bool \<Rightarrow> bool \<Rightarrow> bool" where
  "oled_hardware_present fb_exists gpiochip_exists = (fb_exists \<or> gpiochip_exists)"

record optional_line =
  ol_request :: bool
  ol_last_attempt :: int

definition new_line :: "bool \<Rightarrow> int \<Rightarrow> optional_line" where
  "new_line acquired now = \<lparr>ol_request = acquired, ol_last_attempt = now\<rparr>"

definition poll_line :: "bool \<Rightarrow> int \<Rightarrow> optional_line \<Rightarrow> optional_line" where
  "poll_line acquired now l =
     (if \<not> ol_request l \<and> optional_hw_retry_due (since now (ol_last_attempt l))
      then l\<lparr>ol_last_attempt := now, ol_request := acquired\<rparr> else l)"

datatype display_mode = Screensaver | Metrics

definition mode_brightness :: "u8 \<Rightarrow> display_mode \<Rightarrow> u8" where
  "mode_brightness base mode =
     (case mode of
        Metrics \<Rightarrow> base
      | Screensaver \<Rightarrow> ucast (ucast base * SCREENSAVER_BRIGHTNESS_PERCENT div 100 :: u16))"

record bounce_box =
  bb_min_x :: int
  bb_max_x :: int
  bb_min_y :: int
  bb_max_y :: int

definition step_bounce :: "int \<Rightarrow> int \<Rightarrow> int \<Rightarrow> int \<Rightarrow> bounce_box \<Rightarrow> int \<times> int \<times> int \<times> int" where
  "step_bounce x0 y0 dx0 dy0 b =
     (let x = x0 + dx0; y = y0 + dy0;
          (x, dx) = (if x \<ge> bb_max_x b then (bb_max_x b, - \<bar>dx0\<bar>)
                     else if x \<le> bb_min_x b then (bb_min_x b, \<bar>dx0\<bar>) else (x, dx0));
          (y, dy) = (if y \<ge> bb_max_y b then (bb_max_y b, - \<bar>dy0\<bar>)
                     else if y \<le> bb_min_y b then (bb_min_y b, \<bar>dy0\<bar>) else (y, dy0))
      in (x, y, dx, dy))"

section \<open>The pages\<close>

record page_spec =
  pg_label :: string
  pg_icon :: bytes
  pg_icon_dy :: nat
  pg_refresh :: "(sys_view \<Rightarrow> system_metrics \<Rightarrow> system_metrics) option"
  pg_value :: "sys_view \<Rightarrow> system_metrics \<Rightarrow> string"

definition PAGES :: "page_spec list" where
  "PAGES =
     [\<lparr>pg_label = ''HOSTNAME'', pg_icon = ICON_HOST, pg_icon_dy = 0, pg_refresh = None,
       pg_value = (\<lambda>v sm. get_hostname v)\<rparr>,
      \<lparr>pg_label = ''IP ADDRESS'', pg_icon = ICON_NETWORK, pg_icon_dy = 0, pg_refresh = None,
       pg_value = (\<lambda>v sm. get_ip_address v)\<rparr>,
      \<lparr>pg_label = ''UPTIME'', pg_icon = ICON_CLOCK, pg_icon_dy = 1, pg_refresh = None,
       pg_value = (\<lambda>v sm. get_uptime v)\<rparr>,
      \<lparr>pg_label = ''CPU TEMP'', pg_icon = ICON_HOST, pg_icon_dy = 0, pg_refresh = Some refresh_components,
       pg_value = get_cpu_temp\<rparr>,
      \<lparr>pg_label = ''CPU USAGE'', pg_icon = ICON_HOST, pg_icon_dy = 0, pg_refresh = Some refresh_cpu,
       pg_value = (\<lambda>v sm. get_cpu_usage sm)\<rparr>,
      \<lparr>pg_label = ''RAM USAGE'', pg_icon = ICON_HOST, pg_icon_dy = 0, pg_refresh = Some refresh_memory,
       pg_value = (\<lambda>v sm. get_ram_usage sm)\<rparr>,
      \<lparr>pg_label = ''DISK USAGE'', pg_icon = ICON_HOST, pg_icon_dy = 0, pg_refresh = Some refresh_disks,
       pg_value = (\<lambda>v sm. get_disk_usage sm)\<rparr>,
      \<lparr>pg_label = ''KERNEL'', pg_icon = ICON_HOST, pg_icon_dy = 0, pg_refresh = None,
       pg_value = (\<lambda>v sm. get_kernel v)\<rparr>]"

definition draw_metrics_page ::
  "fonts \<Rightarrow> string \<Rightarrow> string \<Rightarrow> bytes option \<Rightarrow> nat \<Rightarrow> framebuffer \<Rightarrow> framebuffer option" where
  "draw_metrics_page fs label val icon icon_dy fb =
     (let framed =
        (case icon of
           None \<Rightarrow> Some fb
         | Some bmp \<Rightarrow>
             draw_line METRICS_MARGIN_X (VISIBLE_Y_START + METRICS_SEPARATOR_DY) (WIDTH - METRICS_MARGIN_X)
               (VISIBLE_Y_START + METRICS_SEPARATOR_DY) METRICS_SEPARATOR_BRIGHTNESS
               (draw_bitmap METRICS_MARGIN_X (VISIBLE_Y_START + icon_dy) bmp 16 16 fb))
      in map_option
           (\<lambda>fb1.
              (let fb2 = draw_text fs METRICS_TEXT_X (VISIBLE_Y_START + METRICS_LABEL_DY) label False fb1;
                   text_w = measure_text fs val True;
                   val_x = (if text_w < WIDTH then (WIDTH - text_w) div 2 else 0)
               in draw_text fs val_x (VISIBLE_Y_START + METRICS_VALUE_DY) val True fb2)) framed)"

section \<open>Sinks\<close>

datatype sink_log = NowAvailable | NotAvailable | WriteFailed io_error

text \<open>The production sink: the latch, the device and what it writes and logs.\<close>

definition panel_present ::
  "bool \<Rightarrow> io_error option \<Rightarrow> bool \<Rightarrow> framebuffer \<Rightarrow> bool \<times> framebuffer \<times> bytes option \<times> sink_log option" where
  "panel_present opens written fb_available fb =
     (case write_packed written (fst (ensure_open opens fb)) of
        (fb', Inr True, out) \<Rightarrow> (True, fb', out, if \<not> fb_available then Some NowAvailable else None)
      | (fb', Inr False, out) \<Rightarrow> (False, fb', out, if fb_available then Some NotAvailable else None)
      | (fb', Inl e, out) \<Rightarrow> (False, fb', out, Some (WriteFailed e)))"

text \<open>The simulator's sink: the number of the frame and its PNG, while the budget lasts.\<close>

definition sim_present :: "nat \<Rightarrow> nat \<Rightarrow> framebuffer \<Rightarrow> nat \<times> bool \<times> (nat \<times> bytes option) option" where
  "sim_present max_frames frame fb =
     (if frame \<ge> max_frames then (frame, False, None)
      else (frame + 1, True, Some (frame, encode_gray_png (fb_buffer fb) WIDTH HEIGHT)))"

section \<open>One pass of the render loop\<close>

record display =
  di_fb :: framebuffer
  di_detect :: optional_line
  di_enable :: optional_line
  di_last_activity :: int
  di_mode :: display_mode
  di_page :: nat
  di_last_flip :: int
  di_ss :: "int \<times> int \<times> int \<times> int"
  di_last_ssh_check :: int
  di_active_ssh :: bool
  di_metrics :: system_metrics

text \<open>What one pass reads: three readings of the clock, in order, the
  hardware, and what \<open>sysinfo\<close> would report when the processes are listed, when the page's
  subsystem is refreshed, and when the value is asked for.\<close>

record tick_input =
  ti_now :: int
  ti_idle_now :: int
  ti_flip_now :: int
  ti_detect_acquired :: bool
  ti_enable_acquired :: bool
  ti_ssh_view :: sys_view
  ti_store :: state_store
  ti_store_now :: int
  ti_fonts :: fonts
  ti_refresh_view :: sys_view
  ti_value_view :: sys_view
  ti_detect_inactive :: "bool option"

definition new_display :: "bool \<Rightarrow> bool \<Rightarrow> bool \<Rightarrow> u8 \<Rightarrow> sys_view \<Rightarrow> int \<Rightarrow> display" where
  "new_display opens detect enable brightness v now =
     \<lparr>di_fb = with_brightness opens brightness, di_detect = new_line detect now, di_enable = new_line enable now,
      di_last_activity = now, di_mode = Metrics, di_page = 0, di_last_flip = now, di_ss = (0, int VISIBLE_Y_START, 1, 1),
      di_last_ssh_check = now - int (from_secs 10), di_active_ssh = False, di_metrics = new_metrics v\<rparr>"

definition poll_ssh :: "tick_input \<Rightarrow> display \<Rightarrow> display" where
  "poll_ssh i d =
     (if since (ti_now i) (di_last_ssh_check d) \<ge> from_secs 5
      then
        (let sm = refresh_processes (ti_ssh_view i) (di_metrics d) in
         d\<lparr>di_metrics := sm, di_active_ssh := active_ssh_sessions sm > 0, di_last_ssh_check := ti_now i\<rparr>)
      else d)"

definition choose_mode :: "nat \<Rightarrow> tick_input \<Rightarrow> display \<Rightarrow> display" where
  "choose_mode timeout i d =
     (if di_active_ssh d \<or> has_recent_activity (ti_store_now i) (from_secs 30) (ti_store i)
      then d\<lparr>di_last_activity := ti_now i, di_mode := Metrics\<rparr>
      else if since (ti_idle_now i) (di_last_activity d) > timeout then d\<lparr>di_mode := Screensaver\<rparr> else d)"

definition flip_page :: "tick_input \<Rightarrow> display \<Rightarrow> display" where
  "flip_page i d =
     (if di_mode d = Metrics \<and> since (ti_flip_now i) (di_last_flip d) > PAGE_DURATION
      then d\<lparr>di_page := (di_page d + 1) mod length PAGES, di_last_flip := ti_now i\<rparr> else d)"

definition refresh_page :: "tick_input \<Rightarrow> display \<Rightarrow> display" where
  "refresh_page i d =
     (if di_mode d = Metrics then
        (case pg_refresh (PAGES ! di_page d) of
           Some refresh \<Rightarrow> d\<lparr>di_metrics := refresh (ti_refresh_view i) (di_metrics d)\<rparr>
         | None \<Rightarrow> d)
      else d)"

definition saver_box :: "fonts \<Rightarrow> bounce_box" where
  "saver_box fs =
     \<lparr>bb_min_x = 0, bb_max_x = int WIDTH - int (measure_text fs ''TARS'' False),
      bb_min_y = int VISIBLE_Y_START, bb_max_y = int HEIGHT - SCREENSAVER_BLOCK_HEIGHT\<rparr>"

definition draw_saver :: "tick_input \<Rightarrow> display \<Rightarrow> display" where
  "draw_saver i d =
     (let bounds = saver_box (ti_fonts i);
          (x0, y0, dx0, dy0) = di_ss d;
          (x, y, dx, dy) = step_bounce x0 y0 dx0 dy0 bounds;
          draw_x = nat (max x 0);
          draw_y = nat (max y (bb_min_y bounds))
      in d\<lparr>di_ss := (x, y, dx, dy),
            di_fb := draw_braille (draw_x + 3) (draw_y + 13) 3 3 8 (draw_text (ti_fonts i) draw_x draw_y ''TARS'' False (di_fb d))\<rparr>)"

definition draw_page :: "tick_input \<Rightarrow> display \<Rightarrow> display option" where
  "draw_page i d =
     (let page = PAGES ! (di_page d mod length PAGES) in
      map_option (\<lambda>fb. d\<lparr>di_fb := fb\<rparr>)
        (draw_metrics_page (ti_fonts i) (pg_label page) (pg_value page (ti_value_view i) (di_metrics d))
           (Some (pg_icon page)) (pg_icon_dy page) (di_fb d)))"

definition set_rotation :: "tick_input \<Rightarrow> display \<Rightarrow> display" where
  "set_rotation i d =
     (let is_docked = (if ol_request (di_detect d)
                       then (case ti_detect_inactive i of Some inactive \<Rightarrow> inactive | None \<Rightarrow> False) else False)
      in d\<lparr>di_fb := (di_fb d)\<lparr>fb_rotation := (if is_docked then 0 else 180)\<rparr>\<rparr>)"

text \<open>
  The pass up to the frame that is handed to the sink; \<open>None\<close> if a line is drawn forever.
  \<open>timeout\<close> is the screensaver's, which the \<open>sim\<close> build shortens.
\<close>

definition render_tick :: "nat \<Rightarrow> u8 \<Rightarrow> tick_input \<Rightarrow> display \<Rightarrow> display option" where
  "render_tick timeout brightness i d0 =
     (let d1 = d0\<lparr>di_detect := poll_line (ti_detect_acquired i) (ti_now i) (di_detect d0),
                  di_enable := poll_line (ti_enable_acquired i) (ti_now i) (di_enable d0)\<rparr>;
          d2 = choose_mode timeout i (poll_ssh i d1);
          d3 = d2\<lparr>di_fb := set_brightness (mode_brightness brightness (di_mode d2)) (di_fb d2)\<rparr>;
          d4 = refresh_page i (flip_page i d3);
          d5 = d4\<lparr>di_fb := clear (di_fb d4)\<rparr>
      in map_option (set_rotation i)
           (case di_mode d5 of Screensaver \<Rightarrow> Some (draw_saver i d5) | Metrics \<Rightarrow> draw_page i d5))"

text \<open>What follows the sink when the shutdown flag is set.\<close>

definition blank_and_stop :: "bool \<Rightarrow> io_error option \<Rightarrow> framebuffer \<Rightarrow> framebuffer \<times> unit io \<times> bytes option" where
  "blank_and_stop opens written fb = flush opens written (clear fb)"

section \<open>The font test\<close>

definition align_x :: "string \<Rightarrow> u64 \<Rightarrow> u64" where
  "align_x horiz text_w =
     (if horiz = ''center'' then (if text_w < of_nat WIDTH then (of_nat WIDTH - text_w) div 2 else 0)
      else if horiz = ''right'' then (if text_w < of_nat WIDTH then of_nat WIDTH - text_w - of_nat TEXT_EDGE_MARGIN else 0)
      else of_nat TEXT_EDGE_MARGIN)"

definition align_y :: "string \<Rightarrow> nat \<Rightarrow> nat" where
  "align_y vert text_h =
     (if vert = ''top'' then VISIBLE_Y_START
      else if vert = ''bottom'' then
        (if text_h < VISIBLE_HEIGHT then VISIBLE_Y_START + VISIBLE_HEIGHT - text_h else VISIBLE_Y_START)
      else (if text_h < VISIBLE_HEIGHT then VISIBLE_Y_START + (VISIBLE_HEIGHT - text_h) div 2 else VISIBLE_Y_START))"

text \<open>Where \<open>oled_test\<close> puts a text, and the test itself.\<close>

definition oled_place :: "fonts \<Rightarrow> nat \<Rightarrow> string \<Rightarrow> string \<Rightarrow> u64 \<times> nat" where
  "oled_place fs size1 alignment txt1 =
     (let parts = split_on (CHR ''-'') alignment;
          horiz = (case parts of h # _ \<Rightarrow> h | [] \<Rightarrow> ''left'');
          vert = (case parts of _ # v # _ \<Rightarrow> v | _ \<Rightarrow> ''middle'');
          text_w = measure_text_scaled fs txt1 (size1 > BOLD_THRESHOLD) (flt_of_nat f32 size1)
      in (align_x horiz (of_nat text_w), align_y vert size1))"

definition oled_test ::
  "fonts \<Rightarrow> bool \<Rightarrow> io_error option \<Rightarrow> nat \<Rightarrow> string \<Rightarrow> string \<Rightarrow> framebuffer \<times> unit io \<times> bytes option" where
  "oled_test fs opens written size1 alignment txt1 =
     (let fb = clear (new_framebuffer opens);
          (x, y) = oled_place fs size1 alignment txt1
      in flush opens written (draw_text_scaled fs (unat x) y txt1 (size1 > BOLD_THRESHOLD) (flt_of_nat f32 size1) fb))"

definition render_sample_to_gray :: "fonts \<Rightarrow> string \<Rightarrow> string \<Rightarrow> bytes option" where
  "render_sample_to_gray fs label val =
     map_option fb_buffer (draw_metrics_page fs label val (Some ICON_HOST) 0 (clear (new_framebuffer False)))"

end
