(* ===== verification/Oled_Run.thy ===== *)
theory Oled_Run
  imports Oled_Loop
begin

text \<open>
  The display task as a whole: \<open>render_loop\<close> of \<^verbatim>\<open>crates/bootycall-oled/src/lib.rs\<close> run with the
  production sink until the shutdown flag is seen, and with the simulator's sink until its
  budget is spent; and what they guarantee: no pass hangs, the framebuffer stays
  well-formed, the screensaver stays in its box, every frame has the size of the panel, a
  shutdown leaves the panel black, and the simulator writes exactly the frames asked for.
\<close>

section \<open>The runs\<close>

datatype start_log = Geometry fb_geometry | Differs fb_geometry | Unavailable

definition on_start :: "fb_geometry option \<Rightarrow> start_log list" where
  "on_start geometry =
     (case geometry of
        Some geo \<Rightarrow>
          Geometry geo #
          (if geo_xres geo \<noteq> WIDTH \<or> geo_yres geo \<noteq> HEIGHT \<or> geo_bits_per_pixel geo \<noteq> BITS_PER_PIXEL
           then [Differs geo] else [])
      | None \<Rightarrow> [Unavailable])"

text \<open>
  What one pass meets: what it reads, whether opening the device succeeds, how the write
  ends, and, if the shutdown flag is set after it, how the last flush goes.
\<close>

record panel_pass =
  pp_input :: tick_input
  pp_opens :: bool
  pp_written :: "io_error option"
  pp_shutdown :: "(bool \<times> io_error option) option"

text \<open>The writes that reached the device, one entry for each attempt; the list of passes bounds the run.\<close>

fun panel_loop :: "u8 \<Rightarrow> panel_pass list \<Rightarrow> bool \<Rightarrow> display \<Rightarrow> (display \<times> bytes option list) option" where
  "panel_loop brightness [] fb_available d = Some (d, [])"
| "panel_loop brightness (p # rest) fb_available d =
     (case render_tick SCREENSAVER_TIMEOUT brightness (pp_input p) d of
        None \<Rightarrow> None
      | Some d1 \<Rightarrow>
          (case panel_present (pp_opens p) (pp_written p) fb_available (di_fb d1) of
             (available, fb, out, _) \<Rightarrow>
               (case pp_shutdown p of
                  Some (opens, written) \<Rightarrow>
                    (case blank_and_stop opens written fb of (fb', _, blank) \<Rightarrow> Some (d1\<lparr>di_fb := fb'\<rparr>, [out, blank]))
                | None \<Rightarrow>
                    map_option (map_prod id ((#) out)) (panel_loop brightness rest available (d1\<lparr>di_fb := fb\<rparr>)))))"

definition render_panel ::
  "u8 \<Rightarrow> bool \<Rightarrow> bool \<Rightarrow> bool \<Rightarrow> bool \<Rightarrow> bool \<Rightarrow> sys_view \<Rightarrow> int \<Rightarrow> panel_pass list \<Rightarrow> (display option \<times> bytes option list) option" where
  "render_panel brightness fb_exists gpiochip_exists detect enable opens v now passes =
     (if \<not> oled_hardware_present fb_exists gpiochip_exists then Some (None, [])
      else map_option (map_prod Some id) (panel_loop brightness passes True (new_display opens detect enable brightness v now)))"

text \<open>The simulator: the frames with their numbers, and whether the loop has ended.\<close>

fun sim_loop ::
  "u8 \<Rightarrow> nat \<Rightarrow> tick_input list \<Rightarrow> nat \<Rightarrow> display \<Rightarrow> ((nat \<times> bytes option) list \<times> bool) option" where
  "sim_loop brightness max_frames [] frame d = Some ([], False)"
| "sim_loop brightness max_frames (i # rest) frame d =
     (case render_tick SIM_SCREENSAVER_TIMEOUT brightness i d of
        None \<Rightarrow> None
      | Some d1 \<Rightarrow>
          (case sim_present max_frames frame (di_fb d1) of
             (frame', True, out) \<Rightarrow>
               map_option (map_prod ((@) (case out of None \<Rightarrow> [] | Some f \<Rightarrow> [f])) id)
                 (sim_loop brightness max_frames rest frame' d1)
           | (_, False, _) \<Rightarrow> Some ([], True)))"

section \<open>Drawing keeps the framebuffer well-formed\<close>

lemma fb_wf_fold: "fb_wf fb \<Longrightarrow> (\<And>x fb. fb_wf fb \<Longrightarrow> fb_wf (f x fb)) \<Longrightarrow> fb_wf (fold f xs fb)"
  by (induction xs arbitrary: fb) auto

lemma fb_wf_draw_rect [simp]: "fb_wf fb \<Longrightarrow> fb_wf (draw_rect x y w h c fb)"
  by (simp add: draw_rect_paint)

lemma fb_wf_draw_bitmap [simp]: "fb_wf fb \<Longrightarrow> fb_wf (draw_bitmap x y bmp w h fb)"
  by (simp add: draw_bitmap_paint)

lemma fb_wf_draw_text [simp]: "fb_wf fb \<Longrightarrow> fb_wf (draw_text fs x y t large fb)"
  by (simp add: draw_text_def draw_text_scaled_def)

lemma fb_wf_draw_braille [simp]: "fb_wf fb \<Longrightarrow> fb_wf (draw_braille x y a b c fb)"
  unfolding draw_braille_def by (intro fb_wf_fold) (auto intro!: fb_wf_fold split: prod.split)

lemma draw_line_total:
  assumes "fb_wf fb"
  obtains fb' where "draw_line x0 y0 x1 y1 c fb = Some fb'" "fb_wf fb'"
proof -
  obtain ps where "draw_line x0 y0 x1 y1 c fb = Some (fold (plot c) ps fb)"
    using line_path [of x0 y0 x1 y1 c fb] by blast
  moreover have "fb_wf (fold (plot c) ps fb)" using assms by (intro fb_wf_fold) auto
  ultimately show thesis by (rule that)
qed

lemma draw_metrics_page_total:
  assumes "fb_wf fb"
  shows "\<exists>fb'. draw_metrics_page fs label val icon dy fb = Some fb' \<and> fb_wf fb'"
proof (cases icon)
  case None
  with assms show ?thesis by (auto simp: draw_metrics_page_def Let_def)
next
  case (Some bmp)
  have "fb_wf (draw_bitmap METRICS_MARGIN_X (VISIBLE_Y_START + dy) bmp 16 16 fb)" using assms by simp
  then obtain fb1 where "draw_line METRICS_MARGIN_X (VISIBLE_Y_START + METRICS_SEPARATOR_DY) (WIDTH - METRICS_MARGIN_X)
      (VISIBLE_Y_START + METRICS_SEPARATOR_DY) METRICS_SEPARATOR_BRIGHTNESS
      (draw_bitmap METRICS_MARGIN_X (VISIBLE_Y_START + dy) bmp 16 16 fb) = Some fb1" "fb_wf fb1"
    by (rule draw_line_total)
  with Some show ?thesis by (auto simp: draw_metrics_page_def Let_def)
qed

section \<open>The screensaver stays in its box\<close>

definition in_bounce_box :: "bounce_box \<Rightarrow> int \<times> int \<times> int \<times> int \<Rightarrow> bool" where
  "in_bounce_box b s = (case s of (x, y, dx, dy) \<Rightarrow>
     bb_min_x b \<le> x \<and> x \<le> bb_max_x b \<and> bb_min_y b \<le> y \<and> y \<le> bb_max_y b \<and> \<bar>dx\<bar> = 1 \<and> \<bar>dy\<bar> = 1)"

lemma step_bounce_in_box:
  assumes "bb_min_x b \<le> bb_max_x b" "bb_min_y b \<le> bb_max_y b" "in_bounce_box b (x, y, dx, dy)"
  shows "in_bounce_box b (step_bounce x y dx dy b)"
  using assms by (auto simp: step_bounce_def in_bounce_box_def Let_def)

definition box_of :: "nat \<Rightarrow> bounce_box" where
  "box_of w = \<lparr>bb_min_x = 0, bb_max_x = 160 - int w, bb_min_y = 28, bb_max_y = 39\<rparr>"

lemma saver_box_eq: "measure_text fs ''TARS'' False = w \<Longrightarrow> saver_box fs = box_of w"
  by (simp add: saver_box_def box_of_def WIDTH_def VISIBLE_Y_START_def HEIGHT_def SCREENSAVER_BLOCK_HEIGHT_def)

section \<open>The invariant of the display\<close>

definition display_inv :: "nat \<Rightarrow> display \<Rightarrow> bool" where
  "display_inv w d \<longleftrightarrow> fb_wf (di_fb d) \<and> di_page d < length PAGES \<and> in_bounce_box (box_of w) (di_ss d)"

lemma length_PAGES [simp]: "length PAGES = 8"
  by (simp add: PAGES_def)

lemma display_inv_new: "w \<le> 160 \<Longrightarrow> display_inv w (new_display opens detect enable brightness v now)"
  by (simp add: display_inv_def new_display_def in_bounce_box_def box_of_def VISIBLE_Y_START_def)

lemma mode_brightness_exact: "unat (mode_brightness base Screensaver) = unat base * 40 div 100"
proof -
  have b: "unat base < 256" by (rule unat_u8_less)
  have u: "unat (ucast base :: u16) = unat base"
    using b by (simp add: unsigned_ucast_eq take_bit_nat_eq_self)
  have "unat (ucast base * 40 div 100 :: u16) = unat base * 40 div 100"
    using b by (simp add: unat_div unat_word_ariths u)
  moreover have "unat base * 40 div 100 < 256" using b by simp
  ultimately show ?thesis
    by (simp add: mode_brightness_def SCREENSAVER_BRIGHTNESS_PERCENT_def unsigned_ucast_eq take_bit_nat_eq_self)
qed

lemma drawn_frame:
  assumes "fb_wf (di_fb d)" "di_page d < 8" "in_bounce_box (box_of w) (di_ss d)"
    and "measure_text (ti_fonts i) ''TARS'' False = w" "w \<le> 160"
  shows "\<exists>d'. (case di_mode d of Screensaver \<Rightarrow> Some (draw_saver i d) | Metrics \<Rightarrow> draw_page i d) = Some d'
    \<and> fb_wf (di_fb d') \<and> di_page d' = di_page d \<and> in_bounce_box (box_of w) (di_ss d') \<and> di_mode d' = di_mode d"
proof (cases "di_mode d")
  case Screensaver
  obtain x y dx dy where ss: "di_ss d = (x, y, dx, dy)" by (metis prod_cases4)
  have "bb_min_x (box_of w) \<le> bb_max_x (box_of w)" "bb_min_y (box_of w) \<le> bb_max_y (box_of w)"
    using assms(5) by (simp_all add: box_of_def)
  from step_bounce_in_box [OF this] assms(3) have inside: "in_bounce_box (box_of w) (step_bounce x y dx dy (box_of w))"
    by (simp add: ss)
  obtain x1 y1 dx1 dy1 where step: "step_bounce x y dx dy (box_of w) = (x1, y1, dx1, dy1)" by (metis prod_cases4)
  from Screensaver assms(1,2) inside show ?thesis
    by (simp add: draw_saver_def Let_def ss saver_box_eq [OF assms(4)] step)
next
  case Metrics
  define page where "page = PAGES ! (di_page d mod length PAGES)"
  obtain fb where "draw_metrics_page (ti_fonts i) (pg_label page) (pg_value page (ti_value_view i) (di_metrics d))
      (Some (pg_icon page)) (pg_icon_dy page) (di_fb d) = Some fb" "fb_wf fb"
    using draw_metrics_page_total [OF assms(1)] by blast
  with Metrics assms(3) show ?thesis by (simp add: draw_page_def Let_def page_def)
qed

lemma render_tick_inv:
  assumes "display_inv w d" "measure_text (ti_fonts i) ''TARS'' False = w" "w \<le> 160"
  shows "\<exists>d'. render_tick timeout brightness i d = Some d' \<and> display_inv w d'"
proof -
  define d1 where "d1 = d\<lparr>di_detect := poll_line (ti_detect_acquired i) (ti_now i) (di_detect d),
                  di_enable := poll_line (ti_enable_acquired i) (ti_now i) (di_enable d)\<rparr>"
  define d2 where "d2 = choose_mode timeout i (poll_ssh i d1)"
  define d3 where "d3 = d2\<lparr>di_fb := set_brightness (mode_brightness brightness (di_mode d2)) (di_fb d2)\<rparr>"
  define d4 where "d4 = refresh_page i (flip_page i d3)"
  define d5 where "d5 = d4\<lparr>di_fb := clear (di_fb d4)\<rparr>"
  have "fb_wf (di_fb d5)" "di_page d5 < 8" "in_bounce_box (box_of w) (di_ss d5)"
    using assms(1)
    by (auto simp: display_inv_def d5_def d4_def d3_def d2_def d1_def flip_page_def refresh_page_def choose_mode_def poll_ssh_def
        Let_def split: option.splits)
  from drawn_frame [OF this assms(2,3)] obtain d6 where
    "(case di_mode d5 of Screensaver \<Rightarrow> Some (draw_saver i d5) | Metrics \<Rightarrow> draw_page i d5) = Some d6"
    "fb_wf (di_fb d6)" "di_page d6 < 8" "in_bounce_box (box_of w) (di_ss d6)"
    using \<open>di_page d5 < 8\<close> by auto
  note d6 = this
  have "render_tick timeout brightness i d = Some (set_rotation i d6)"
    unfolding render_tick_def Let_def d1_def [symmetric] d2_def [symmetric] d3_def [symmetric] d4_def [symmetric]
      d5_def [symmetric] d6(1) by simp
  moreover have "display_inv w (set_rotation i d6)"
    using d6(2-4) by (simp add: display_inv_def set_rotation_def fb_wf_def)
  ultimately show ?thesis by blast
qed

text \<open>The screensaver text has the width \<open>w\<close>.\<close>

definition saver_fits :: "nat \<Rightarrow> tick_input \<Rightarrow> bool" where
  "saver_fits w i \<longleftrightarrow> measure_text (ti_fonts i) ''TARS'' False = w"

lemma render_tick_fits:
  assumes "display_inv w d" "saver_fits w i" "w \<le> 160"
  obtains d1 where "render_tick timeout brightness i d = Some d1" "display_inv w d1"
  using render_tick_inv [OF assms(1) _ assms(3)] assms(2) unfolding saver_fits_def by blast

lemma panel_present_spec:
  assumes "fb_wf fb" "panel_present opens written available fb = (available', fb', out, line)"
  shows "fb_wf fb' \<and> pred_option (\<lambda>bs. length bs = 19200) out \<and> available' = (out \<noteq> None)"
proof -
  have "length (pack_buffer (fb_buffer fb) (fb_lut fb) (fb_rotation fb)) = 19200"
    using assms(1) by (simp add: fb_wf_def length_pack WIDTH_def HEIGHT_def)
  with assms show ?thesis
    by (auto simp: panel_present_def write_packed_def ensure_open_def fb_wf_def Let_def split: option.splits if_splits)
qed

lemma blank_and_stop_spec:
  assumes "fb_wf fb" "blank_and_stop opens written fb = (fb', r, out)"
  shows "fb_wf fb' \<and> pred_option (\<lambda>bs. bs = replicate 19200 0) out \<and>
    (out = None \<longleftrightarrow> (\<not> fb_file fb \<and> \<not> opens) \<or> written \<noteq> None)"
proof -
  have len: "length (fb_buffer fb) = 9600" and lut: "fb_lut fb = build_lut (fb_brightness fb)"
    using assms(1) by (simp_all add: fb_wf_def WIDTH_def HEIGHT_def)
  have z: "concat (replicate n [0 :: u8, 0]) = replicate (2 * n) 0" for n by (induction n) auto
  have "pack_pixel (build_lut (fb_brightness fb)) 0 = [0, 0]"
    by (simp add: pack_pixel_lut dimmed_def rgb565_def to_be16_def)
  then have black: "pack_buffer (replicate 9600 0) (build_lut (fb_brightness fb)) rot = replicate 19200 0" for rot
    using z [of 9600] by (simp add: pack_buffer_def)
  show ?thesis using assms
    by (auto simp: blank_and_stop_def flush_def write_packed_def ensure_open_def clear_def fb_wf_def len lut black
        Let_def WIDTH_def HEIGHT_def split: option.splits if_splits)
qed

lemma panel_loop_inv:
  assumes "list_all (\<lambda>p. saver_fits w (pp_input p)) passes" "w \<le> 160" "display_inv w d"
  shows "\<exists>d' frames. panel_loop brightness passes available d = Some (d', frames) \<and> display_inv w d'
    \<and> list_all (pred_option (\<lambda>bs. length bs = 19200)) frames"
  using assms(1,3)
proof (induction passes arbitrary: available d)
  case (Cons p passes)
  have "saver_fits w (pp_input p)" using Cons.prems(1) by simp
  then obtain d1 where d1: "render_tick SCREENSAVER_TIMEOUT brightness (pp_input p) d = Some d1" "display_inv w d1"
    using render_tick_fits [OF Cons.prems(2) _ assms(2)] by blast
  obtain available' fb out line where pr: "panel_present (pp_opens p) (pp_written p) available (di_fb d1) = (available', fb, out, line)"
    by (metis prod_cases4)
  have fb: "fb_wf fb" "pred_option (\<lambda>bs. length bs = 19200) out"
    using panel_present_spec [OF _ pr] d1(2) by (auto simp: display_inv_def)
  then have inv: "display_inv w (d1\<lparr>di_fb := fb\<rparr>)" using d1(2) by (simp add: display_inv_def)
  show ?case
  proof (cases "pp_shutdown p")
    case None
    with Cons.IH [OF _ inv, of available'] Cons.prems(1) d1(1) pr fb show ?thesis by auto
  next
    case (Some s)
    obtain fb' r blank where b: "blank_and_stop (fst s) (snd s) fb = (fb', r, blank)" by (metis prod_cases3)
    from blank_and_stop_spec [OF fb(1) b] have "fb_wf fb'" "pred_option (\<lambda>bs. length bs = 19200) blank"
      by (auto simp: pred_option_def)
    with Some b d1 pr fb show ?thesis by (auto simp: display_inv_def split: prod.split)
  qed
qed simp

text \<open>
  A shutdown leaves the panel black: when the shutdown flag is seen after a pass, the
  last write the device gets is 19200 zero bytes, whatever the brightness and rotation,
  unless the device cannot be opened or the write fails; in that case nothing is written.
\<close>

lemma shutdown_blanks:
  assumes "saver_fits w (pp_input p)" "w \<le> 160" "display_inv w d" "pp_shutdown p = Some (opens, written)"
  shows "\<exists>d' out blank. panel_loop brightness (p # rest) available d = Some (d', [out, blank])
    \<and> (if opens \<and> written = None then blank = Some (replicate 19200 0) else blank \<in> {None, Some (replicate 19200 0)})
    \<and> (if written = None then True else blank = None) \<and> fb_buffer (di_fb d') = replicate 9600 0"
proof -
  have "saver_fits w (pp_input p)" using assms(1) by simp
  then obtain d1 where d1: "render_tick SCREENSAVER_TIMEOUT brightness (pp_input p) d = Some d1" "display_inv w d1"
    using render_tick_fits [OF assms(3) _ assms(2)] by blast
  obtain available' fb out line where pr: "panel_present (pp_opens p) (pp_written p) available (di_fb d1) = (available', fb, out, line)"
    by (metis prod_cases4)
  have fb: "fb_wf fb" using panel_present_spec [OF _ pr] d1(2) by (auto simp: display_inv_def)
  obtain fb' r blank where b: "blank_and_stop opens written fb = (fb', r, blank)" by (metis prod_cases3)
  have "fb_buffer fb' = replicate 9600 0"
    using fb b by (auto simp: blank_and_stop_def flush_def write_packed_def ensure_open_def clear_def fb_wf_def
        Let_def WIDTH_def HEIGHT_def split: option.splits if_splits)
  with blank_and_stop_spec [OF fb b] assms(4) d1(1) pr b show ?thesis by (auto simp: pred_option_def)
qed

text \<open>The passes before the flag is set, then the one that sees it.\<close>

lemma shutdown_run:
  assumes "list_all (\<lambda>p. saver_fits w (pp_input p) \<and> pp_shutdown p = None) passes" "saver_fits w (pp_input p)"
    and "w \<le> 160" "display_inv w d" "pp_shutdown p = Some (True, None)"
  shows "\<exists>d' frames. panel_loop brightness (passes @ p # rest) available d = Some (d', frames @ [Some (replicate 19200 0)])
    \<and> fb_buffer (di_fb d') = replicate 9600 0"
  using assms(1,4)
proof (induction passes arbitrary: available d)
  case Nil
  from shutdown_blanks [OF assms(2,3) Nil(2) assms(5), of brightness rest available] obtain d' out where
    "panel_loop brightness (p # rest) available d = Some (d', [out] @ [Some (replicate 19200 0)])"
    "fb_buffer (di_fb d') = replicate 9600 0" by auto
  then show ?case by (metis append_Nil)
next
  case (Cons q passes)
  have "saver_fits w (pp_input q)" using Cons.prems(1) by simp
  then obtain d1 where d1: "render_tick SCREENSAVER_TIMEOUT brightness (pp_input q) d = Some d1" "display_inv w d1"
    using render_tick_fits [OF Cons.prems(2) _ assms(3)] by blast
  obtain available' fb out line where pr: "panel_present (pp_opens q) (pp_written q) available (di_fb d1) = (available', fb, out, line)"
    by (metis prod_cases4)
  have "fb_wf fb" using panel_present_spec [OF _ pr] d1(2) by (auto simp: display_inv_def)
  then have "display_inv w (d1\<lparr>di_fb := fb\<rparr>)" using d1(2) by (simp add: display_inv_def)
  from Cons.IH [OF _ this, of available'] Cons.prems(1) obtain d' frames where
    "panel_loop brightness (passes @ p # rest) available' (d1\<lparr>di_fb := fb\<rparr>) = Some (d', frames @ [Some (replicate 19200 0)])"
    "fb_buffer (di_fb d') = replicate 9600 0" by auto
  with Cons.prems(1) d1(1) pr
  have "panel_loop brightness ((q # passes) @ p # rest) available d = Some (d', (out # frames) @ [Some (replicate 19200 0)])"
    by simp
  with \<open>fb_buffer (di_fb d') = _\<close> show ?case by blast
qed

section \<open>Properties\<close>


text \<open>A machine without any hardware of interest, and a pass over it.\<close>

definition bare_view :: sys_view where
  "bare_view =
     \<lparr>sv_host_name = None, sv_upper = (\<lambda>s. s), sv_probe_bind = False, sv_probe_connect = False, sv_probe_local = None,
      sv_uptime = 0, sv_thermal = None, sv_kernel = None, sv_processes = [], sv_cpu = Fin False 0, sv_memory = (0, 0),
      sv_components = [], sv_disks = []\<rparr>"

definition idle_input :: "rat \<Rightarrow> int \<Rightarrow> tick_input" where
  "idle_input w now =
     \<lparr>ti_now = now, ti_idle_now = now, ti_flip_now = now, ti_detect_acquired = False, ti_enable_acquired = False,
      ti_ssh_view = bare_view, ti_store = new_store, ti_store_now = now, ti_fonts = plain_fonts ''T'' w,
      ti_refresh_view = bare_view, ti_value_view = bare_view, ti_detect_inactive = None\<rparr>"

lemma measure_tars: "measure_text (plain_fonts ''T'' 40) ''TARS'' False = 40"
  by code_simp

lemma idle_fits: "saver_fits 40 (idle_input 40 t)"
  by (simp add: saver_fits_def idle_input_def measure_tars)


text \<open>A frame of the panel as the encoder writes it.\<close>

lemma decode_frame:
  assumes "fb_wf fb"
  shows "Option.bind (encode_gray_png (fb_buffer fb) WIDTH HEIGHT) decode_gray_png = Some (160, 60, fb_buffer fb)"
proof -
  have len: "length (fb_buffer fb) = 9600" using assms by (simp add: fb_wf_def WIDTH_def HEIGHT_def)
  have rows: "length (chunks 160 (fb_buffer fb)) = 60" "\<forall>r \<in> set (chunks 160 (fb_buffer fb)). length r = 160"
    using chunks_rows [of 160 "fb_buffer fb" 60] len by simp_all
  have raw: "length (concat (map (\<lambda>row. (0 :: u8) # row) (chunks 160 (fb_buffer fb)))) = 9660"
    using rows by (simp add: length_concat comp_def map_idI sum_list_triv cong: map_cong)
  define data where "data = concat (map (\<lambda>row. (0 :: u8) # row) (chunks 160 (fb_buffer fb)))"
  have data: "length data = 9660" using raw by (simp add: data_def)
  have "store_blocks data 9660 = []" by (simp add: store_blocks.simps [of data 9660] data)
  then have "length (zlib_store data) < 2 ^ 32"
    by (simp add: zlib_store_def store_blocks.simps [of data 0] data Let_def to_be32_def)
  then show ?thesis
    using decode_encoded [of 160 60 "fb_buffer fb"] len by (simp add: WIDTH_def HEIGHT_def data_def)
qed

text \<open>A frame in the simulator's directory shows the panel.\<close>

definition shows_panel :: "bytes option \<Rightarrow> bool" where
  "shows_panel png \<longleftrightarrow> (case Option.bind png decode_gray_png of
     Some (w, h, gray) \<Rightarrow> w = 160 \<and> h = 60 \<and> length gray = 9600 | None \<Rightarrow> False)"

lemma sim_loop_frames:
  assumes "list_all (saver_fits w) inputs" "w \<le> 160" "display_inv w d" "frame \<le> max_frames" "max_frames < frame + length inputs"
  shows "\<exists>frames. sim_loop brightness max_frames inputs frame d = Some (frames, True)
    \<and> map fst frames = [frame..<max_frames] \<and> list_all (\<lambda>f. shows_panel (snd f)) frames"
  using assms(1,3,4,5)
proof (induction inputs arbitrary: frame d)
  case (Cons i inputs)
  have "saver_fits w i" using Cons.prems(1) by simp
  then obtain d1 where d1: "render_tick SIM_SCREENSAVER_TIMEOUT brightness i d = Some d1" "display_inv w d1"
    using render_tick_fits [OF Cons.prems(2) _ assms(2)] by blast
  show ?case
  proof (cases "frame < max_frames")
    case True
    define png where "png = encode_gray_png (fb_buffer (di_fb d1)) WIDTH HEIGHT"
    have "fb_wf (di_fb d1)" using d1(2) by (simp add: display_inv_def)
    then have png: "shows_panel png"
      using decode_frame [of "di_fb d1"] by (simp add: shows_panel_def png_def fb_wf_def WIDTH_def HEIGHT_def)
    obtain frames where "sim_loop brightness max_frames inputs (frame + 1) d1 = Some (frames, True)"
      "map fst frames = [frame + 1..<max_frames]" "list_all (\<lambda>f. shows_panel (snd f)) frames"
      using Cons.IH [OF _ d1(2), of "frame + 1"] Cons.prems True by auto
    with True d1(1) png show ?thesis by (simp add: sim_present_def png_def [symmetric] upt_conv_Cons)
  next
    case False
    with Cons.prems(3) d1(1) show ?thesis by (simp add: sim_present_def)
  qed
qed simp

text \<open>
  The simulator stops: given passes enough, the loop ends by itself after exactly the
  number of frames asked for, numbered from 0 without a gap, and every one of them is a
  PNG that decodes to the 160 by 60 pixels of the panel.
\<close>

theorem sim_frames:
  assumes "list_all (saver_fits w) inputs" "w \<le> 160" "max_frames < length inputs"
  shows "\<exists>frames. sim_loop brightness max_frames inputs 0 (new_display opens detect enable brightness v now) = Some (frames, True)
    \<and> map fst frames = [0..<max_frames] \<and> list_all (\<lambda>f. shows_panel (snd f)) frames"
  using sim_loop_frames [OF assms(1,2) display_inv_new [OF assms(2)]] assms(3) by simp

lemma sim_frames_witness:
  "\<exists>frames. sim_loop 255 2 [idle_input 40 0, idle_input 40 1, idle_input 40 2] 0 (new_display False False False 255 bare_view 0)
    = Some (frames, True) \<and> map fst frames = [0, 1]"
  using sim_frames [of 40 "[idle_input 40 0, idle_input 40 1, idle_input 40 2]" 2 255 False False False bare_view 0]
  by (auto simp: upt_rec idle_fits)

text \<open>The horizontal positions of the font test, with the wrap of \<open>right\<close>.\<close>

lemma align_x_values:
  assumes "w < 2 ^ 64"
  shows "unat (align_x ''left'' (of_nat w)) = 5
    \<and> unat (align_x ''center'' (of_nat w)) = (160 - w) div 2
    \<and> unat (align_x ''right'' (of_nat w)) = (if w \<le> 155 then 155 - w else if w < 160 then 2 ^ 64 + 155 - w else 0)"
proof -
  have w: "unat (of_nat w :: u64) = w" using assms by (simp add: unat_of_nat)
  have lt: "(of_nat w :: u64) < 160 \<longleftrightarrow> w < 160" by (simp add: word_less_nat_alt w)
  have sub: "unat (160 - of_nat w :: u64) = 160 - w" if "w < 160"
    using that lt by (simp add: unat_sub word_le_nat_alt w)
  have "unat (155 - of_nat w :: u64) = 155 - w" if "w \<le> 155"
    using that by (simp add: unat_sub word_le_nat_alt w)
  moreover have "unat (155 - of_nat w :: u64) = 2 ^ 64 + 155 - w" if "155 < w" "w < 160"
  proof -
    from that have "w = 156 \<or> w = 157 \<or> w = 158 \<or> w = 159" by linarith
    then show ?thesis by (auto simp: unsigned_minus_1_eq_mask mask_eq_exp_minus_1)
  qed
  ultimately show ?thesis
    by (auto simp: align_x_def WIDTH_def TEXT_EDGE_MARGIN_def lt sub unat_div)
qed

end
