(* ===== verification/Supervisor.thy ===== *)
theory Supervisor
  imports Boot_Suite Extractor Led Oled_Run
begin

text \<open>
  The rest of \<^verbatim>\<open>crates/bootycall-rs/src/main.rs\<close>: the subcommands with the checks of their
  arguments, the start of the suite and the ways it ends. What the tasks return is a value;
  the operating system's signals and the endings of the tasks are the events \<open>main\<close> waits
  for. The properties say that the pre-deploy check agrees with the start, that accepted
  arguments of the font test keep the text on the panel, and that every way out leaves the
  LEDs and the panel in their shutdown state.
\<close>

section \<open>Subcommands\<close>

datatype command = OledTest nat string string | LedTest string bool | CheckConfig

datatype main_error =
    SizeOutOfRange nat
  | InvalidAlignment string
  | OledFailed io_error
  | LedFailed string
  | ConfigNotFound string
  | ConfigInvalid string core_error
  | LoadFailed core_error
  | WatcherFailed
  | SigtermUnregistered
  | ServerOk string
  | ServerFatal string string
  | TaskJoin string string
  | CleanerExited

definition valid_aligns :: "string list" where
  "valid_aligns =
     [''left'', ''center'', ''right'', ''left-top'', ''left-bottom'', ''center-top'', ''center-bottom'',
      ''right-top'', ''right-bottom'']"

definition check_oled_args :: "nat \<Rightarrow> string \<Rightarrow> main_error + unit" where
  "check_oled_args size1 alignment =
     (if \<not> (6 \<le> size1 \<and> size1 \<le> 40) then Inl (SizeOutOfRange size1)
      else if alignment \<notin> set valid_aligns then Inl (InvalidAlignment alignment)
      else Inr ())"

text \<open>The machine the commands act on: the LEDs, the device of the panel and what was written to it.\<close>

record machine =
  mc_leds :: leds
  mc_fb_opens :: bool
  mc_fb_written :: "io_error option"
  mc_frames :: "bytes list"

definition oled_command :: "fonts \<Rightarrow> nat \<Rightarrow> string \<Rightarrow> string \<Rightarrow> machine \<Rightarrow> machine \<times> (main_error + string)" where
  "oled_command fs size1 alignment txt1 m =
     (case check_oled_args size1 alignment of
        Inl e \<Rightarrow> (m, Inl e)
      | Inr _ \<Rightarrow>
          (case oled_test fs (mc_fb_opens m) (mc_fb_written m) size1 alignment txt1 of
             (_, r, out) \<Rightarrow>
               (m\<lparr>mc_frames := mc_frames m @ (case out of Some bs \<Rightarrow> [bs] | None \<Rightarrow> [])\<rparr>,
                case r of Inl e \<Rightarrow> Inl (OledFailed e) | Inr _ \<Rightarrow> Inr [])))"

definition led_command :: "string \<Rightarrow> bool \<Rightarrow> machine \<Rightarrow> machine \<times> (main_error + string)" where
  "led_command color blinking m =
     (case led_test color blinking (mc_leds m) of
        (hw, Inl e) \<Rightarrow> (m\<lparr>mc_leds := hw\<rparr>, Inl (LedFailed e))
      | (hw, Inr _) \<Rightarrow> (m\<lparr>mc_leds := hw\<rparr>, Inr []))"

definition check_config ::
  "(string \<Rightarrow> yaml_config option) \<Rightarrow> string \<Rightarrow> bool \<Rightarrow> string io \<Rightarrow> main_error + string" where
  "check_config parse_yaml path present content =
     (if \<not> present then Inl (ConfigNotFound path)
      else (case load_config parse_yaml content of
              Inl e \<Rightarrow> Inl (ConfigInvalid path e)
            | Inr _ \<Rightarrow> Inr (''OK: configuration '' @ [CHR 0x27] @ path @ [CHR 0x27] @ '' is valid'')))"

definition run_command ::
  "fonts \<Rightarrow> (string \<Rightarrow> yaml_config option) \<Rightarrow> string \<Rightarrow> bool \<Rightarrow> string io \<Rightarrow> command \<Rightarrow> machine
   \<Rightarrow> machine \<times> (main_error + string)" where
  "run_command fs parse_yaml path present content cmd m =
     (case cmd of
        OledTest size1 alignment txt1 \<Rightarrow> oled_command fs size1 alignment txt1 m
      | LedTest color blinking \<Rightarrow> led_command color blinking m
      | CheckConfig \<Rightarrow> (m, check_config parse_yaml path present content))"

section \<open>The start\<close>

datatype sync_line = AllFailed nat | HostFailed string extractor_error | SomeFailed nat nat | AllOk nat

definition log_sync_summary :: "sync_summary \<Rightarrow> sync_line list" where
  "log_sync_summary summary =
     (if all_failed summary then
        AllFailed (summary_total summary) # map (\<lambda>(host, e). HostFailed host e) (su_failed summary)
      else if partial_failure summary then
        SomeFailed (length (su_failed summary)) (summary_total summary) # map (\<lambda>(host, e). HostFailed host e) (su_failed summary)
      else [AllOk (summary_total summary)])"

text \<open>How the initial synchronisation ends: with a summary, an error, or a panic of its task.\<close>

datatype sync_end = Synced sync_summary | SyncError extractor_error | SyncJoin

datatype start_line = SyncLine sync_line | SyncFailed extractor_error | SyncJoinError

definition sync_lines :: "sync_end \<Rightarrow> start_line list" where
  "sync_lines r =
     (case r of
        Synced summary \<Rightarrow> map SyncLine (log_sync_summary summary)
      | SyncError e \<Rightarrow> [SyncFailed e]
      | SyncJoin \<Rightarrow> [SyncJoinError])"

text \<open>The state the suite starts in, the addresses it binds and whether the panel is driven.\<close>

record started =
  sd_suite :: suite
  sd_binds :: "string \<times> string \<times> string"
  sd_oled :: "u8 option"
  sd_log :: "start_line list"

definition start_suite ::
  "(string \<Rightarrow> yaml_config option) \<Rightarrow> string \<Rightarrow> bool \<Rightarrow> string io \<Rightarrow> (config \<Rightarrow> sync_end) \<Rightarrow> bool \<Rightarrow> main_error + started" where
  "start_suite parse_yaml path present content sync watches =
     (if \<not> present then Inl (ConfigNotFound path)
      else (case load_config parse_yaml content of
              Inl e \<Rightarrow> Inl (LoadFailed e)
            | Inr config \<Rightarrow>
                (let lines = sync_lines (sync config); server = cf_server config in
                 if \<not> watches then Inl WatcherFailed
                 else Inr \<lparr>sd_suite = suite_start config,
                           sd_binds = (sc_proxy_dhcp_bind server, sc_tftp_bind server, sc_http_bind server),
                           sd_oled = (if sc_oled_enabled server then Some (sc_oled_brightness server) else None),
                           sd_log = lines\<rparr>)))"

section \<open>The end\<close>

datatype task_end = EndedOk | EndedError string | JoinFailed string

definition join_result_to_error :: "string \<Rightarrow> task_end \<Rightarrow> main_error" where
  "join_result_to_error name res =
     (case res of EndedOk \<Rightarrow> ServerOk name | EndedError e \<Rightarrow> ServerFatal name e | JoinFailed e \<Rightarrow> TaskJoin name e)"

datatype exit_event = CtrlC | SigTerm | DhcpEnded task_end | TftpEnded task_end | HttpEnded task_end | CleanerEnded

text \<open>
  The LED manager and, if it runs, the render loop: its state, whether the device was last
  there, and the passes up to the one that sees the shutdown flag.
\<close>

record render_task =
  rt_brightness :: u8
  rt_available :: bool
  rt_display :: display
  rt_passes :: "panel_pass list"

definition graceful_shutdown ::
  "led_manager \<times> leds \<Rightarrow> render_task option \<Rightarrow> leds \<times> (display \<times> bytes option list) option option" where
  "graceful_shutdown led_task oled_task =
     (snd (manager_stop led_task),
      map_option (\<lambda>t. panel_loop (rt_brightness t) (rt_passes t) (rt_available t) (rt_display t)) oled_task)"

definition exit_outcome :: "exit_event \<Rightarrow> main_error + unit" where
  "exit_outcome event =
     (case event of
        CtrlC \<Rightarrow> Inr ()
      | SigTerm \<Rightarrow> Inr ()
      | DhcpEnded res \<Rightarrow> Inl (join_result_to_error ''Proxy DHCP'' res)
      | TftpEnded res \<Rightarrow> Inl (join_result_to_error ''TFTP'' res)
      | HttpEnded res \<Rightarrow> Inl (join_result_to_error ''HTTP'' res)
      | CleanerEnded \<Rightarrow> Inl CleanerExited)"

definition finish_suite ::
  "exit_event \<Rightarrow> led_manager \<times> leds \<Rightarrow> render_task option
   \<Rightarrow> (leds \<times> (display \<times> bytes option list) option option) \<times> (main_error + unit)" where
  "finish_suite event led_task oled_task = (graceful_shutdown led_task oled_task, exit_outcome event)"

section \<open>Properties\<close>


text \<open>
  Where accepted arguments of the font test put a text narrower than the panel: its line
  lies in the 32 visible rows, cut off only when it is taller; it starts and ends on the
  panel when it is centred or at most 155 pixels wide; wider text starts at 5 when aligned
  left and runs off the edge, but aligned right the margin is subtracted from less than
  itself, and the position wraps to just below 2 to the 64.
\<close>

theorem test_text_place:
  assumes "check_oled_args size1 alignment = Inr ()" "measure_text_scaled fs txt1 (size1 > BOLD_THRESHOLD) (flt_of_nat f32 size1) = w" "w < 160"
  shows "case oled_place fs size1 alignment txt1 of (x, y) \<Rightarrow>
    28 \<le> y \<and> y + min size1 32 \<le> 60 \<and>
    (if w \<le> 155 \<or> take 6 alignment = ''center'' then unat x + w \<le> 160
     else if take 5 alignment = ''right'' then unat x = 2 ^ 64 + 155 - w
     else unat x = 5)"
proof -
  have w: "w < 2 ^ 64" using assms(3) by simp
  have "alignment \<in> set valid_aligns" using assms(1) by (auto simp: check_oled_args_def split: if_splits)
  then have "\<exists>horiz \<in> {''left'', ''center'', ''right''}. \<exists>vert. oled_place fs size1 alignment txt1
        = (align_x horiz (of_nat w), align_y vert size1)
      \<and> (take 6 alignment = ''center'' \<longleftrightarrow> horiz = ''center'') \<and> (take 5 alignment = ''right'' \<longleftrightarrow> horiz = ''right'')"
    by (auto simp: valid_aligns_def oled_place_def assms(2))
  then obtain horiz vert where place: "oled_place fs size1 alignment txt1 = (align_x horiz (of_nat w), align_y vert size1)"
    and horiz: "horiz \<in> {''left'', ''center'', ''right''}"
    and parts: "take 6 alignment = ''center'' \<longleftrightarrow> horiz = ''center''" "take 5 alignment = ''right'' \<longleftrightarrow> horiz = ''right''" by blast
  have "28 \<le> align_y vert size1 \<and> align_y vert size1 + min size1 32 \<le> 60"
    by (auto simp: align_y_def VISIBLE_Y_START_def VISIBLE_HEIGHT_def min_def)
  moreover have "(160 - w) div 2 + w \<le> 160" using assms(3) by linarith
  ultimately show ?thesis using horiz align_x_values [OF w] assms(3) by (auto simp: place parts)
qed

lemma test_text_place_witness:
  "case oled_place (plain_fonts ''H'' 157) 12 ''right-bottom'' ''Hello World'' of (x, y) \<Rightarrow> unat x = 2 ^ 64 - 2 \<and> y + 12 \<le> 60"
proof -
  have "check_oled_args 12 ''right-bottom'' = Inr ()" by (simp add: check_oled_args_def valid_aligns_def)
  moreover have "measure_text_scaled (plain_fonts ''H'' 157) ''Hello World'' (12 > BOLD_THRESHOLD) (flt_of_nat f32 12) = 157"
    by code_simp
  ultimately show ?thesis using test_text_place [of 12 "''right-bottom''" "plain_fonts ''H'' 157" "''Hello World''" 157] by auto
qed

text \<open>
  C33. Every way out stops the hardware: whether by a signal or because a server, or the
  sweep, ended, the suite leaves the white LED on and the blue one off and the last write
  to the panel is black, when those last writes succeed; and only a signal is a success.
\<close>

theorem exit_stops_hardware:
  assumes "manager_loop readings hw = led_task" "le_plan (snd led_task) = []"
    and "rt_passes t = passes @ p # rest" "list_all (\<lambda>p. saver_fits w (pp_input p) \<and> pp_shutdown p = None) passes"
    and "saver_fits w (pp_input p)" "w \<le> 160" "display_inv w (rt_display t)" "pp_shutdown p = Some (True, None)"
  shows "\<exists>hw' d frames outcome. finish_suite event led_task (Some t) = ((hw', Some (Some (d, frames @ [Some (replicate 19200 0)]))), outcome)
    \<and> le_value hw' LED_WHITE_PATH = 255 \<and> le_value hw' LED_BLUE_PATH = 0 \<and> fb_buffer (di_fb d) = replicate 9600 0
    \<and> (outcome = Inr () \<longleftrightarrow> event \<in> {CtrlC, SigTerm})"
proof -
  have "coherent led_task" using manager_loop_spec [of readings hw] assms(1) by simp
  note leds = manager_stop_spec [OF this assms(2)]
  from shutdown_run [OF assms(4-8), of "rt_brightness t" rest "rt_available t"] leds assms(3) show ?thesis
    by (auto simp: finish_suite_def graceful_shutdown_def exit_outcome_def split: exit_event.split)
qed

lemma exit_stops_hardware_witness:
  "\<exists>hw' d frames. finish_suite (TftpEnded (EndedError ''bind'')) (manager_loop [False] \<lparr>le_plan = [], le_value = \<lambda>_. 7\<rparr>)
      (Some \<lparr>rt_brightness = 255, rt_available = True, rt_display = new_display True False False 255 bare_view 0,
             rt_passes = [\<lparr>pp_input = idle_input 40 0, pp_opens = True, pp_written = None, pp_shutdown = Some (True, None)\<rparr>]\<rparr>)
    = ((hw', Some (Some (d, frames @ [Some (replicate 19200 0)]))), Inl (ServerFatal ''TFTP'' ''bind''))
    \<and> le_value hw' LED_WHITE_PATH = 255"
proof -
  define p where "p = \<lparr>pp_input = idle_input 40 0, pp_opens = True, pp_written = None, pp_shutdown = Some (True, None)\<rparr>"
  define t where "t = \<lparr>rt_brightness = 255, rt_available = True, rt_display = new_display True False False 255 bare_view 0, rt_passes = [p]\<rparr>"
  have plan: "le_plan (snd (manager_loop [False] \<lparr>le_plan = [], le_value = \<lambda>_. 7\<rparr>)) = []"
    by (simp add: manager_loop_def manager_tick_def show_leds_def set_led_cached_def set_led_cached_with_def set_led_def
        new_manager_def Let_def)
  have t: "rt_passes t = [] @ p # []" "display_inv 40 (rt_display t)" by (simp_all add: t_def display_inv_new)
  have p: "saver_fits 40 (pp_input p)" "pp_shutdown p = Some (True, None)"
    by (simp_all add: p_def idle_fits)
  from exit_stops_hardware [OF refl plan t(1) _ p(1) _ t(2) p(2), of "TftpEnded (EndedError ''bind'')"]
  show ?thesis by (auto simp: finish_suite_def exit_outcome_def join_result_to_error_def t_def [symmetric] p_def [symmetric])
qed

end
