(* ===== verification/Logging.thy ===== *)
theory Logging
  imports Rust_Str
begin

text \<open>
  \<^verbatim>\<open>crates/bootycall-log/src/lib.rs\<close>: the structured lifecycle events a log collector reads,
  and the choice of the output format and the filter at start-up. The subscriber that writes
  the lines is third-party code; a filter is whatever it parses a directive to.
\<close>

section \<open>Lifecycle events\<close>

definition EVENT_TARGET :: string where "EVENT_TARGET = ''bootycall::events''"

datatype field_value = Str string | Num nat

record log_line =
  ll_target :: string
  ll_event :: string
  ll_fields :: "(string \<times> field_value) list"

text \<open>The macro \<open>event!\<close>: a record at INFO level under the target of the events.\<close>

definition event :: "string \<Rightarrow> (string \<times> field_value) list \<Rightarrow> log_line" where
  "event name fs = \<lparr>ll_target = EVENT_TARGET, ll_event = name, ll_fields = fs\<rparr>"

lemma event_simps [simp]: "ll_event (event name fs) = name" "ll_fields (event name fs) = fs"
    "ll_target (event name fs) = EVENT_TARGET" "event n1 f1 = event n2 f2 \<longleftrightarrow> n1 = n2 \<and> f1 = f2"
  by (simp_all add: event_def)

section \<open>Initialisation\<close>

text \<open>\<open>from_env\<close> is the filter of the environment, if it is set and parses.\<close>

definition env_filter :: "'f option \<Rightarrow> (string \<Rightarrow> 'f) \<Rightarrow> 'f" where
  "env_filter from_env new_filter = (case from_env of Some f \<Rightarrow> f | None \<Rightarrow> new_filter ''info'')"

datatype log_format = JsonLines | HumanText

definition init_logging :: "string option \<Rightarrow> 'f option \<Rightarrow> (string \<Rightarrow> 'f) \<Rightarrow> log_format \<times> 'f" where
  "init_logging format_var from_env new_filter =
     (let json = (case format_var of Some v \<Rightarrow> eq_ignore_ascii_case v ''json'' | None \<Rightarrow> False) in
      if json then (JsonLines, env_filter from_env new_filter) else (HumanText, env_filter from_env new_filter))"

end
