(* ===== verification/Main_Program.thy ===== *)
theory Main_Program
  imports Supervisor Logging
begin

text \<open>
  \<open>main\<close> of \<^verbatim>\<open>crates/bootycall-rs/src/main.rs\<close> as a whole: the command line, the panic hook,
  the subcommands, and the run of the suite from the boot blink over the LED manager and the
  display to the exit. What the servers do meanwhile is \<open>Boot_Suite\<close>; here they are the event
  that ends the run. Argument parsing (\<open>clap\<close>) is third-party code: its result is the input.
\<close>

section \<open>The command line\<close>

definition STALE_HOST_SWEEP_INTERVAL_SECS :: nat where "STALE_HOST_SWEEP_INTERVAL_SECS = 60"
definition BOOT_BLINK_MIN_SECS :: nat where "BOOT_BLINK_MIN_SECS = 3"

record cli =
  cl_config :: string
  cl_command :: "command option"

text \<open>The hook runs in the thread that panics, whatever the LED tasks do.\<close>

definition panic_hook :: "machine \<Rightarrow> machine" where
  "panic_hook m = m\<lparr>mc_leds := activate_white_led (mc_leds m)\<rparr>"

section \<open>The run\<close>

text \<open>
  What the run meets: the number of sleeps of the boot blink, the readings of the activity by
  the LED manager, what the display finds and its passes, whether the handler of SIGTERM can be
  registered, and the event that ends the run.
\<close>

record run_world =
  rw_blink_sleeps :: nat
  rw_readings :: "bool list"
  rw_fb_exists :: bool
  rw_gpiochip_exists :: bool
  rw_detect :: bool
  rw_enable :: bool
  rw_view :: sys_view
  rw_now :: int
  rw_passes :: "panel_pass list"
  rw_sigterm :: bool
  rw_event :: exit_event

text \<open>The display task is spawned if the configuration enables it; without hardware its loop is over at once.\<close>

definition spawn_oled :: "run_world \<Rightarrow> bool \<Rightarrow> u8 option \<Rightarrow> render_task option" where
  "spawn_oled w opens oled =
     (case oled of
        None \<Rightarrow> None
      | Some brightness \<Rightarrow>
          if \<not> oled_hardware_present (rw_fb_exists w) (rw_gpiochip_exists w) then None
          else Some \<lparr>rt_brightness = brightness, rt_available = True,
                     rt_display = new_display opens (rw_detect w) (rw_enable w) brightness (rw_view w) (rw_now w),
                     rt_passes = rw_passes w\<rparr>)"

definition written_frames :: "(display \<times> bytes option list) option option \<Rightarrow> bytes list" where
  "written_frames oled =
     (case oled of Some (Some (_, outs)) \<Rightarrow> concat (map (\<lambda>out. case out of Some bs \<Rightarrow> [bs] | None \<Rightarrow> []) outs) | _ \<Rightarrow> [])"

definition run_suite :: "run_world \<Rightarrow> started \<Rightarrow> machine \<Rightarrow> machine \<times> (main_error + unit)" where
  "run_suite w s m =
     (let blinked = run_boot_blink (rw_blink_sleeps w) (mc_leds m);
          led_task = manager_loop (rw_readings w) blinked;
          oled_task = spawn_oled w (mc_fb_opens m) (sd_oled s)
      in case finish_suite (rw_event w) led_task oled_task of
           ((hw, oled), outcome) \<Rightarrow>
             if \<not> rw_sigterm w
             then (m\<lparr>mc_leds := snd led_task, mc_frames := mc_frames m @ written_frames oled\<rparr>, Inl SigtermUnregistered)
             else (m\<lparr>mc_leds := hw, mc_frames := mc_frames m @ written_frames oled\<rparr>, outcome))"

text \<open>
  A start that fails returns while the boot blink runs: it is cancelled after some sleeps, or
  it sees its channel closed first and shows ready.
\<close>

definition cancel_blink :: "nat \<Rightarrow> bool \<Rightarrow> machine \<Rightarrow> machine" where
  "cancel_blink sleeps ended m =
     m\<lparr>mc_leds := (if ended then run_boot_blink sleeps (mc_leds m) else snd ((blink_tick ^^ sleeps) (False, mc_leds m)))\<rparr>"

definition main_program ::
  "fonts \<Rightarrow> (string \<Rightarrow> yaml_config option) \<Rightarrow> cli \<Rightarrow> (string \<Rightarrow> string io option) \<Rightarrow> (config \<Rightarrow> sync_end) \<Rightarrow> bool \<Rightarrow> bool
   \<Rightarrow> run_world \<Rightarrow> machine \<Rightarrow> machine \<times> (main_error + string)" where
  "main_program fs parse_yaml args files sync watches ended w m =
     (let path = cl_config args;
          present = (files path \<noteq> None);
          content = (case files path of Some c \<Rightarrow> c | None \<Rightarrow> Inl NotFound)
      in case cl_command args of
           Some cmd \<Rightarrow> run_command fs parse_yaml path present content cmd m
         | None \<Rightarrow>
             (case start_suite parse_yaml path present content sync watches of
                Inl e \<Rightarrow> (cancel_blink (rw_blink_sleeps w) ended m, Inl e)
              | Inr s \<Rightarrow>
                  (case run_suite w s m of
                     (m', Inl e) \<Rightarrow> (m', Inl e)
                   | (m', Inr _) \<Rightarrow> (m', Inr []))))"

section \<open>Properties\<close>

lemma run_suite_spec:
  assumes "run_suite w s m = (m', outcome)"
  shows "outcome = (if rw_sigterm w then exit_outcome (rw_event w) else Inl SigtermUnregistered)"
    and "rw_sigterm w \<Longrightarrow> le_plan (snd (manager_loop (rw_readings w) (run_boot_blink (rw_blink_sleeps w) (mc_leds m)))) = [] \<Longrightarrow>
      le_value (mc_leds m') LED_WHITE_PATH = 255 \<and> le_value (mc_leds m') LED_BLUE_PATH = 0"
    and "\<exists>frames. mc_frames m' = mc_frames m @ frames"
    and "\<not> rw_sigterm w \<Longrightarrow> mc_leds m' = snd (manager_loop (rw_readings w) (run_boot_blink (rw_blink_sleeps w) (mc_leds m)))"
proof -
  show "outcome = (if rw_sigterm w then exit_outcome (rw_event w) else Inl SigtermUnregistered)"
    "\<exists>frames. mc_frames m' = mc_frames m @ frames"
    "\<not> rw_sigterm w \<Longrightarrow> mc_leds m' = snd (manager_loop (rw_readings w) (run_boot_blink (rw_blink_sleeps w) (mc_leds m)))"
    using assms by (auto simp: run_suite_def finish_suite_def Let_def split: prod.splits if_splits)
  define led_task where "led_task = manager_loop (rw_readings w) (run_boot_blink (rw_blink_sleeps w) (mc_leds m))"
  have "coherent led_task" using manager_loop_spec by (simp add: led_task_def)
  note stop = manager_stop_spec [OF this]
  have "rw_sigterm w \<Longrightarrow> mc_leds m' = snd (manager_stop led_task)"
    using assms by (auto simp: run_suite_def finish_suite_def graceful_shutdown_def led_task_def Let_def)
  with stop show "rw_sigterm w \<Longrightarrow> le_plan (snd (manager_loop (rw_readings w) (run_boot_blink (rw_blink_sleeps w) (mc_leds m)))) = [] \<Longrightarrow>
      le_value (mc_leds m') LED_WHITE_PATH = 255 \<and> le_value (mc_leds m') LED_BLUE_PATH = 0"
    by (simp add: led_task_def)
qed

text \<open>The start of a run without a subcommand, from the file the command line names.\<close>

definition start_of ::
  "(string \<Rightarrow> yaml_config option) \<Rightarrow> cli \<Rightarrow> (string \<Rightarrow> string io option) \<Rightarrow> (config \<Rightarrow> sync_end) \<Rightarrow> bool \<Rightarrow> main_error + started" where
  "start_of parse_yaml args files sync watches =
     start_suite parse_yaml (cl_config args) (files (cl_config args) \<noteq> None)
       (case files (cl_config args) of Some c \<Rightarrow> c | None \<Rightarrow> Inl NotFound) sync watches"

lemma main_without_command:
  "cl_command args = None \<Longrightarrow>
   main_program fs parse_yaml args files sync watches ended w m =
     (case start_of parse_yaml args files sync watches of
        Inl e \<Rightarrow> (cancel_blink (rw_blink_sleeps w) ended m, Inl e)
      | Inr s \<Rightarrow> (case run_suite w s m of (m', Inl e) \<Rightarrow> (m', Inl e) | (m', Inr _) \<Rightarrow> (m', Inr [])))"
  by (simp add: main_program_def start_of_def Let_def)

lemma start_checked:
  "is_ok (start_of parse_yaml args files sync watches) \<longleftrightarrow>
   is_ok (snd (main_program fs parse_yaml (args\<lparr>cl_command := Some CheckConfig\<rparr>) files sync watches ended w m)) \<and> watches"
  by (auto simp: main_program_def run_command_def start_of_def start_suite_def check_config_def Let_def split: sum.splits)


definition quiet_world :: run_world where
  "quiet_world =
     \<lparr>rw_blink_sleeps = 7, rw_readings = [False, True], rw_fb_exists = False, rw_gpiochip_exists = False, rw_detect = False,
      rw_enable = False, rw_view = bare_view, rw_now = 0, rw_passes = [], rw_sigterm = True, rw_event = SigTerm\<rparr>"

definition idle_machine :: machine where
  "idle_machine = \<lparr>mc_leds = \<lparr>le_plan = [], le_value = \<lambda>_. 7\<rparr>, mc_fb_opens = False, mc_fb_written = None, mc_frames = []\<rparr>"

lemma set_led_plan: "le_plan hw = [] \<Longrightarrow> le_plan (fst (set_led path v hw)) = []"
  by (simp add: set_led_def)

lemma blink_plan:
  assumes "le_plan hw = []"
  shows "le_plan (run_boot_blink sleeps hw) = []"
proof -
  have "le_plan (snd ((blink_tick ^^ sleeps) (False, hw))) = []"
    by (induction sleeps) (auto simp: assms blink_tick_def set_led_plan split: prod.split)
  then show ?thesis by (simp add: run_boot_blink_def activate_blue_led_def set_led_plan)
qed

lemma manager_plan:
  assumes "le_plan hw = []"
  shows "le_plan (snd (manager_loop readings hw)) = []"
proof (induction readings rule: rev_induct)
  case (snoc active readings)
  have "coherent (manager_loop readings hw)" using manager_loop_spec by blast
  from manager_tick_spec [OF this refl, of active] snoc show ?case by (simp add: manager_loop_def)
qed (simp add: manager_loop_def assms)


end
