(* ===== verification/Suite_History.thy ===== *)
theory Suite_History
  imports Boot_Suite
begin

text \<open>
  Where the entries of the store come from. A run of \<open>Boot_Suite\<close> keeps its history of
  events; here every override target, every configured name and every status \<open>Completed\<close>
  in the store is traced back to the event that put it there: an accepted override request,
  a PXE request of a configured host, a transfer that ended cleanly with the whole file
  sent. The invariant speaks of the calls that are still to be executed as well.
\<close>

section \<open>What justifies an entry\<close>

definition assigned_by :: "suite_event list \<Rightarrow> string \<Rightarrow> string \<Rightarrow> bool" where
  "assigned_by evs m t \<longleftrightarrow> (\<exists>sha256 config headers mac.
     HttpDone sha256 config headers (PostOverride mac t) 200 \<in> set evs \<and> normalize_mac mac = m
     \<and> check_api_token sha256 config headers \<and> t \<in> hc_name ` set (cf_hosts config))"

definition named_by :: "suite_event list \<Rightarrow> string \<Rightarrow> string \<Rightarrow> bool" where
  "named_by evs m n \<longleftrightarrow> (\<exists>config h. DhcpSeen config \<in> set evs \<and> h \<in> set (cf_hosts config) \<and> hc_mac h = m \<and> hc_name h = n)"

definition completed_by :: "suite_event list \<Rightarrow> string \<Rightarrow> bool" where
  "completed_by evs m \<longleftrightarrow> (\<exists>mac out content.
     TransferEnded (Some mac) out (Some content) (Inr ()) \<in> set evs \<and> normalize_mac mac = m \<and> reassemble out = content)"

definition entry_justified :: "suite_event list \<Rightarrow> string \<Rightarrow> host_status \<Rightarrow> string option \<Rightarrow> string option \<Rightarrow> bool" where
  "entry_justified evs m status name target \<longleftrightarrow>
     pred_option (named_by evs m) name \<and> pred_option (assigned_by evs m) target
     \<and> (status = Completed \<longrightarrow> completed_by evs m)"

definition call_justified :: "suite_event list \<Rightarrow> store_op \<Rightarrow> bool" where
  "call_justified evs op = (case op of
     UpdateHost mac status name target _ _ \<Rightarrow> entry_justified evs (normalize_mac mac) status name target
   | _ \<Rightarrow> True)"

definition store_justified :: "suite_event list \<Rightarrow> state_store \<Rightarrow> bool" where
  "store_justified evs st \<longleftrightarrow> (\<forall>m h. fmlookup (ss_hosts st) m = Some h \<longrightarrow>
     entry_justified evs m (hs_status h) (hs_name h) (hs_assigned_target h))"

definition history_inv :: "suite_event list \<Rightarrow> suite \<Rightarrow> bool" where
  "history_inv evs s \<longleftrightarrow> store_justified evs (su_store s)
     \<and> (\<forall>ops \<in> set (su_pending s). \<forall>op \<in> set ops. call_justified evs op)"

text \<open>A longer history justifies no less.\<close>

lemma entry_justified_mono: "entry_justified evs m status name target \<Longrightarrow> entry_justified (e # evs) m status name target"
  by (cases name; cases target) (force simp: entry_justified_def assigned_by_def named_by_def completed_by_def)+

lemma call_justified_mono: "call_justified evs op \<Longrightarrow> call_justified (e # evs) op"
  by (cases op) (simp_all add: call_justified_def entry_justified_mono)

lemma history_inv_mono: "history_inv evs s \<Longrightarrow> history_inv (e # evs) s"
  by (auto simp: history_inv_def store_justified_def intro: entry_justified_mono call_justified_mono)

section \<open>The calls of the handlers\<close>

text \<open>A call that names nobody, assigns nothing and completes nothing needs no justification.\<close>

lemma plain_call_justified: "status \<noteq> Completed \<Longrightarrow> call_justified evs (UpdateHost mac status None None ip arch)"
  by (simp add: call_justified_def entry_justified_def)

lemma log_call_justified [simp]: "call_justified evs (LogEvent level mac message)" "call_justified evs (CleanStale secs)"
  by (simp_all add: call_justified_def)

lemma named_call_justified:
  "DhcpSeen config \<in> set evs \<Longrightarrow>
   call_justified evs (UpdateHost mac Polling (map_option hc_name (find_host config mac)) None ip arch)"
  using find_host_sound [of config mac]
  by (cases "find_host config mac") (auto simp: call_justified_def entry_justified_def named_by_def)

lemma dhcp_calls_justified:
  assumes "dhcp_step decode encode x64 bc probe local_addr config datagram src = (ops, reply)" "op \<in> set ops"
    and "DhcpSeen config \<in> set evs"
  shows "call_justified evs op"
  using assms
  by (auto simp: dhcp_step_eq dhcp_ops_def Let_def named_call_justified split: option.splits)

lemma http_calls_justified:
  assumes "http_handle env config st headers addr req = (resp, ops)" "op \<in> set ops"
    and "HttpDone (he_sha256 env) config headers req (rs_status resp) \<in> set evs"
  shows "call_justified evs op"
proof (cases req)
  case (GetPoll mac)
  with assms have "op \<in> set (snd (poll_handler (he_boot env) config st headers addr mac))" by (simp add: http_handle_def)
  then show ?thesis
    by (auto simp: poll_handler_def Let_def plain_call_justified split: if_splits option.splits poll_outcome.splits)
next
  case (PostOverride mac target)
  with assms show ?thesis
    by (force simp: http_handle_def api_override_handler_def json_def Let_def call_justified_def entry_justified_def
        assigned_by_def list_ex_iff split: if_splits)
qed (use assms in \<open>auto simp: http_handle_def\<close>)

lemma listener_calls_justified:
  "op \<in> set (re_ops (listener_step resolve order config sock slots st datagram src)) \<Longrightarrow> call_justified evs op"
  using listener_ops [of resolve order config sock slots st datagram src]
  by (auto simp: booting_ops_def plain_call_justified split: option.splits)

text \<open>
  The only entry a transfer completes is that of its own host, after a clean return and
  with the whole file sent.
\<close>

lemma failed_calls_justified: "op \<in> set (mark_tftp_failed mac reason) \<Longrightarrow> call_justified evs op"
  by (auto simp: mark_tftp_failed_def plain_call_justified split: option.splits)

lemma transfer_calls_justified:
  assumes run: "handle_tftp_transfer file_read opened metadata start turns request mac = (out, ops, Some res)"
    and op: "op \<in> set ops" and seen: "TransferEnded mac out (file_content opened) res \<in> set evs"
  shows "call_justified evs op"
  using run
proof (cases rule: handle_cases)
  case (oack r sz result)
  with op show ?thesis by (auto intro: failed_calls_justified dest!: finish_oack_marks split: option.splits)
next
  case (data r sz out0 out1 left)
  then obtain stop where stop: "(ops, res) = finish_data mac stop"
    by (auto simp: run_data_def eq_commute [of "(ops, res)"] split: prod.splits option.splits)
  show ?thesis
  proof (cases "\<exists>n m. stop = Finished n \<and> mac = Some m")
    case True
    then obtain n m where fin: "stop = Finished n" "mac = Some m" by blast
    with stop have ops: "UpdateHost m Completed None None None None \<in> set ops" by (simp add: mark_tftp_completed_def)
    have "reassemble out = fr_data r" "res = Inr ()"
      using run_data_spec [OF data(7) handle_window, of m] ops data(4,5)
      by (simp_all add: reassemble_def fold_client_oack oack_of_def)
    with seen fin data(2) have "TransferEnded (Some m) out (Some (fr_data r)) (Inr ()) \<in> set evs" "reassemble out = fr_data r"
      by (simp_all add: file_content_def)
    then have "completed_by evs (normalize_mac m)" unfolding completed_by_def by blast
    with op stop fin show ?thesis by (auto simp: mark_tftp_completed_def call_justified_def entry_justified_def)
  next
    case False
    with op stop show ?thesis
      by (cases stop) (auto simp: mark_tftp_completed_def intro: failed_calls_justified split: option.splits)
  qed
qed (use op in auto)

section \<open>The invariant of the history\<close>

lemma call_keeps_justified:
  assumes "call_justified evs op" "store_justified evs st"
  shows "store_justified evs (apply_op now op st)"
proof (cases op)
  case (UpdateHost mac status name target ip arch)
  with assms show ?thesis
    by (auto simp: store_justified_def call_justified_def entry_justified_def store_simps merged_host_def merge_opt_def
        get_host_def blank_host_def split: if_splits option.splits)
qed (use assms(2) in \<open>auto simp: store_justified_def store_simps split: option.splits if_splits\<close>)

lemma history_inv_add_calls:
  "history_inv evs s \<Longrightarrow> (\<And>op. op \<in> set ops \<Longrightarrow> call_justified (e # evs) op) \<Longrightarrow> history_inv (e # evs) (add_calls ops s)"
  using history_inv_mono [of evs s e] by (auto simp: history_inv_def add_calls_def)

lemma history_inv_jobs [simp]: "history_inv evs (add_job j s) = history_inv evs s" "history_inv evs (end_job k s) = history_inv evs s"
  by (auto simp: history_inv_def add_job_def end_job_def split: option.splits)

lemma history_inv_step:
  assumes inv: "history_inv evs s" and step: "suite_step order parse_yaml e s s'"
  shows "history_inv (e # evs) s'"
  using step
proof (cases rule: suite_step.cases)
  case (dhcp decode encode x64 bc probe local_addr datagram src ops reply)
  with inv show ?thesis by (auto intro!: history_inv_add_calls dhcp_calls_justified)
next
  case (http env headers addr req resp ops)
  with inv show ?thesis by (auto intro!: history_inv_add_calls http_calls_justified)
next
  case (tftp resolve sock datagram src r)
  with inv show ?thesis by (auto intro!: history_inv_add_calls intro: listener_calls_justified)
next
  case (transfer j opened metadata start turns out ops res)
  with inv show ?thesis by (auto intro!: history_inv_add_calls intro: transfer_calls_justified)
next
  case sweep
  with inv show ?thesis by (auto intro!: history_inv_add_calls)
next
  case (reload name input w out)
  with history_inv_mono [OF inv] show ?thesis by (simp add: history_inv_def)
next
  case (call ps op ops qs now)
  with history_inv_mono [OF inv, of e] show ?thesis by (auto simp: history_inv_def call_keeps_justified)
qed

lemma history_inv_run: "suite_run order parse_yaml evs s \<Longrightarrow> history_inv evs s"
proof (induction rule: suite_run.induct)
  case (start content config)
  show ?case by (simp add: history_inv_def suite_start_def store_justified_def new_store_def)
qed (rule history_inv_step)

section \<open>Properties\<close>



end
