(* ===== verification/Tftp_Lossy.thy ===== *)
theory Tftp_Lossy
  imports Tftp_Service
begin

text \<open>
  The transfer over a link that loses datagrams, with the client of RFC 7440 at the other
  end: it keeps the blocks it expects and answers a burst with an acknowledgement of the
  last block it has. The fates of the datagrams are arbitrary; the turns of the server's
  loop are what the link then makes of its own datagrams. The lemmas give safety for all
  fates, completion when the link recovers often enough, and what repeated
  acknowledgements of the last window do.
\<close>

section \<open>The link\<close>

text \<open>The fate of one burst: which of its datagrams are lost, and whether the answer is.\<close>

record link_round =
  lr_now :: int
  lr_lost :: "nat list"
  lr_ack_lost :: bool

definition arriving :: "nat list \<Rightarrow> bytes list \<Rightarrow> bytes list" where
  "arriving lost out = nths out (- set lost)"

definition link_turn :: "link_round \<Rightarrow> bytes list \<Rightarrow> nat \<times> bytes \<Rightarrow> turn \<times> nat \<times> bytes" where
  "link_turn r out c =
     (let arrived = arriving (lr_lost r) out;
          c' = fold client_step arrived c
      in (\<lparr>t_send = \<lambda>_. None, t_now = lr_now r,
           t_recv = (if arrived = [] \<or> lr_ack_lost r then RecvTimeout
                     else Recv (make_ack_packet (wire_of (fst c' - 1))))\<rparr>, c'))"

text \<open>The turns of the loop and the client at its end.\<close>

fun link_turns ::
  "('r \<Rightarrow> nat \<Rightarrow> (bytes \<times> 'r) io) \<Rightarrow> nat \<Rightarrow> nat \<Rightarrow> retry_policy \<Rightarrow> link_round list \<Rightarrow> nat \<times> bytes \<Rightarrow> 'r xfer
   \<Rightarrow> turn list \<times> nat \<times> bytes" where
  "link_turns read blksize window policy [] c x = ([], c)"
| "link_turns read blksize window policy (r # rs) c x =
     (case link_turn r (fst (fill_window read blksize (\<lambda>_. None) (x_base x + window) x)) c of
        (t, c1) \<Rightarrow>
          (case data_turn read blksize window policy t x of
             (_, Inl _) \<Rightarrow> ([t], c1)
           | (_, Inr x1) \<Rightarrow> apfst ((#) t) (link_turns read blksize window policy rs c1 x1)))"

section \<open>The client\<close>

lemma client_step_near:
  assumes "1 \<le> h" "k < h + 65536" "h < k + 65536"
  shows "client_step (block_packet B C k) (client_at B C h) = client_at B C (if k = h then Suc h else h)"
proof (cases k h rule: linorder_cases)
  case less
  with assms(3) client_step_old [of k h B C] show ?thesis by auto
next
  case greater
  with assms(2) wire_of_distinct [of h k] have "wire_of k \<noteq> wire_of h" by fastforce
  with greater show ?thesis by (simp add: client_step_def client_at_def block_packet_def wire_simps)
qed (use client_step_next [OF assms(1)] in simp)

text \<open>Whatever arrives of a burst, in whatever order, leaves the client within the burst.\<close>

lemma client_arrivals:
  assumes "\<forall>p \<in> set ps. \<exists>k. b \<le> k \<and> k < m \<and> p = block_packet B C k" "1 \<le> b" "b \<le> h" "h \<le> m" "m \<le> b + 65535"
  shows "\<exists>h'. fold client_step ps (client_at B C h) = client_at B C h' \<and> h \<le> h' \<and> h' \<le> m"
  using assms(1,3,4)
proof (induction ps arbitrary: h)
  case (Cons p ps)
  then obtain k where k: "b \<le> k" "k < m" "p = block_packet B C k" by auto
  have "client_step p (client_at B C h) = client_at B C (if k = h then Suc h else h)"
    unfolding k(3) using Cons.prems(2,3) k(1,2) assms(2,5) by (intro client_step_near) auto
  with Cons.IH [of "if k = h then Suc h else h"] Cons.prems k(2) show ?case by (fastforce split: if_splits)
qed auto

text \<open>A burst that arrives as it was sent.\<close>

lemma client_burst:
  assumes "1 \<le> b" "b \<le> h" "h \<le> m" "m \<le> b + 65535"
  shows "fold client_step (map (block_packet B C) [b..<m]) (client_at B C h) = client_at B C m"
  using assms(3,4)
proof (induction m rule: dec_induct)
  case base
  have "fold client_step (map (block_packet B C) ks) (client_at B C h) = client_at B C h"
    if "set ks \<subseteq> {b..<h}" for ks
    using that
  proof (induction ks)
    case (Cons k ks)
    with base assms(1,2) have "client_step (block_packet B C k) (client_at B C h) = client_at B C h"
      by (subst client_step_near) auto
    with Cons show ?case by simp
  qed simp
  then show ?case by simp
next
  case (step n)
  then have "fold client_step (map (block_packet B C) [b..<n]) (client_at B C h) = client_at B C n"
    "client_step (block_packet B C n) (client_at B C n) = client_at B C (Suc n)"
    using assms(1,2) client_step_next [of n B C] by auto
  moreover have "b \<le> n" using step assms(2) by simp
  ultimately show ?case by simp
qed

section \<open>One round\<close>

text \<open>How the acknowledgement of the client's last block is taken.\<close>

lemma await_client_ack:
  assumes "1 \<le> x_base x" "x_base x \<le> h" "h \<le> x_next x" "x_next x \<le> x_base x + W" "W < 65536"
    and "t_recv t = Recv (make_ack_packet (wire_of (h - 1)))"
    and "x_retries x < rp_max_retries policy" "t_now t < rp_deadline policy"
  shows "await_data_ack policy t x =
    (if h = x_base x then Inr (x\<lparr>x_retries := Suc (x_retries x)\<rparr>) else accept_ack (wire_of (h - 1)) x)"
    and "h \<noteq> x_base x \<Longrightarrow> List.find (\<lambda>n. wire_of n = wire_of (h - 1)) [x_base x..<x_next x] = Some (h - 1)"
proof -
  have stale: "List.find (\<lambda>n. wire_of n = wire_of (h - 1)) [x_base x..<x_next x] = None" if "h = x_base x"
  proof -
    have "wire_of (h - 1) \<noteq> wire_of n" if "n \<in> set [x_base x..<x_next x]" for n
      using that \<open>h = x_base x\<close> assms(1,4,5) by (intro wire_of_distinct) auto
    then show ?thesis unfolding find_None_iff by metis
  qed
  show "h \<noteq> x_base x \<Longrightarrow> List.find (\<lambda>n. wire_of n = wire_of (h - 1)) [x_base x..<x_next x] = Some (h - 1)"
    using assms(2-5) by (intro find_wire_of) auto
  show "await_data_ack policy t x =
    (if h = x_base x then Inr (x\<lparr>x_retries := Suc (x_retries x)\<rparr>) else accept_ack (wire_of (h - 1)) x)"
    using stale assms(6-8)
    by (auto simp: await_data_ack_def ack_buf_ack make_ack_not_error wire_simps accept_ack_None Let_def)
qed

lemma link_turn_client:
  assumes "link_turn r out (client_at B C h) = (t, c1)"
    and "fold client_step (arriving (lr_lost r) out) (client_at B C h) = client_at B C h1"
  shows "c1 = client_at B C h1" "t_send t = (\<lambda>_. None)" "t_now t = lr_now r"
    "t_recv t = (if arriving (lr_lost r) out = [] \<or> lr_ack_lost r then RecvTimeout
                 else Recv (make_ack_packet (wire_of (h1 - 1))))"
proof -
  have "fst (client_at B C h1) = h1" by (simp add: client_at_def)
  then show "c1 = client_at B C h1" "t_send t = (\<lambda>_. None)" "t_now t = lr_now r"
    "t_recv t = (if arriving (lr_lost r) out = [] \<or> lr_ack_lost r then RecvTimeout
                 else Recv (make_ack_packet (wire_of (h1 - 1))))"
    using assms by (auto simp only: link_turn_def Let_def prod.inject turn.simps)
qed

text \<open>The client is level with the sender or ahead of it, by no more than the window.\<close>

definition linked :: "('r \<Rightarrow> bytes) \<Rightarrow> ('r \<Rightarrow> bool) \<Rightarrow> nat \<Rightarrow> nat \<Rightarrow> bytes \<Rightarrow> 'r xfer \<Rightarrow> nat \<Rightarrow> bool" where
  "linked remaining valid B W C x h \<longleftrightarrow>
     xfer_inv remaining valid B W C x \<and> x_base x \<le> h \<and> h \<le> min (x_base x + W) (num_blocks B C + 1)"

context byte_reader
begin

lemma link_round_safe:
  assumes inv: "linked remaining valid B W C x h" and B: "0 < B" and W: "W < 65536"
    and turn: "link_turn r (fst (fill_window read B (\<lambda>_. None) (x_base x + W) x)) (client_at B C h) = (t, c1)"
    and res: "data_turn read B W policy t x = (out, res)"
  shows "\<exists>h1. c1 = client_at B C h1 \<and> h1 \<le> num_blocks B C + 1
    \<and> (\<forall>n. res = Inl (Finished n) \<longrightarrow> h1 = num_blocks B C + 1)
    \<and> (\<forall>x1. res = Inr x1 \<longrightarrow> linked remaining valid B W C x1 h1)"
proof -
  have x: "xfer_inv remaining valid B W C x" and h: "x_base x \<le> h" "h \<le> min (x_base x + W) (num_blocks B C + 1)"
    using inv by (auto simp: linked_def)
  note bounds = xfer_inv_bounds [OF x]
  obtain sent fres where fill: "fill_window read B (\<lambda>_. None) (x_base x + W) x = (sent, fres)" by fastforce
  note spec = fill_window_inv [OF x B refl fill]
  let ?m = "min (x_base x + W) (num_blocks B C + 1)"
  define arrived where "arrived = arriving (lr_lost r) sent"
  have "set arrived \<subseteq> set sent"
    by (simp add: arrived_def arriving_def set_nths_subset)
  have blocks: "\<forall>p \<in> set arrived. \<exists>k. x_base x \<le> k \<and> k < ?m \<and> p = block_packet B C k"
  proof
    fix p assume "p \<in> set arrived"
    with \<open>set arrived \<subseteq> set sent\<close> have "p \<in> set sent" by blast
    with conjunct1 [OF spec] obtain k where "x_base x \<le> k" "k < x_base x + W" "k \<le> num_blocks B C" "p = block_packet B C k" by blast
    then show "\<exists>k. x_base x \<le> k \<and> k < ?m \<and> p = block_packet B C k" by (intro exI [of _ k]) simp
  qed
  have near: "?m \<le> x_base x + 65535" using W by auto
  obtain h1 where
    h1: "fold client_step arrived (client_at B C h) = client_at B C h1" "h \<le> h1" "h1 \<le> ?m"
    using client_arrivals [OF blocks bounds(1) h near] by blast
  have c1: "c1 = client_at B C h1" and send: "t_send t = (\<lambda>_. None)"
    and recv: "t_recv t = RecvTimeout \<or> t_recv t = Recv (make_ack_packet (wire_of (h1 - 1)))"
    using link_turn_client [OF turn, of h1] h1(1) by (auto simp: fill arrived_def)
  show ?thesis
  proof (cases fres)
    case (Inl stop)
    with res fill send have "res = Inl stop" by (simp add: data_turn_def)
    with Inl fill_window_stop [OF fill [unfolded Inl]] c1 h1(3) show ?thesis by auto
  next
    case (Inr x1)
    with spec have x1: "xfer_inv remaining valid B W C x1" "x_base x1 = x_base x" "x_retries x1 = x_retries x"
      "x_next x1 = x_base x + W \<or> x_next x1 = num_blocks B C + 1" by blast+
    have nxt: "x_next x1 = ?m" using x1(2,4) xfer_inv_bounds [OF x1(1)] by auto
    from res fill send Inr have ack: "await_data_ack policy t x1 = res" by (simp add: data_turn_def)
    show ?thesis
    proof (cases "x_retries x1 \<ge> rp_max_retries policy \<or> t_now t \<ge> rp_deadline policy")
      case True
      with ack have "res = Inl RetriesExhausted" by (auto simp: await_data_ack_def)
      with c1 h1(3) show ?thesis by auto
    next
      case False
      from recv show ?thesis
      proof
        assume "t_recv t = RecvTimeout"
        with False ack have "res = Inr (x1\<lparr>x_retries := Suc (x_retries x1), x_next := x_base x1\<rparr>)"
          by (auto simp: await_data_ack_def)
        with xfer_inv_retry(2) [OF x1(1)] x1(2) h h1 c1 show ?thesis by (auto simp: linked_def)
      next
        assume recv: "t_recv t = Recv (make_ack_packet (wire_of (h1 - 1)))"
        note acked = await_client_ack [OF _ _ _ _ W recv, of x1 policy]
        have pre: "1 \<le> x_base x1" "x_base x1 \<le> h1" "h1 \<le> x_next x1" "x_next x1 \<le> x_base x1 + W"
          using bounds(1) x1(2) h h1 nxt by auto
        show ?thesis
        proof (cases "h1 = x_base x1")
          case True
          with acked(1) [OF pre] False ack have "res = Inr (x1\<lparr>x_retries := Suc (x_retries x1)\<rparr>)" by auto
          with xfer_inv_retry(1) [OF x1(1)] x1(2) h h1 c1 show ?thesis by (auto simp: linked_def)
        next
          case other: False
          with acked [OF pre] False ack have acc: "accept_ack (wire_of (h1 - 1)) x1 = res"
            and find: "List.find (\<lambda>n. wire_of n = wire_of (h1 - 1)) [x_base x1..<x_next x1] = Some (h1 - 1)" by auto
          from accept_ack_Some [OF x1(1) find, unfolded acc]
          have good: "\<forall>x'. res = Inr x' \<longrightarrow> xfer_inv remaining valid B W C x' \<and> x_base x' = h1"
            using pre(1,2) by auto
          have fin: "h1 = num_blocks B C + 1" if "res = Inl (Finished n)" for n
          proof -
            from that acc find have "\<exists>lb. x_last x1 = Some lb \<and> h1 - 1 + 1 > lb"
              by (auto simp: accept_ack_def Let_def split: option.splits if_splits)
            then have "h1 > num_blocks B C" using x1(1) pre(1,2) by (auto simp: xfer_inv_def xfer_inv_at_def)
            with h1(3) show ?thesis by simp
          qed
          show ?thesis using good fin c1 h1(3) by (intro exI [of _ h1]) (auto simp: linked_def)
        qed
      qed
    qed
  qed
qed

text \<open>Every fate of the link: what the client holds.\<close>

lemma link_loop_safe:
  assumes "linked remaining valid B W C x h" "0 < B" "W < 65536"
    "link_turns read B W policy rs (client_at B C h) x = (ts, c)" "data_loop read B W policy ts x = (out, res)"
  shows "\<exists>h1. c = client_at B C h1 \<and> (\<forall>n. res = Some (Finished n) \<longrightarrow> h1 = num_blocks B C + 1)"
  using assms
proof (induction rs arbitrary: x h ts out)
  case (Cons r rs)
  obtain t c1 where turn: "link_turn r (fst (fill_window read B (\<lambda>_. None) (x_base x + W) x)) (client_at B C h) = (t, c1)"
    by (metis surj_pair)
  obtain out1 res1 where step: "data_turn read B W policy t x = (out1, res1)" by fastforce
  from link_round_safe [OF Cons.prems(1-3) turn step] obtain h1 where h1: "c1 = client_at B C h1"
    "\<forall>n. res1 = Inl (Finished n) \<longrightarrow> h1 = num_blocks B C + 1"
    "\<forall>x1. res1 = Inr x1 \<longrightarrow> linked remaining valid B W C x1 h1" by blast
  show ?case
  proof (cases res1)
    case (Inl stop)
    with Cons.prems(4,5) turn step have "c = c1" "res = Some stop" by auto
    with h1 Inl show ?thesis by auto
  next
    case (Inr x1)
    obtain ts1 where rec: "link_turns read B W policy rs c1 x1 = (ts1, c)" and ts: "ts = t # ts1"
      using Cons.prems(4) turn step Inr by (cases "link_turns read B W policy rs c1 x1") auto
    obtain out2 where "data_loop read B W policy ts1 x1 = (out2, res)"
      using Cons.prems(5) step Inr by (auto simp: ts split: prod.splits)
    with Cons.IH [of x1 h1 ts1 out2] h1 Inr rec Cons.prems(2,3) show ?thesis by auto
  qed
qed auto

end

section \<open>A link that recovers\<close>

definition good_round :: "link_round \<Rightarrow> bool" where
  "good_round r \<longleftrightarrow> lr_lost r = [] \<and> \<not> lr_ack_lost r"

fun adjacent_good :: "link_round list \<Rightarrow> bool" where
  "adjacent_good (r # r' # rs) \<longleftrightarrow> good_round r \<and> good_round r' \<or> adjacent_good (r' # rs)"
| "adjacent_good _ \<longleftrightarrow> False"

text \<open>Among any \<open>k\<close> consecutive rounds two adjacent ones lose nothing.\<close>

definition recovers :: "nat \<Rightarrow> link_round list \<Rightarrow> bool" where
  "recovers k rs \<longleftrightarrow> list_all (\<lambda>i. adjacent_good (take k (drop i rs))) [0..<Suc (length rs) - k]"

lemma recoversD: "recovers k rs \<Longrightarrow> i + k \<le> length rs \<Longrightarrow> adjacent_good (take k (drop i rs))"
  by (auto simp: recovers_def list_all_iff)

lemma recovers_Cons: "recovers k (r # rs) \<Longrightarrow> recovers k rs"
  unfolding recovers_def list_all_iff
proof
  fix i assume all: "\<forall>i \<in> set [0..<Suc (length (r # rs)) - k]. adjacent_good (take k (drop i (r # rs)))"
    and "i \<in> set [0..<Suc (length rs) - k]"
  then have "Suc i \<in> set [0..<Suc (length (r # rs)) - k]" by auto
  with all have "adjacent_good (take k (drop (Suc i) (r # rs)))" by blast
  then show "adjacent_good (take k (drop i rs))" by simp
qed

text \<open>A pass starts at one of the two ends of its window.\<close>

definition at_edge :: "nat \<Rightarrow> nat \<Rightarrow> bytes \<Rightarrow> 'r xfer \<Rightarrow> bool" where
  "at_edge B W C x \<longleftrightarrow> x_next x = x_base x \<or> x_next x = min (x_base x + W) (num_blocks B C + 1)"

context steady_reader
begin

lemma link_round_steady:
  assumes inv: "linked remaining valid B W C x h" "at_edge B W C x" and B: "0 < B" and W: "0 < W" "W < 65536"
    and live: "x_retries x < rp_max_retries policy" "lr_now r < rp_deadline policy"
    and turn: "link_turn r (fst (fill_window read B (\<lambda>_. None) (x_base x + W) x)) (client_at B C h) = (t, c1)"
    and res: "data_turn read B W policy t x = (out, res)"
  shows "res = Inl (Finished (num_blocks B C)) \<or>
    (\<exists>x1. res = Inr x1 \<and> at_edge B W C x1 \<and>
      (x_base x < x_base x1 \<and> x_retries x1 = 0 \<or>
       x_base x1 = x_base x \<and> x_retries x1 = Suc (x_retries x)
         \<and> (good_round r \<longrightarrow> x_next x \<noteq> x_base x \<and> x_next x1 = x_base x1)))"
proof -
  obtain hi where x: "xfer_inv_at remaining valid B W C x hi" and xi: "xfer_inv remaining valid B W C x"
    and h: "x_base x \<le> h" "h \<le> min (x_base x + W) (num_blocks B C + 1)"
    using inv(1) by (auto simp: linked_def xfer_inv_def)
  note bounds = xfer_inv_bounds [OF xi]
  let ?m = "min (x_base x + W) (num_blocks B C + 1)"
  from fill_window_exact [OF x B refl, of "\<lambda>_. None"] obtain x1 where
    fill: "fill_window read B (\<lambda>_. None) (x_base x + W) x = (map (block_packet B C) [x_next x..<?m], Inr x1)"
    and x1: "x_next x1 = ?m" "xfer_inv_at remaining valid B W C x1 ?m" "x_base x1 = x_base x" by auto
  have retries: "x_retries x1 = x_retries x" using fill_window_base [OF fill] by simp
  have x1i: "xfer_inv remaining valid B W C x1" using x1(2) by (auto simp: xfer_inv_def)
  define arrived where "arrived = arriving (lr_lost r) (map (block_packet B C) [x_next x..<?m])"
  have "set arrived \<subseteq> set (map (block_packet B C) [x_next x..<?m])"
    by (simp only: arrived_def arriving_def set_nths_subset)
  have blocks: "\<forall>p \<in> set arrived. \<exists>k. x_base x \<le> k \<and> k < ?m \<and> p = block_packet B C k"
  proof
    fix p assume "p \<in> set arrived"
    with \<open>set arrived \<subseteq> _\<close> obtain k where "k \<in> set [x_next x..<?m]" "p = block_packet B C k" by auto
    with bounds(3) show "\<exists>k. x_base x \<le> k \<and> k < ?m \<and> p = block_packet B C k" by (intro exI [of _ k]) auto
  qed
  have near: "?m \<le> x_base x + 65535" using W(2) by auto
  obtain h1 where
    h1: "fold client_step arrived (client_at B C h) = client_at B C h1" "h \<le> h1" "h1 \<le> ?m"
    using client_arrivals [OF blocks bounds(1) h near] by blast
  have t: "t_send t = (\<lambda>_. None)" "t_now t = lr_now r"
    "t_recv t = (if arrived = [] \<or> lr_ack_lost r then RecvTimeout else Recv (make_ack_packet (wire_of (h1 - 1))))"
    using link_turn_client [OF turn, of h1] h1(1) by (simp_all add: fill arrived_def)
  from res fill t(1) have ack: "await_data_ack policy t x1 = res" by (simp add: data_turn_def)
  have ahead: "x_base x < ?m" using bounds(2) W(1) by simp
  have calm: "arrived = map (block_packet B C) [x_next x..<?m]" if "good_round r"
    using that by (simp add: arrived_def arriving_def good_round_def nths_all)
  show ?thesis
  proof (cases "arrived = [] \<or> lr_ack_lost r")
    case True
    then have "res = Inr (x1\<lparr>x_retries := Suc (x_retries x1), x_next := x_base x1\<rparr>)"
      using ack t live retries by (auto simp: await_data_ack_def)
    moreover have "x_next x \<noteq> x_base x" if "good_round r"
      using True calm [OF that] that ahead by (auto simp: good_round_def)
    ultimately show ?thesis using x1(3) retries by (auto simp: at_edge_def)
  next
    case False
    with t have recv: "t_recv t = Recv (make_ack_packet (wire_of (h1 - 1)))" by simp
    note acked = await_client_ack [OF _ _ _ _ W(2) recv, of x1 policy]
    have pre: "1 \<le> x_base x1" "x_base x1 \<le> h1" "h1 \<le> x_next x1" "x_next x1 \<le> x_base x1 + W"
      using bounds(1) x1 h h1 by auto
    show ?thesis
    proof (cases "h1 = x_base x1")
      case True
      with acked(1) [OF pre] t(2) live retries ack have "res = Inr (x1\<lparr>x_retries := Suc (x_retries x1)\<rparr>)" by auto
      moreover have "\<not> good_round r"
      proof
        assume "good_round r"
        with calm False have all: "arrived = map (block_packet B C) [x_next x..<?m]" "x_next x < ?m" by auto
        with inv(2) have "x_next x = x_base x" by (auto simp: at_edge_def)
        with all(1) client_burst [of "x_base x" h ?m B C] bounds(1) h W(2) h1(1)
        have "client_at B C h1 = client_at B C ?m" by simp
        then have "h1 = ?m" by (simp add: client_at_def)
        with True x1(3) ahead show False by simp
      qed
      ultimately show ?thesis using x1(1,3) retries by (auto simp: at_edge_def)
    next
      case other: False
      from acked [OF pre] t(2) live retries other ack have acc: "accept_ack (wire_of (h1 - 1)) x1 = res"
        and find: "List.find (\<lambda>n. wire_of n = wire_of (h1 - 1)) [x_base x1..<x_next x1] = Some (h1 - 1)" by auto
      note spec = accept_ack_Some [OF x1i find, unfolded acc]
      show ?thesis
      proof (cases res)
        case (Inl stop)
        with spec show ?thesis by auto
      next
        case (Inr x')
        with spec pre(1,2) have x': "x_base x' = h1" "x_retries x' = 0" by auto
        have "x_next x' = h1"
          using acc find Inr pre(1-3) by (auto simp: accept_ack_def Let_def split: option.splits if_splits)
        with x' Inr other pre(2) x1(3) show ?thesis by (auto simp: at_edge_def)
      qed
    qed
  qed
qed

text \<open>Acknowledgements of the block before the window: each spends a retry, none repeats a block.\<close>

lemma stale_loop:
  assumes "xfer_inv_at remaining valid B W C x hi" "0 < B" "0 < W" "W < 65536"
    and "x_next x = min (x_base x + W) (num_blocks B C + 1)" "x_base x = b"
    and "stale = \<lparr>t_send = \<lambda>_. None, t_now = now, t_recv = Recv (make_ack_packet (wire_of (b - 1)))\<rparr>"
    and "now < rp_deadline policy" "x_retries x + k = rp_max_retries policy" "t_send last_turn = (\<lambda>_. None)"
  shows "data_loop read B W policy (replicate k stale @ [last_turn]) x = ([], Some RetriesExhausted)"
  using assms(1,5,6,9)
proof (induction k arbitrary: x hi)
  case (0 x)
  from fill_window_exact [OF 0(1) assms(2) refl, of "\<lambda>_. None"] 0(2) obtain x1 where
    fill: "fill_window read B (\<lambda>_. None) (x_base x + W) x = ([], Inr x1)" by auto
  with fill_window_base [OF fill] 0(4) assms(10) show ?case by (simp add: data_turn_def await_data_ack_def)
next
  case (Suc k)
  let ?m = "min (x_base x + W) (num_blocks B C + 1)"
  from fill_window_exact [OF Suc.prems(1) assms(2) refl, of "\<lambda>_. None"] Suc.prems(2) obtain x1 where
    fill: "fill_window read B (\<lambda>_. None) (x_base x + W) x = ([], Inr x1)"
    and x1: "x_next x1 = ?m" "xfer_inv_at remaining valid B W C x1 ?m" "x_base x1 = x_base x" by auto
  have retries: "x_retries x1 = x_retries x" using fill_window_base [OF fill] by simp
  have bounds: "1 \<le> x_base x1" "x_base x1 \<le> x_next x1" "x_next x1 \<le> x_base x1 + W"
    using x1 by (auto simp: xfer_inv_at_def)
  have recv: "t_recv stale = Recv (make_ack_packet (wire_of (x_base x1 - 1)))" "t_now stale < rp_deadline policy"
    "t_send stale = (\<lambda>_. None)" using assms(7,8) x1(3) Suc.prems(3) by simp_all
  have "await_data_ack policy stale x1 = Inr (x1\<lparr>x_retries := Suc (x_retries x1)\<rparr>)"
    using await_client_ack(1) [OF bounds(1) le_refl bounds(2,3) assms(4) recv(1), of policy] recv(2) Suc.prems(4) retries by simp
  then have turn: "data_turn read B W policy stale x = ([], Inr (x1\<lparr>x_retries := Suc (x_retries x1)\<rparr>))"
    using fill recv(3) by (simp add: data_turn_def)
  have "xfer_inv_at remaining valid B W C (x1\<lparr>x_retries := Suc (x_retries x1)\<rparr>) ?m"
    using x1(2) by (simp add: xfer_inv_at_def split: option.splits)
  from Suc.IH [OF this] x1 retries Suc.prems(3,4)
  have "data_loop read B W policy (replicate k stale @ [last_turn]) (x1\<lparr>x_retries := Suc (x_retries x1)\<rparr>)
    = ([], Some RetriesExhausted)" by simp
  with turn show ?case by simp
qed

lemma stale_from_start:
  assumes "valid r" "remaining r = C" "0 < B" "0 < W" "W < 65536"
    and "stale = \<lparr>t_send = \<lambda>_. None, t_now = now, t_recv = Recv (make_ack_packet 0)\<rparr>"
    and "now < rp_deadline policy" "rp_max_retries policy = Suc k" "t_send last_turn = (\<lambda>_. None)"
  shows "data_loop read B W policy (replicate (Suc k) stale @ [last_turn]) (start_xfer r)
    = (map (block_packet B C) [1..<min W (num_blocks B C) + 1], Some RetriesExhausted)"
proof -
  have start: "xfer_inv_at remaining valid B W C (start_xfer r) 1"
    using assms(1,2) by (auto simp: xfer_inv_at_def start_xfer_def num_blocks_def)
  have x: "x_base (start_xfer r) = 1" "x_next (start_xfer r) = 1" "x_retries (start_xfer r) = 0"
    by (simp_all add: start_xfer_def)
  let ?m = "min (1 + W) (num_blocks B C + 1)"
  from fill_window_exact [OF start assms(3) refl, of "\<lambda>_. None"] x obtain x1 where
    fill: "fill_window read B (\<lambda>_. None) (1 + W) (start_xfer r) = (map (block_packet B C) [1..<?m], Inr x1)"
    and x1: "x_next x1 = ?m" "xfer_inv_at remaining valid B W C x1 ?m" "x_base x1 = 1" by auto
  have retries: "x_retries x1 = 0" using fill_window_base [OF fill] x(3) by simp
  have zero: "wire_of (1 - 1) = 0" by (simp add: wire_of_def)
  have bounds: "1 \<le> x_base x1" "x_base x1 \<le> x_next x1" "x_next x1 \<le> x_base x1 + W"
    using x1 by (auto simp: xfer_inv_at_def)
  have recv: "t_recv stale = Recv (make_ack_packet (wire_of (x_base x1 - 1)))" "t_now stale < rp_deadline policy"
    "t_send stale = (\<lambda>_. None)" using assms(6,7) x1(3) zero by simp_all
  have "await_data_ack policy stale x1 = Inr (x1\<lparr>x_retries := Suc (x_retries x1)\<rparr>)"
    using await_client_ack(1) [OF bounds(1) le_refl bounds(2,3) assms(5) recv(1), of policy] recv(2) assms(8) retries by simp
  then have turn: "data_turn read B W policy stale (start_xfer r)
      = (map (block_packet B C) [1..<?m], Inr (x1\<lparr>x_retries := 1\<rparr>))"
    using fill recv(3) x retries by (simp add: data_turn_def)
  have inv2: "xfer_inv_at remaining valid B W C (x1\<lparr>x_retries := 1\<rparr>) ?m"
    using x1(2) by (simp add: xfer_inv_at_def split: option.splits)
  have "data_loop read B W policy (replicate k stale @ [last_turn]) (x1\<lparr>x_retries := 1\<rparr>) = ([], Some RetriesExhausted)"
    using stale_loop [OF inv2 assms(3-5), of 1 stale now policy k last_turn] x1 assms(6-9) zero by simp
  with turn have "data_loop read B W policy (replicate (Suc k) stale @ [last_turn]) (start_xfer r)
    = (map (block_packet B C) [1..<?m], Some RetriesExhausted)" by simp
  moreover have "?m = min W (num_blocks B C) + 1" by simp
  ultimately show ?thesis by simp
qed

text \<open>The loop finishes and the client then holds the file.\<close>

definition link_finishes :: "nat \<Rightarrow> nat \<Rightarrow> bytes \<Rightarrow> retry_policy \<Rightarrow> link_round list \<Rightarrow> nat \<Rightarrow> 'a xfer \<Rightarrow> bool" where
  "link_finishes B W C policy rs h x \<longleftrightarrow>
     (\<exists>ts out. link_turns read B W policy rs (client_at B C h) x = (ts, client_at B C (num_blocks B C + 1))
        \<and> data_loop read B W policy ts x = (out, Some (Finished (num_blocks B C))))"

lemma link_finishes_step:
  assumes "link_turn r (fst (fill_window read B (\<lambda>_. None) (x_base x + W) x)) (client_at B C h) = (t, client_at B C h1)"
    and "data_turn read B W policy t x = (out, Inr x1)" "link_finishes B W C policy rs h1 x1"
  shows "link_finishes B W C policy (r # rs) h x"
  using assms by (fastforce simp: link_finishes_def)

lemma link_finishes_stop:
  assumes "link_turn r (fst (fill_window read B (\<lambda>_. None) (x_base x + W) x)) (client_at B C h)
      = (t, client_at B C (num_blocks B C + 1))"
    and "data_turn read B W policy t x = (out, Inl (Finished (num_blocks B C)))"
  shows "link_finishes B W C policy (r # rs) h x"
  using assms by (simp add: link_finishes_def)

lemma link_completes:
  assumes "linked remaining valid B W C x h" "at_edge B W C x" "0 < B" "0 < W" "W < 65536"
    and "list_all (\<lambda>r. lr_now r < rp_deadline policy) rs" "recovers R rs" "R = rp_max_retries policy"
    and "R * (num_blocks B C - x_base x) + (R - x_retries x) \<le> length rs" "x_retries x < R"
    and "adjacent_good (take (R - x_retries x) rs) \<or> x_next x = x_base x \<and> rs \<noteq> [] \<and> good_round (hd rs)"
  shows "link_finishes B W C policy rs h x"
  using assms(1,2,6,7,9-11)
proof (induction rs arbitrary: x h)
  case (Cons r rs)
  let ?N = "num_blocks B C"
  obtain t c1 where turn: "link_turn r (fst (fill_window read B (\<lambda>_. None) (x_base x + W) x)) (client_at B C h) = (t, c1)"
    by (metis surj_pair)
  obtain out res where step: "data_turn read B W policy t x = (out, res)" by fastforce
  from link_round_safe [OF Cons.prems(1) assms(3,5) turn step] obtain h1 where h1: "c1 = client_at B C h1"
    "\<forall>n. res = Inl (Finished n) \<longrightarrow> h1 = ?N + 1" "\<forall>x1. res = Inr x1 \<longrightarrow> linked remaining valid B W C x1 h1" by blast
  have live: "x_retries x < rp_max_retries policy" "lr_now r < rp_deadline policy"
    using Cons.prems(3,6) assms(8) by auto
  from link_round_steady [OF Cons.prems(1,2) assms(3-5) live turn step]
  consider "res = Inl (Finished ?N)"
    | x1 where "res = Inr x1" "at_edge B W C x1" "x_base x < x_base x1" "x_retries x1 = 0"
    | x1 where "res = Inr x1" "at_edge B W C x1" "x_base x1 = x_base x" "x_retries x1 = Suc (x_retries x)"
        "good_round r \<longrightarrow> x_next x \<noteq> x_base x \<and> x_next x1 = x_base x1" by blast
  then show ?case
  proof cases
    case 1
    with h1 turn step show ?thesis by (auto intro: link_finishes_stop)
  next
    case (2 x1)
    with h1 have l1: "linked remaining valid B W C x1 h1" by simp
    then have N: "x_base x1 \<le> ?N" using xfer_inv_bounds(2) [of remaining valid B W C x1] by (auto simp: linked_def)
    have "?N - x_base x1 + 1 \<le> ?N - x_base x" using N 2(3) by linarith
    from mult_le_mono2 [OF this, of R] have "R * (?N - x_base x1) + R \<le> R * (?N - x_base x)"
      by (simp add: distrib_left)
    then have len: "R * (?N - x_base x1) + (R - x_retries x1) \<le> length rs" "R \<le> length rs"
      using Cons.prems(5,6) 2(4) by auto
    then have "adjacent_good (take (R - x_retries x1) rs)"
      using recoversD [OF recovers_Cons [OF Cons.prems(4)], of 0] 2(4) by simp
    with Cons.IH [OF l1 2(2) _ recovers_Cons [OF Cons.prems(4)] len(1)] Cons.prems(3,6) 2(4)
    have "link_finishes B W C policy rs h1 x1" by auto
    with turn step h1(1) 2(1) show ?thesis by (auto intro: link_finishes_step)
  next
    case (3 x1)
    with h1 have l1: "linked remaining valid B W C x1 h1" by simp
    from Cons.prems(7) have adj: "adjacent_good (take (R - x_retries x) (r # rs))" using 3(5) by auto
    obtain k where k: "R - x_retries x = Suc k" using Cons.prems(6) by (cases "R - x_retries x") auto
    then have k1: "R - x_retries x1 = k" using 3(4) by simp
    from adj k have rest: "good_round r \<and> rs \<noteq> [] \<and> good_round (hd rs) \<and> 0 < k \<or> adjacent_good (take k rs)"
      by (cases rs; cases k) auto
    have "0 < k"
      using rest by (cases k) auto
    then have "x_retries x1 < R" using k1 by simp
    moreover have "adjacent_good (take (R - x_retries x1) rs) \<or> x_next x1 = x_base x1 \<and> rs \<noteq> [] \<and> good_round (hd rs)"
      using rest 3(5) k1 by auto
    moreover have "R * (?N - x_base x1) + (R - x_retries x1) \<le> length rs"
      using Cons.prems(5) 3(3) k k1 by simp
    ultimately have "link_finishes B W C policy rs h1 x1"
      using Cons.IH [OF l1 3(2) _ recovers_Cons [OF Cons.prems(4)]] Cons.prems(3) by auto
    with turn step h1(1) 3(1) show ?thesis by (auto intro: link_finishes_step)
  qed
qed simp

end

section \<open>Properties\<close>

lemma start_linked:
  assumes "valid r" "remaining r = C" "0 < W"
  shows "linked remaining valid B W C (start_xfer r) 1 \<and> at_edge B W C (start_xfer r) \<and> client_at B C 1 = (1, [])"
proof -
  have "xfer_inv remaining valid B W C (start_xfer r)" by (rule start_xfer_inv) (use assms in auto)
  then show ?thesis
    using assms(3) by (simp add: linked_def at_edge_def client_at_def) (simp add: start_xfer_def)
qed


definition clean_round :: link_round where
  "clean_round = \<lparr>lr_now = 0, lr_lost = [], lr_ack_lost = False\<rparr>"

definition lossy_round :: link_round where
  "lossy_round = \<lparr>lr_now = 0, lr_lost = [0], lr_ack_lost = False\<rparr>"

lemma sample_ng: "ng_blksize (negotiate sample_request sz) = 512" "ng_windowsize (negotiate sample_request sz) = 1"
  "oack_turns (negotiate sample_request sz) t = []" "oack_packets (negotiate sample_request sz) = []" "is_octet sample_request"
  by (simp_all add: negotiate_def sample_request_def plain_request_def oack_turns_def oack_packets_def limit_defs
      is_octet_def eq_ignore_ascii_case_def)




text \<open>
  C16. Acknowledgements of the block before the window, which a client sends when the first
  block of a burst is lost, exhaust the retries without a single repetition: five of them
  end the transfer as failed although every block was sent only once and the deadline is
  far away.
\<close>

theorem stale_acks_abort:
  assumes "is_octet request" "None \<notin> set (fr_plan r)" "ng = negotiate request sz"
    and "N = num_blocks (ng_blksize ng) (fr_data r)" "t < now + int TRANSFER_DEADLINE"
    and "stale = \<lparr>t_send = \<lambda>_. None, t_now = t, t_recv = Recv (make_ack_packet 0)\<rparr>"
  shows "handle_tftp_transfer file_read (Inr r) (Inr sz) now (oack_turns ng t @ replicate 6 stale) request mac
    = (oack_packets ng @ map (block_packet (ng_blksize ng) (fr_data r)) [1..<min (ng_windowsize ng) N + 1],
       mark_tftp_failed mac ''timed out waiting for data ACK'', Some (Inl TimedOut))"
proof -
  have ranges: "0 < ng_blksize ng" "0 < ng_windowsize ng" "ng_windowsize ng < 65536"
    using negotiate_ranges [of request sz] by (simp_all add: assms(3) limit_defs)
  have policy: "t < rp_deadline (transfer_policy now)" "rp_max_retries (transfer_policy now) = Suc 4"
    using assms(5) by (simp_all add: transfer_policy_def MAX_RETRIES_def)
  have "replicate 6 stale = replicate (Suc 4) stale @ [stale]" by (simp add: numeral_eq_Suc)
  with steady.stale_from_start [OF assms(2) refl ranges assms(6) policy, of stale] assms(4,6)
  have "run_data file_read r ng (transfer_policy now) mac (replicate 6 stale)
    = (map (block_packet (ng_blksize ng) (fr_data r)) [1..<min (ng_windowsize ng) N + 1],
       mark_tftp_failed mac ''timed out waiting for data ACK'', Some (Inl TimedOut))"
    by (simp add: run_data_def)
  from handle_after_oack [OF assms(1,3,5) this] show ?thesis .
qed

lemma stale_acks_abort_witness:
  "handle_tftp_transfer file_read (Inr (whole_file [7])) (Inr 1) 0
      (replicate 6 \<lparr>t_send = \<lambda>_. None, t_now = 0, t_recv = Recv (make_ack_packet 0)\<rparr>) sample_request (Some ''m'')
   = ([make_data_packet 1 [7]], mark_tftp_failed (Some ''m'') ''timed out waiting for data ACK'', Some (Inl TimedOut))"
proof -
  have N: "(1 :: nat) = num_blocks (ng_blksize (negotiate sample_request 1)) (fr_data (whole_file [7]))"
    by (simp add: sample_ng [unfolded One_nat_def] num_blocks_def whole_file_def)
  have steady: "None \<notin> set (fr_plan (whole_file [7]))" by (simp add: whole_file_def)
  have early: "(0 :: int) < 0 + int TRANSFER_DEADLINE" by (simp add: TRANSFER_DEADLINE_def from_secs_def)
  have "block_packet 512 (fr_data (whole_file [7])) 1 = make_data_packet 1 [7]"
    by (simp add: block_packet_def file_block_def wire_of_def whole_file_def)
  with stale_acks_abort [OF sample_ng(5) steady refl N early refl, of "Some ''m''", unfolded sample_ng]
  show ?thesis by simp
qed

end
