(* ===== verification/Oled_Pages.thy ===== *)
theory Oled_Pages
  imports Oled_Run
begin

text \<open>
  What the metrics pages show, and the two entry points of
  \<^verbatim>\<open>crates/bootycall-oled/src/lib.rs\<close>: \<open>run_oled_manager\<close>, which runs the render loop on a
  thread of its own, and \<open>run_sim\<close>. A pass refreshes only the subsystem of the page it
  shows; the property says that this is enough: the page looks as if everything had been
  read anew.
\<close>

section \<open>Entry points\<close>

datatype oled_error = SpawnFailed io_error | ThreadPanicked | ShutdownJoin

text \<open>How joining the render thread ends.\<close>

datatype thread_end = Returned "oled_error + unit" | Panicked | JoinFailed

definition run_oled_manager :: "io_error option \<Rightarrow> thread_end \<Rightarrow> oled_error + unit" where
  "run_oled_manager spawned joined =
     (case spawned of
        Some e \<Rightarrow> Inl (SpawnFailed e)
      | None \<Rightarrow>
          (case joined of
             Returned inner \<Rightarrow> inner
           | Panicked \<Rightarrow> Inl ThreadPanicked
           | JoinFailed \<Rightarrow> Inl ShutdownJoin))"

text \<open>The simulator runs on a store of its own, which stays empty.\<close>

definition run_sim ::
  "io_error option \<Rightarrow> u8 \<Rightarrow> nat \<Rightarrow> bool \<Rightarrow> bool \<Rightarrow> bool \<Rightarrow> sys_view \<Rightarrow> int \<Rightarrow> tick_input list
   \<Rightarrow> (((nat \<times> bytes option) list \<times> bool) option) io" where
  "run_sim created brightness max_frames opens detect enable v now inputs =
     (case created of
        Some e \<Rightarrow> Inl e
      | None \<Rightarrow>
          (let state_store = new_store in
           Inr (sim_loop brightness max_frames (map (\<lambda>i. i\<lparr>ti_store := state_store\<rparr>) inputs) 0
                  (new_display opens detect enable brightness v now))))"

section \<open>A page is fresh\<close>

definition refreshed :: "page_spec \<Rightarrow> sys_view \<Rightarrow> system_metrics \<Rightarrow> system_metrics" where
  "refreshed page v sm = (case pg_refresh page of Some refresh \<Rightarrow> refresh v sm | None \<Rightarrow> sm)"

text \<open>The refresh callback of a page and its getter belong to the same subsystem.\<close>

lemma page_refresh_enough:
  assumes "page \<in> set PAGES"
  shows "pg_value page v (refreshed page v sm) = pg_value page v (new_metrics v)"
  using assms
  by (auto simp: PAGES_def refreshed_def new_metrics_def refresh_components_def refresh_cpu_def refresh_memory_def
      refresh_disks_def get_cpu_temp_def get_cpu_usage_def get_ram_usage_def get_disk_usage_def)

lemma poll_and_mode_fb:
  "di_fb (choose_mode timeout i d) = di_fb d" "di_fb (poll_ssh i d) = di_fb d" "di_fb (flip_page i d) = di_fb d"
  "di_fb (refresh_page i d) = di_fb d" "di_page (choose_mode timeout i d) = di_page d" "di_page (poll_ssh i d) = di_page d"
  "di_mode (flip_page i d) = di_mode d" "di_mode (refresh_page i d) = di_mode d" "di_page (refresh_page i d) = di_page d"
  by (auto simp: choose_mode_def poll_ssh_def flip_page_def refresh_page_def Let_def split: option.splits)

lemma refresh_page_metrics:
  "di_mode d = Metrics \<Longrightarrow> di_metrics (refresh_page i d) = refreshed (PAGES ! di_page d) (ti_refresh_view i) (di_metrics d)"
  by (simp add: refresh_page_def refreshed_def split: option.split)


text \<open>The first pass of the display on a machine without activity shows the host name.\<close>

lemma first_pass_mode:
  assumes "render_tick SCREENSAVER_TIMEOUT 255 (idle_input 40 0) (new_display False False False 255 bare_view 0) = Some d'"
  shows "di_mode d' = Metrics"
proof -
  have "di_mode (choose_mode SCREENSAVER_TIMEOUT (idle_input 40 0) (poll_ssh (idle_input 40 0) d)) = Metrics"
    if "di_mode d = Metrics" "di_last_activity d = 0" for d
    using that by (simp add: choose_mode_def poll_ssh_def idle_input_def since_def Let_def)
  with assms show ?thesis
    by (auto simp: render_tick_def Let_def draw_page_def set_rotation_def poll_and_mode_fb new_display_def)
qed


end
