(* ===== verification/Frame_Sink.thy ===== *)
theory Frame_Sink
  imports Oled_Pages
begin

text \<open>
  The trait \<open>FrameSink\<close> of \<^verbatim>\<open>crates/bootycall-oled/src/lib.rs\<close> with its two implementations,
  the render loop as it is written once for both, and the GPIO lines it requests. The locale
  states what the loop relies on in a sink; the property says that the runs of the production
  build and of the simulator, which \<open>Oled_Run\<close> describes one by one, are this one loop.
\<close>

section \<open>Devices\<close>

definition FB_PATH :: string where "FB_PATH = ''/dev/fb0''"
definition FB_SYSFS_DIR :: string where "FB_SYSFS_DIR = ''/sys/class/graphics/fb0''"
definition GPIOCHIP_PATH :: string where "GPIOCHIP_PATH = ''/dev/gpiochip0''"
definition TICK :: nat where "TICK = from_millis 1000"
definition SIM_TICK :: nat where "SIM_TICK = from_millis 100"

text \<open>A request for a GPIO line; whether it is granted is up to the chip.\<close>

datatype gpio_direction = AsInput | AsOutput bool

record gpio_request =
  gr_chip :: string
  gr_line :: nat
  gr_direction :: gpio_direction

definition request_detect_line :: "(gpio_request \<Rightarrow> bool) \<Rightarrow> bool" where
  "request_detect_line granted = granted \<lparr>gr_chip = GPIOCHIP_PATH, gr_line = 44, gr_direction = AsInput\<rparr>"

definition request_power_enable_line :: "(gpio_request \<Rightarrow> bool) \<Rightarrow> bool" where
  "request_power_enable_line granted = granted \<lparr>gr_chip = GPIOCHIP_PATH, gr_line = 46, gr_direction = AsOutput True\<rparr>"

section \<open>Sinks\<close>

text \<open>
  A sink with state \<open>'s\<close>: whether the loop should run, what it logs at the start, and one
  presentation, which meets \<open>'w\<close> from outside, may change the framebuffer, says whether the
  loop goes on and puts out \<open>'o\<close>; and the delay after a frame.
\<close>

record ('s, 'w, 'o) frame_sink =
  fs_should_run :: "'s \<Rightarrow> bool"
  fs_on_start :: "'s \<Rightarrow> start_log list"
  fs_present :: "'w \<Rightarrow> 's \<Rightarrow> framebuffer \<Rightarrow> 's \<times> framebuffer \<times> bool \<times> 'o"
  fs_tick :: nat

record panel_sink =
  pk_fb_available :: bool

definition new_panel_sink :: panel_sink where
  "new_panel_sink = \<lparr>pk_fb_available = True\<rparr>"

definition panel_frame_sink ::
  "(string \<Rightarrow> bool) \<Rightarrow> (string \<Rightarrow> fb_geometry option) \<Rightarrow>
   (panel_sink, bool \<times> io_error option, bytes option \<times> sink_log option) frame_sink" where
  "panel_frame_sink path_exists geometry =
     \<lparr>fs_should_run = (\<lambda>_. oled_hardware_present (path_exists FB_PATH) (path_exists GPIOCHIP_PATH)),
      fs_on_start = (\<lambda>_. on_start (geometry FB_SYSFS_DIR)),
      fs_present = (\<lambda>(opens, written) s fb.
        case panel_present opens written (pk_fb_available s) fb of
          (available, fb', out, line) \<Rightarrow> (\<lparr>pk_fb_available = available\<rparr>, fb', True, out, line)),
      fs_tick = TICK\<rparr>"

record sim_sink =
  sk_dir :: string
  sk_frame :: nat
  sk_max_frames :: nat

definition pad4 :: "nat \<Rightarrow> string" where
  "pad4 n = (let ds = dec_of_nat n in replicate (4 - length ds) (CHR ''0'') @ ds)"

definition frame_path :: "string \<Rightarrow> nat \<Rightarrow> string" where
  "frame_path dir frame = path_join dir (''frame_'' @ pad4 frame @ ''.png'')"

text \<open>The file each frame is written to; a failed write is logged and the loop goes on.\<close>

definition sim_frame_sink :: "(sim_sink, unit, (string \<times> bytes option) option) frame_sink" where
  "sim_frame_sink =
     \<lparr>fs_should_run = (\<lambda>_. True),
      fs_on_start = (\<lambda>_. []),
      fs_present = (\<lambda>_ s fb.
        case sim_present (sk_max_frames s) (sk_frame s) fb of
          (frame', go, out) \<Rightarrow>
            (s\<lparr>sk_frame := frame'\<rparr>, fb, go, map_option (\<lambda>(n, png). (frame_path (sk_dir s) n, png)) out)),
      fs_tick = SIM_TICK\<rparr>"

section \<open>The render loop\<close>

record 'w loop_pass =
  lp_input :: tick_input
  lp_world :: 'w
  lp_shutdown :: "(bool \<times> io_error option) option"

text \<open>How a run stands after the passes: still looping, stopped by its sink, or shut down with this last write.\<close>

datatype loop_end = Looping | SinkStopped | Blanked "bytes option"

record ('s, 'o) loop_run =
  lr_sink :: 's
  lr_display :: display
  lr_outputs :: "'o list"
  lr_end :: loop_end
  lr_slept :: nat

fun render_passes ::
  "('s, 'w, 'o) frame_sink \<Rightarrow> nat \<Rightarrow> u8 \<Rightarrow> 'w loop_pass list \<Rightarrow> 's \<Rightarrow> display \<Rightarrow> ('s, 'o) loop_run option" where
  "render_passes sink timeout brightness [] s d =
     Some \<lparr>lr_sink = s, lr_display = d, lr_outputs = [], lr_end = Looping, lr_slept = 0\<rparr>"
| "render_passes sink timeout brightness (p # rest) s d =
     (case render_tick timeout brightness (lp_input p) d of
        None \<Rightarrow> None
      | Some d1 \<Rightarrow>
          (case fs_present sink (lp_world p) s (di_fb d1) of
             (s', fb, go, out) \<Rightarrow>
               if \<not> go then
                 Some \<lparr>lr_sink = s', lr_display = d1\<lparr>di_fb := fb\<rparr>, lr_outputs = [out], lr_end = SinkStopped, lr_slept = 0\<rparr>
               else
                 (case lp_shutdown p of
                    Some (opens, written) \<Rightarrow>
                      (case blank_and_stop opens written fb of
                         (fb', _, blank) \<Rightarrow>
                           Some \<lparr>lr_sink = s', lr_display = d1\<lparr>di_fb := fb'\<rparr>, lr_outputs = [out], lr_end = Blanked blank, lr_slept = 0\<rparr>)
                  | None \<Rightarrow>
                      map_option (\<lambda>r. r\<lparr>lr_outputs := out # lr_outputs r, lr_slept := fs_tick sink + lr_slept r\<rparr>)
                        (render_passes sink timeout brightness rest s' (d1\<lparr>di_fb := fb\<rparr>)))))"

text \<open>
  The whole function: nothing at all, or the passes from the display set up with the two
  lines, the framebuffer and the metrics.
\<close>

definition render_loop ::
  "('s, 'w, 'o) frame_sink \<Rightarrow> nat \<Rightarrow> u8 \<Rightarrow> 's \<Rightarrow> (gpio_request \<Rightarrow> bool) \<Rightarrow> bool \<Rightarrow> sys_view \<Rightarrow> int \<Rightarrow> 'w loop_pass list
   \<Rightarrow> (start_log list \<times> ('s, 'o) loop_run) option option" where
  "render_loop sink timeout brightness s granted opens v now passes =
     (if \<not> fs_should_run sink s then Some None
      else map_option (\<lambda>r. Some (fs_on_start sink s, r))
             (render_passes sink timeout brightness passes s
                (new_display opens (request_detect_line granted) (request_power_enable_line granted) brightness v now)))"

section \<open>What the loop relies on\<close>

locale frame_sink_laws =
  fixes sink :: "('s, 'w, 'o) frame_sink" and fits :: "'o \<Rightarrow> bool"
  assumes present_keeps: "fb_wf fb \<Longrightarrow> fs_present sink world s fb = (s', fb', go, out) \<Longrightarrow> fb_wf fb' \<and> fits out"
begin

lemma passes_total:
  assumes "list_all (\<lambda>p. saver_fits w (lp_input p)) passes" "w \<le> 160" "display_inv w d"
  shows "\<exists>r. render_passes sink timeout brightness passes s d = Some r \<and> display_inv w (lr_display r)
    \<and> list_all fits (lr_outputs r) \<and> lr_slept r \<le> fs_tick sink * length passes"
  using assms(1,3)
proof (induction passes arbitrary: s d)
  case (Cons p passes)
  have "saver_fits w (lp_input p)" using Cons.prems(1) by simp
  then obtain d1 where d1: "render_tick timeout brightness (lp_input p) d = Some d1" "display_inv w d1"
    using render_tick_fits [OF Cons.prems(2) _ assms(2)] by blast
  obtain s' fb go out where pr: "fs_present sink (lp_world p) s (di_fb d1) = (s', fb, go, out)" by (metis prod_cases4)
  have fb: "fb_wf fb" "fits out" using present_keeps [OF _ pr] d1(2) by (auto simp: display_inv_def)
  then have inv: "display_inv w (d1\<lparr>di_fb := fb\<rparr>)" using d1(2) by (simp add: display_inv_def)
  show ?case
  proof (cases "lp_shutdown p")
    case None
    with Cons.IH [OF _ inv, of s'] Cons.prems(1) d1(1) pr fb inv show ?thesis by (cases go) auto
  next
    case (Some stop)
    obtain fb' r blank where b: "blank_and_stop (fst stop) (snd stop) fb = (fb', r, blank)" by (metis prod_cases3)
    from blank_and_stop_spec [OF fb(1) b] have "display_inv w (d1\<lparr>di_fb := fb'\<rparr>)" using d1(2) by (simp add: display_inv_def)
    with Some b d1(1) pr fb inv show ?thesis by (cases stop) (auto split: prod.split)
  qed
qed simp

end

text \<open>The panel puts out nothing or a whole frame, the simulator files of its directory.\<close>

interpretation panel: frame_sink_laws "panel_frame_sink path_exists geometry" "\<lambda>out. pred_option (\<lambda>bs. length bs = 19200) (fst out)"
  for path_exists geometry
proof
  fix fb world s s' fb' go out
  assume "fb_wf fb" "fs_present (panel_frame_sink path_exists geometry) world s fb = (s', fb', go, out)"
  then show "fb_wf fb' \<and> pred_option (\<lambda>bs. length bs = 19200) (fst out)"
    using panel_present_spec [of fb "fst world" "snd world" "pk_fb_available s"]
    by (auto simp: panel_frame_sink_def split: prod.splits)
qed

interpretation sim: frame_sink_laws sim_frame_sink "pred_option (\<lambda>f. shows_panel (snd f))"
proof
  fix fb world s s' fb' go out
  assume fb: "fb_wf fb" and pr: "fs_present sim_frame_sink world s fb = (s', fb', go, out)"
  have "shows_panel (encode_gray_png (fb_buffer fb) WIDTH HEIGHT)"
    using decode_frame [OF fb] fb by (simp add: shows_panel_def fb_wf_def WIDTH_def HEIGHT_def)
  with fb pr show "fb_wf fb' \<and> pred_option (\<lambda>f. shows_panel (snd f)) out"
    by (auto simp: sim_frame_sink_def sim_present_def split: if_splits)
qed

section \<open>Properties\<close>

text \<open>The two runs of \<open>Oled_Run\<close>, in terms of the loop.\<close>

definition as_panel_pass :: "(bool \<times> io_error option) loop_pass \<Rightarrow> panel_pass" where
  "as_panel_pass p =
     \<lparr>pp_input = lp_input p, pp_opens = fst (lp_world p), pp_written = snd (lp_world p), pp_shutdown = lp_shutdown p\<rparr>"

lemma as_panel_pass_simps [simp]:
  "pp_input (as_panel_pass p) = lp_input p" "pp_opens (as_panel_pass p) = fst (lp_world p)"
  "pp_written (as_panel_pass p) = snd (lp_world p)" "pp_shutdown (as_panel_pass p) = lp_shutdown p"
  by (simp_all add: as_panel_pass_def)

definition panel_writes :: "(panel_sink, bytes option \<times> sink_log option) loop_run \<Rightarrow> bytes option list" where
  "panel_writes r = map fst (lr_outputs r) @ (case lr_end r of Blanked blank \<Rightarrow> [blank] | _ \<Rightarrow> [])"

lemma panel_passes:
  "map_option (\<lambda>r. (lr_display r, panel_writes r))
     (render_passes (panel_frame_sink path_exists geometry) SCREENSAVER_TIMEOUT brightness passes s d)
   = panel_loop brightness (map as_panel_pass passes) (pk_fb_available s) d"
proof (induction passes arbitrary: s d)
  case (Cons p passes)
  show ?case
  proof (cases "render_tick SCREENSAVER_TIMEOUT brightness (lp_input p) d")
    case (Some d1)
    obtain available fb out line where
      pr: "panel_present (fst (lp_world p)) (snd (lp_world p)) (pk_fb_available s) (di_fb d1) = (available, fb, out, line)"
      by (metis prod_cases4)
    have pr': "fs_present (panel_frame_sink path_exists geometry) (lp_world p) s (di_fb d1)
        = (\<lparr>pk_fb_available = available\<rparr>, fb, True, out, line)"
      using pr by (cases "lp_world p") (simp add: panel_frame_sink_def)
    show ?thesis
    proof (cases "lp_shutdown p")
      case None
      have "map_option (map_prod id ((#) out)) (panel_loop brightness (map as_panel_pass passes) available (d1\<lparr>di_fb := fb\<rparr>))
          = map_option (\<lambda>r. (lr_display r, out # panel_writes r))
              (render_passes (panel_frame_sink path_exists geometry) SCREENSAVER_TIMEOUT brightness passes \<lparr>pk_fb_available = available\<rparr> (d1\<lparr>di_fb := fb\<rparr>))"
        using Cons.IH [of "\<lparr>pk_fb_available = available\<rparr>" "d1\<lparr>di_fb := fb\<rparr>", symmetric] by (simp add: option.map_comp comp_def)
      with None Some pr pr' show ?thesis
        by (simp add: option.map_comp comp_def panel_writes_def)
    next
      case stop: (Some stop)
      with Some pr pr' show ?thesis
        by (cases stop) (simp add: panel_writes_def split: prod.split)
    qed
  qed simp
qed (simp add: panel_writes_def)

text \<open>The frames of the simulator with their numbers, and the files they are written to.\<close>

definition as_file :: "string \<Rightarrow> nat \<times> bytes option \<Rightarrow> string \<times> bytes option" where
  "as_file dir f = (frame_path dir (fst f), snd f)"

lemma as_file_Pair [simp]: "as_file dir (n, png) = (frame_path dir n, png)"
  by (simp add: as_file_def)

definition sim_files :: "(sim_sink, (string \<times> bytes option) option) loop_run \<Rightarrow> (string \<times> bytes option) list" where
  "sim_files r = concat (map (\<lambda>out. case out of None \<Rightarrow> [] | Some f \<Rightarrow> [f]) (lr_outputs r))"

lemma sim_passes:
  "map_option (\<lambda>r. (sim_files r, lr_end r = SinkStopped))
     (render_passes sim_frame_sink SIM_SCREENSAVER_TIMEOUT brightness
        (map (\<lambda>i. \<lparr>lp_input = i, lp_world = (), lp_shutdown = None\<rparr>) inputs) s d)
   = map_option (map_prod (map (as_file (sk_dir s))) id) (sim_loop brightness (sk_max_frames s) inputs (sk_frame s) d)"
proof (induction inputs arbitrary: s d)
  case (Cons i inputs)
  show ?case
  proof (cases "render_tick SIM_SCREENSAVER_TIMEOUT brightness i d")
    case (Some d1)
    show ?thesis
    proof (cases "sk_frame s < sk_max_frames s")
      case True
      define png where "png = encode_gray_png (fb_buffer (di_fb d1)) WIDTH HEIGHT"
      have step: "fs_present sim_frame_sink () s (di_fb d1)
          = (s\<lparr>sk_frame := sk_frame s + 1\<rparr>, di_fb d1, True, Some (frame_path (sk_dir s) (sk_frame s), png))"
        using True by (simp add: sim_frame_sink_def sim_present_def png_def)
      have "map_option (map_prod (map (as_file (sk_dir s))) id) (sim_loop brightness (sk_max_frames s) inputs (sk_frame s + 1) d1)
          = map_option (\<lambda>r. (sim_files r, lr_end r = SinkStopped)) (render_passes sim_frame_sink SIM_SCREENSAVER_TIMEOUT brightness
              (map (\<lambda>i. \<lparr>lp_input = i, lp_world = (), lp_shutdown = None\<rparr>) inputs) (s\<lparr>sk_frame := sk_frame s + 1\<rparr>) d1)"
        using Cons.IH [of "s\<lparr>sk_frame := sk_frame s + 1\<rparr>" d1, symmetric] by (simp add: id_def)
      then show ?thesis
        using True Some step
        by (cases "sim_loop brightness (sk_max_frames s) inputs (Suc (sk_frame s)) d1")
          (auto simp: sim_present_def png_def [symmetric] sim_files_def option.map_comp comp_def map_option_case
            split: option.splits)
    next
      case False
      with Some show ?thesis by (simp add: sim_frame_sink_def sim_present_def sim_files_def)
    qed
  qed simp
qed (simp add: sim_files_def)

text \<open>No frame overwrites another.\<close>

lemma dec_value_zeros: "dec_value 0 (replicate k (CHR ''0'') @ s) = dec_value 0 s"
  by (induction k) (auto simp: is_ascii_digit_def)

lemma frame_path_inj: "frame_path dir m = frame_path dir n \<longleftrightarrow> m = n"
proof
  assume "frame_path dir m = frame_path dir n"
  then have "pad4 m = pad4 n" by (auto simp: frame_path_def path_join_def is_absolute_def split: if_splits)
  moreover have "dec_value 0 (pad4 k) = Some k" for k
    by (simp add: pad4_def Let_def dec_value_zeros dec_value_dec_of_nat)
  ultimately show "m = n" by (metis option.inject)
qed simp


end
