(* ===== verification/Oled_Examples.thy ===== *)
theory Oled_Examples
  imports Oled_Pages
begin

text \<open>
  The two example programs of the display (\<^verbatim>\<open>crates/bootycall-oled/examples\<close>): \<open>oled_render\<close>
  writes a sample of every page as a picture, \<open>oled_sim\<close> runs the render loop with the
  simulator's sink. The arguments are those after the program's name; what creating the
  directory and writing a file return is an input. \<open>None\<close> is a panic, which is shown not to
  happen.
\<close>

section \<open>Samples of the pages\<close>

definition samples :: "(string \<times> string) list" where
  "samples =
     [(''HOSTNAME'', ''bootycall''), (''IP ADDRESS'', ''192.168.1.100''), (''UPTIME'', ''3d 14h 22m''), (''CPU TEMP'', ''48.5C''),
      (''CPU USAGE'', ''12.0%''), (''RAM USAGE'', ''1.5G / 8.0G''), (''DISK USAGE'', ''18.5G / 50.0G''), (''KERNEL'', ''6.6.0''),
      (''GLYPHS'', ''ABCabc0123:.%/-'')]"

definition sample_file :: "string \<Rightarrow> string \<Rightarrow> string" where
  "sample_file out_dir label =
     out_dir @ ''/'' @ to_lowercase (map (\<lambda>c. if c = CHR '' '' then CHR ''_'' else c) label) @ ''.png''"

fun write_samples ::
  "fonts \<Rightarrow> (string \<Rightarrow> io_error option) \<Rightarrow> string \<Rightarrow> (string \<times> string) list \<Rightarrow> ((string \<times> bytes) list \<times> unit io) option" where
  "write_samples fs write out_dir [] = Some ([], Inr ())"
| "write_samples fs write out_dir ((label, val) # rest) =
     Option.bind (render_sample_to_gray fs label val) (\<lambda>gray.
       Option.bind (encode_gray_png gray WIDTH HEIGHT) (\<lambda>png.
         (let file = sample_file out_dir label in
          case write file of
            Some e \<Rightarrow> Some ([], Inl e)
          | None \<Rightarrow> map_option (map_prod ((#) (file, png)) id) (write_samples fs write out_dir rest))))"

definition oled_render ::
  "fonts \<Rightarrow> string list \<Rightarrow> (string \<Rightarrow> unit io) \<Rightarrow> (string \<Rightarrow> io_error option) \<Rightarrow> ((string \<times> bytes) list \<times> unit io) option" where
  "oled_render fs args create_dir_all write =
     (let out_dir = (case args of dir # _ \<Rightarrow> dir | [] \<Rightarrow> ''scratch/oled-baseline'') in
      case create_dir_all out_dir of
        Inl e \<Rightarrow> Some ([], Inl e)
      | Inr _ \<Rightarrow> write_samples fs write out_dir samples)"

section \<open>The simulation\<close>

definition oled_sim ::
  "string list \<Rightarrow> (string \<Rightarrow> io_error option) \<Rightarrow> bool \<Rightarrow> bool \<Rightarrow> bool \<Rightarrow> sys_view \<Rightarrow> int \<Rightarrow> tick_input list
   \<Rightarrow> (((nat \<times> bytes option) list \<times> bool) option) io" where
  "oled_sim args created opens detect enable v now inputs =
     (let out_dir = (case args of dir # _ \<Rightarrow> dir | [] \<Rightarrow> ''scratch/oled-sim'');
          frames = (case args of _ # n # _ \<Rightarrow> (case parse_uint (2 ^ 64) n of Some k \<Rightarrow> k | None \<Rightarrow> 120) | _ \<Rightarrow> 120)
      in run_sim (created out_dir) FULL_BRIGHTNESS frames opens detect enable v now inputs)"

section \<open>Every sample becomes a file of its own\<close>

lemma sample_encoded:
  obtains gray png where "render_sample_to_gray fs label val = Some gray" "encode_gray_png gray WIDTH HEIGHT = Some png"
proof -
  have "fb_wf (clear (new_framebuffer False))" by (simp add: fb_wf_def new_framebuffer_def with_brightness_def clear_def)
  then obtain fb where "draw_metrics_page fs label val (Some ICON_HOST) 0 (clear (new_framebuffer False)) = Some fb" "fb_wf fb"
    using draw_metrics_page_total by blast
  then have "render_sample_to_gray fs label val = Some (fb_buffer fb)" "length (fb_buffer fb) = WIDTH * HEIGHT"
    by (simp_all add: render_sample_to_gray_def fb_wf_def)
  moreover have "WIDTH \<noteq> 0" by (simp add: WIDTH_def)
  ultimately show thesis using that by (simp add: encode_gray_png_def Let_def)
qed

lemma write_samples_files:
  "\<exists>files res. write_samples fs write out_dir ss = Some (files, res) \<and> prefix (map fst files) (map (\<lambda>s. sample_file out_dir (fst s)) ss)
    \<and> (res = Inr () \<longleftrightarrow> length files = length ss) \<and> (res = Inr () \<longleftrightarrow> list_all (\<lambda>s. write (sample_file out_dir (fst s)) = None) ss)"
proof (induction ss)
  case (Cons s ss)
  obtain label val where s: "s = (label, val)" by (cases s)
  obtain gray png where "render_sample_to_gray fs label val = Some gray" "encode_gray_png gray WIDTH HEIGHT = Some png"
    by (rule sample_encoded)
  moreover obtain files res where "write_samples fs write out_dir ss = Some (files, res)"
    "prefix (map fst files) (map (\<lambda>s. sample_file out_dir (fst s)) ss)" "res = Inr () \<longleftrightarrow> length files = length ss"
    "res = Inr () \<longleftrightarrow> list_all (\<lambda>s. write (sample_file out_dir (fst s)) = None) ss"
    using Cons.IH by blast
  ultimately show ?case by (cases "write (sample_file out_dir label)") (auto simp: s Let_def)
qed simp

lemma sample_files_distinct: "distinct (map (\<lambda>s. sample_file out_dir (fst s)) samples)"
proof -
  let ?names = "map (\<lambda>s. map ascii_lower (map (\<lambda>c. if c = CHR '' '' then CHR ''_'' else c) (fst s))) samples"
  have plain: "list_all (\<lambda>s. CHR 0xE2 \<notin> set (map (\<lambda>c. if c = CHR '' '' then CHR ''_'' else c) (fst s))) samples" by code_simp
  have "sample_file out_dir (fst s) = out_dir @ ''/'' @ map ascii_lower (map (\<lambda>c. if c = CHR '' '' then CHR ''_'' else c) (fst s)) @ ''.png''"
    if "s \<in> set samples" for s
  proof -
    from plain that have "CHR 0xE2 \<notin> set (map (\<lambda>c. if c = CHR '' '' then CHR ''_'' else c) (fst s))"
      unfolding list_all_iff by (rule bspec)
    then show ?thesis unfolding sample_file_def by (simp only: to_lowercase_plain simp_thms)
  qed
  then have "map (\<lambda>s. sample_file out_dir (fst s)) samples = map (\<lambda>n. out_dir @ ''/'' @ n @ ''.png'') ?names"
    unfolding map_map comp_def by (intro map_cong refl) simp
  moreover have "distinct ?names" by code_simp
  ultimately show ?thesis by (simp add: distinct_map inj_on_def del: map_map)
qed

lemma oled_render_files:
  assumes "create_dir_all dir = Inr ()" "\<And>label. write (sample_file dir label) = None"
  shows "\<exists>files. oled_render fs [dir] create_dir_all write = Some (files, Inr ())
    \<and> map fst files = map (\<lambda>s. sample_file dir (fst s)) samples \<and> distinct (map fst files)"
proof -
  obtain files res where run: "write_samples fs write dir samples = Some (files, res)"
    "prefix (map fst files) (map (\<lambda>s. sample_file dir (fst s)) samples)" "res = Inr () \<longleftrightarrow> length files = length samples" "res = Inr ()"
    using write_samples_files [of fs "write" dir samples] assms(2) by (auto simp: list_all_iff)
  then have "map fst files = map (\<lambda>s. sample_file dir (fst s)) samples"
    by (metis length_map not_equal_is_parallel parallelE)
  with run(1,4) assms(1) sample_files_distinct [of dir] show ?thesis by (simp add: oled_render_def)
qed

end
