(* ===== verification/Boot_Chain.thy ===== *)
theory Boot_Chain
  imports Http_Contract
begin

text \<open>
  The whole way of a boot: the artifacts that \<open>sync_host_cache\<close> extracts, the boot script the
  poll endpoint renders from \<open>BOOT_TEMPLATE\<close> of \<^verbatim>\<open>crates/bootycall-http/src/server.rs\<close>, and the
  cache endpoint that serves what the script asks for. The template engine is third-party
  code; \<open>boot_script\<close> is what it makes of this template by its documentation, and the
  property assumes it does.
\<close>

section \<open>The boot script\<close>

text \<open>
  A value is inserted where its name stands, the text between the tags stays as it is, an
  empty or missing \<open>target_of\<close> is false, and the newline at the end of a template is dropped.
\<close>

definition boot_script :: "boot_context \<Rightarrow> string" where
  "boot_script c =
     ''#!ipxe'' @ nl
     @ (case bc_target_of c of
          Some (t # ts) \<Rightarrow> ''echo Booting target '' @ bc_name c @ '' for host '' @ (t # ts) @ ''...'' @ nl
        | _ \<Rightarrow> ''echo Booting '' @ bc_name c @ ''...'' @ nl)
     @ ''kernel http://'' @ bc_server_ip_port c @ ''/cache/'' @ bc_mac c @ ''/kernel '' @ bc_cmdline c @ nl
     @ ''initrd http://'' @ bc_server_ip_port c @ ''/cache/'' @ bc_mac c @ ''/initrd'' @ nl
     @ ''boot''"

lemma boot_script_lines:
  "sublist (''kernel http://'' @ bc_server_ip_port c @ ''/cache/'' @ bc_mac c @ ''/kernel '' @ bc_cmdline c @ nl) (boot_script c)
   \<and> sublist (''initrd http://'' @ bc_server_ip_port c @ ''/cache/'' @ bc_mac c @ ''/initrd'' @ nl) (boot_script c)"
proof -
  define pre where "pre = ''#!ipxe'' @ nl
     @ (case bc_target_of c of
          Some (t # ts) \<Rightarrow> ''echo Booting target '' @ bc_name c @ '' for host '' @ (t # ts) @ ''...'' @ nl
        | _ \<Rightarrow> ''echo Booting '' @ bc_name c @ ''...'' @ nl)"
  define k where "k = ''kernel http://'' @ bc_server_ip_port c @ ''/cache/'' @ bc_mac c @ ''/kernel '' @ bc_cmdline c @ nl"
  define i where "i = ''initrd http://'' @ bc_server_ip_port c @ ''/cache/'' @ bc_mac c @ ''/initrd'' @ nl"
  have "boot_script c = pre @ k @ i @ ''boot''" by (simp add: boot_script_def pre_def k_def i_def)
  moreover have "sublist k (pre @ k @ i @ ''boot'')" by (metis sublist_appendI)
  moreover have "sublist i (pre @ k @ i @ ''boot'')" by (metis append.assoc sublist_appendI)
  ultimately show ?thesis by (simp add: k_def i_def)
qed

section \<open>Resolving a file below a directory\<close>

text \<open>A walk goes on from where its first part ends, with the links it has left; a trailing separator adds nothing.\<close>

lemma walk_append:
  "walk fs n cur xs = Some c \<Longrightarrow> (\<And>k. walk fs k c ys = Some d) \<Longrightarrow> walk fs n cur (xs @ ys) = Some d"
proof (induction fs n cur xs rule: walk.induct)
  case (2 fs n cur seg rest)
  then show ?case by (auto split: if_splits option.splits node.splits nat.splits) fastforce+
qed simp

lemma walk_trailing: "walk fs n cur (xs @ [[]]) = Some c \<Longrightarrow> walk fs n cur xs = Some c"
proof (induction fs n cur xs rule: walk.induct)
  case (2 fs n cur seg rest)
  then show ?case by (auto split: if_splits option.splits node.splits nat.splits) fastforce+
qed (auto split: if_splits)

lemma split_on_join: "split_on d (a @ d # b) = split_on d a @ split_on d b"
  by (induction a) (auto split: list.splits)

lemma plain_not_absolute: "plain_name m \<Longrightarrow> \<not> is_absolute (m @ s)"
  by (cases m) (auto simp: is_absolute_def plain_name_def)

lemma split_on_two: "plain_name m \<Longrightarrow> plain_name f \<Longrightarrow> split_on (CHR ''/'') (m @ ''/'' @ f) = [m, f]"
  by (simp add: plain_name_def split_on_append split_on_whole)

lemma resolve_below:
  assumes "resolve_path fs cwd p = Some c" "fs c = Some Directory" "plain_name m" "plain_name f"
    and "fs (c @ [m]) = Some Directory" "fs (c @ [m, f]) = Some (Regular bs)"
  shows "resolve_path fs cwd (path_join p (m @ ''/'' @ f)) = Some (c @ [m, f])"
proof -
  let ?q = "m @ ''/'' @ f"
  have q: "\<not> is_absolute ?q" "split_on (CHR ''/'') ?q = [m, f]" "CHR 0x00 \<notin> set ?q"
    using plain_not_absolute [OF assms(3)] split_on_two [OF assms(3,4)] assms(3,4) by (blast, blast, simp add: plain_name_def)
  have p: "p \<noteq> []" "CHR 0x00 \<notin> set p"
    and walk: "walk fs MAX_SYMLINKS (if is_absolute p then [] else cwd) (split_on (CHR ''/'') p) = Some c"
    using assms(1) by (auto simp: resolve_path_def split: if_splits)
  have tail: "walk fs k c [m, f] = Some (c @ [m, f])" for k
    using assms(2-6) by (simp add: plain_name_def)
  have "\<exists>a. path_join p ?q = a @ CHR ''/'' # ?q \<and> walk fs MAX_SYMLINKS (if is_absolute p then [] else cwd) (split_on (CHR ''/'') a) = Some c"
  proof (cases "last p = CHR ''/''")
    case True
    then have a: "p = butlast p @ [CHR ''/'']" using append_butlast_last_id [OF p(1)] by simp
    define a where "a = butlast p"
    have a: "p = a @ [CHR ''/'']" using a by (simp add: a_def)
    have "split_on (CHR ''/'') p = split_on (CHR ''/'') a @ [[]]" unfolding a split_on_join by simp
    with walk have "walk fs MAX_SYMLINKS (if is_absolute p then [] else cwd) (split_on (CHR ''/'') a @ [[]]) = Some c" by simp
    from walk_trailing [OF this] have "walk fs MAX_SYMLINKS (if is_absolute p then [] else cwd) (split_on (CHR ''/'') a) = Some c" .
    with a q(1) show ?thesis by (auto simp: path_join_def)
  next
    case False
    with walk p(1) q(1) show ?thesis by (auto simp: path_join_def)
  qed
  then obtain a where a: "path_join p ?q = a @ CHR ''/'' # ?q"
    "walk fs MAX_SYMLINKS (if is_absolute p then [] else cwd) (split_on (CHR ''/'') a) = Some c" by blast
  have "walk fs MAX_SYMLINKS (if is_absolute p then [] else cwd) (split_on (CHR ''/'') (path_join p ?q)) = Some (c @ [m, f])"
    unfolding a(1) split_on_join q(2) by (rule walk_append [OF a(2) tail])
  moreover have "is_absolute (path_join p ?q) = is_absolute p" "CHR 0x00 \<notin> set (path_join p ?q)" "path_join p ?q \<noteq> []"
    using p q(1,3) by (auto simp: path_join_def is_absolute_def)
  ultimately show ?thesis by (simp add: resolve_path_def)
qed

lemma resolve_in_below:
  "resolve_in v p = Some c \<Longrightarrow> node_at v c = Some Directory \<Longrightarrow> plain_name m \<Longrightarrow> plain_name f \<Longrightarrow>
   node_at v (c @ [m]) = Some Directory \<Longrightarrow> node_at v (c @ [m, f]) = Some (Regular bs) \<Longrightarrow>
   resolve_in v (path_join p (m @ ''/'' @ f)) = Some (c @ [m, f])"
  unfolding resolve_in.rep_eq node_at.rep_eq split_beta by (rule resolve_below)

text \<open>A regular file in a directory of the root is joined and served.\<close>

lemma serve_below:
  assumes "resolve_in v dir = Some c" "node_at v c = Some Directory" "plain_name m" "plain_name f"
    and "CHR 0x5C \<notin> set m" "CHR 0x5C \<notin> set f"
    and "node_at v (c @ [m]) = Some Directory" "node_at v (c @ [m, f]) = Some (Regular bs)" "opens (c @ [m, f])"
  shows "serve_file_from_dir v opens dir (m @ ''/'' @ f) =
    \<lparr>rs_status = 200, rs_content_type = Some (content_type_for (m @ ''/'' @ f)), rs_location = None, rs_body = FileStream (c @ [m, f])\<rparr>"
proof -
  let ?q = "m @ ''/'' @ f"
  have same: "replace_char (CHR 0x5C) (CHR ''/'') ?q = ?q"
    using assms(5,6) unfolding replace_char_def by (intro map_idI) auto
  have "split_on (CHR ''/'') ?q = [m, f]" "\<not> is_absolute ?q"
    using split_on_two [OF assms(3,4)] plain_not_absolute [OF assms(3)] by blast+
  then have free: "list_all allowed_component (components ?q)"
    using assms(3,4) by (auto simp: components_def body_segments_def component_of_def allowed_component_def plain_name_def)
  note r = resolve_in_below [OF assms(1-4,7,8)]
  have "safe_join (resolve_in v) dir ?q = Some (path_of (c @ [m, f]))"
    unfolding safe_join_def Let_def same using free assms(1) r by simp
  moreover have "resolve_in v (path_of (c @ [m, f])) = Some (c @ [m, f])" using r by (rule kernel.resolve_canonical)
  ultimately show ?thesis using assms(8,9) by (simp add: serve_file_from_dir_def)
qed

section \<open>The cache on the disk\<close>

text \<open>The file system shows a host's cache in the directory of its MAC below the canonical cache directory.\<close>

definition cache_on_disk :: "process_fs \<Rightarrow> cpath \<Rightarrow> string \<Rightarrow> host_cache \<Rightarrow> bool" where
  "cache_on_disk v root mac c \<longleftrightarrow>
     node_at v root = Some Directory \<and> node_at v (root @ [mac]) = Some Directory
     \<and> node_at v (root @ [mac, ''kernel'']) = map_option Regular (ar_kernel (ca_files c))
     \<and> node_at v (root @ [mac, ''initrd'']) = map_option Regular (ar_initrd (ca_files c))"

text \<open>The request for a path below \<^verbatim>\<open>/cache\<close> is answered with these bytes, whoever asks and whatever the store holds.\<close>

definition cache_serves :: "http_env \<Rightarrow> config \<Rightarrow> string \<Rightarrow> bytes \<Rightarrow> bool" where
  "cache_serves env config path content \<longleftrightarrow> (\<forall>st headers addr. \<exists>resp loc.
     http_handle env config st headers addr (GetCache path) = (resp, []) \<and> rs_status resp = 200
     \<and> rs_body resp = FileStream loc \<and> node_at (he_fs env) loc = Some (Regular content))"

lemma valid_mac_name:
  assumes "is_valid_mac m"
  shows "plain_name m" "CHR 0x5C \<notin> set m"
proof -
  have hex: "\<not> lower_hex (CHR ''/'')" "\<not> lower_hex (CHR 0x00)" "\<not> lower_hex (CHR 0x5C)"
    by (simp_all add: lower_hex_def is_ascii_hexdigit_def is_ascii_digit_def)
  have "CHR ''/'' \<notin> set m \<and> CHR 0x00 \<notin> set m \<and> CHR 0x5C \<notin> set m \<and> length m = 17"
    using assms hex by (auto simp: is_valid_mac_chars)
  then show "plain_name m" "CHR 0x5C \<notin> set m" by (auto simp: plain_name_def)
qed

lemma cached_file_served:
  assumes "resolve_in (he_fs env) (sc_cache_dir (cf_server config)) = Some root" "node_at (he_fs env) root = Some Directory"
    and "is_valid_mac m" "f \<in> {''kernel'', ''initrd''}" "node_at (he_fs env) (root @ [m]) = Some Directory"
    and "node_at (he_fs env) (root @ [m, f]) = Some (Regular bs)" "he_opens env (root @ [m, f])"
  shows "cache_serves env config (m @ ''/'' @ f) bs"
proof -
  have f: "plain_name f" "CHR 0x5C \<notin> set f" using assms(4) by (auto simp: plain_name_def)
  have "serve_file_from_dir (he_fs env) (he_opens env) (sc_cache_dir (cf_server config)) (m @ ''/'' @ f) =
      \<lparr>rs_status = 200, rs_content_type = Some (content_type_for (m @ ''/'' @ f)), rs_location = None, rs_body = FileStream (root @ [m, f])\<rparr>"
    by (rule serve_below) (use assms f valid_mac_name [OF assms(3)] in auto)
  with assms(6) show ?thesis by (simp add: cache_serves_def http_handle_def serve_cache_file_def)
qed

lemma synced_artifacts:
  assumes "sync_host_cache file_read to_json from_json senv host mb c = Some (c', Inr ())"
  shows "ar_kernel (ca_files c') \<noteq> None \<and> ar_initrd (ca_files c') \<noteq> None"
  using assms
proof (cases rule: sync_host_cache_cases)
  case (hit stamp)
  then show ?thesis by (auto simp: cache_valid_def split: option.splits sum.splits if_splits)
next
  case (extracted stamp c2 a)
  then show ?thesis by (auto simp: write_metadata_def split: prod.splits sum.splits)
qed auto

section \<open>Properties\<close>

text \<open>
  C8. A configured host whose cache was synchronised can boot: a poll under any spelling of
  its MAC is answered with a script that names the kernel, with the configured command line,
  and the initrd by their addresses on this server, and requests for these two addresses are
  answered with the bytes the synchronisation left, as long as the cache directory shows them.
\<close>

theorem synced_host_boots:
  assumes "load_config parse_yaml content = Inr config" "h \<in> set (cf_hosts config)" "normalize_mac mac = hc_mac h"
    and "sync_host_cache file_read to_json from_json senv h mb c = Some (c', Inr ())"
    and "he_boot env = Some (\<lambda>bc. Some (boot_script bc))"
    and "resolve_in (he_fs env) (sc_cache_dir (cf_server config)) = Some root"
    and "cache_on_disk (he_fs env) root (hc_mac h) c'" "\<And>p. he_opens env p"
  shows "\<exists>script ops kernel_bytes initrd_bytes. http_handle env config st headers addr (GetPoll mac) = (plain_text 200 script, ops)
    \<and> sublist (''kernel http://'' @ host_header headers @ ''/cache/'' @ hc_mac h @ ''/kernel ''
        @ (case hc_cmdline h of Some cmdline \<Rightarrow> cmdline | None \<Rightarrow> []) @ nl) script
    \<and> sublist (''initrd http://'' @ host_header headers @ ''/cache/'' @ hc_mac h @ ''/initrd'' @ nl) script
    \<and> ar_kernel (ca_files c') = Some kernel_bytes \<and> cache_serves env config (hc_mac h @ ''/kernel'') kernel_bytes
    \<and> ar_initrd (ca_files c') = Some initrd_bytes \<and> cache_serves env config (hc_mac h @ ''/initrd'') initrd_bytes"
proof -
  have valid: "valid_config config" using assms(1) by (rule load_config_valid)
  then have mac: "is_valid_mac (hc_mac h)" using assms(2) by (auto simp: valid_config_def)
  have found: "find_host config (hc_mac h) = Some h"
    using valid assms(2) by (intro find_host_unique) (simp_all add: normalize_valid_mac [OF mac])
  obtain k i where art: "ar_kernel (ca_files c') = Some k" "ar_initrd (ca_files c') = Some i"
    using synced_artifacts [OF assms(4)] by auto
  with assms(7) have disk: "node_at (he_fs env) root = Some Directory" "node_at (he_fs env) (root @ [hc_mac h]) = Some Directory"
    "node_at (he_fs env) (root @ [hc_mac h, ''kernel'']) = Some (Regular k)"
    "node_at (he_fs env) (root @ [hc_mac h, ''initrd'']) = Some (Regular i)"
    by (simp_all add: cache_on_disk_def)
  define bc where "bc = boot_context_for h (host_header headers) None"
  have "http_handle env config st headers addr (GetPoll mac) = (plain_text 200 (boot_script bc),
      snd (http_handle env config st headers addr (GetPoll mac)))"
    using assms(3,5) mac found
    by (simp add: http_handle_def poll_handler_def decide_poll_outcome_def boot_outcome_def bc_def Let_def)
  moreover have "cache_serves env config (hc_mac h @ ''/'' @ ''kernel'') k"
    by (rule cached_file_served [OF assms(6) disk(1) mac _ disk(2,3) assms(8)]) simp
  moreover have "cache_serves env config (hc_mac h @ ''/'' @ ''initrd'') i"
    by (rule cached_file_served [OF assms(6) disk(1) mac _ disk(2,4) assms(8)]) simp
  ultimately show ?thesis
    using boot_script_lines [of bc] art by (auto simp: bc_def boot_context_for_def intro!: exI)
qed

text \<open>The sample host, synchronised, on a disk where its cache directory is a link.\<close>

definition boot_mac :: string where "boot_mac = ''52:54:00:ab:cd:01''"

definition boot_fs :: fs where
  "boot_fs = map_of
     [([], Directory), ([''var''], Directory), ([''var'', ''cache''], Symlink ''/data''), ([''data''], Directory),
      ([''data'', boot_mac], Directory), ([''data'', boot_mac, ''kernel''], Regular [10]),
      ([''data'', boot_mac, ''initrd''], Regular [11])]"

lemma boot_fs_wf: "wf_fs boot_fs"
  by (auto simp: wf_fs_def boot_fs_def boot_mac_def plain_name_def map_of_eq_None_iff split: if_splits)

lift_definition boot_view :: process_fs is "(boot_fs, [])"
  using boot_fs_wf real_root by auto

definition boot_env :: http_env where
  "boot_env = sample_http\<lparr>he_fs := boot_view, he_boot := Some (\<lambda>bc. Some (boot_script bc))\<rparr>"

lemma sync_ignores_mac:
  "sync_host_cache read to_json from_json env (h\<lparr>hc_mac := m\<rparr>) mb c = sync_host_cache read to_json from_json env h mb c"
proof -
  have eqs: "cache_valid from_json e (h\<lparr>hc_mac := m\<rparr>) = cache_valid from_json e h"
      "current_key (h\<lparr>hc_mac := m\<rparr>) = current_key h" "extract_any read env (h\<lparr>hc_mac := m\<rparr>) = extract_any read env h" for e
    by (intro ext; simp add: cache_valid_def current_key_def extract_any_def split: option.split sum.split)+
  show ?thesis unfolding sync_host_cache_def eqs by simp
qed

lemma synced_host_boots_witness:
  "\<exists>script ops. http_handle boot_env sample_config new_store token_headers (SocketAddr (V4 [10, 0, 0, 9]) 99)
      (GetPoll '' 52-54-00-ab-CD-01 '') = (plain_text 200 script, ops)
    \<and> sublist (''initrd http://localhost:8080/cache/52:54:00:ab:cd:01/initrd'' @ nl) script
    \<and> cache_serves boot_env sample_config (boot_mac @ ''/kernel'') [10]"
proof -
  define h where "h = sample_host\<lparr>hc_mac := boot_mac\<rparr>"
  have mac: "normalize_mac '' 52-54-00-ab-CD-01 '' = hc_mac h" unfolding h_def boot_mac_def by code_simp
  have h: "h \<in> set (cf_hosts sample_config)" by (simp add: sample_hosts h_def boot_mac_def)
  have sync: "sync_host_cache file_read sample_write_json sample_from_json sample_env h (Some 100) empty_cache
      = Some (synced_cache, Inr ())" unfolding h_def sync_ignores_mac by (rule sample_sync)
  have tmpl: "he_boot boot_env = Some (\<lambda>bc. Some (boot_script bc))" "he_fs boot_env = boot_view" "\<And>p. he_opens boot_env p"
    by (simp_all add: boot_env_def sample_http_def)
  have "sc_cache_dir (cf_server sample_config) = ''/var/cache''"
    by (simp add: sample_config_def normalize_hosts_def fill_defaults_def sample_yaml_def)
  moreover have "resolve_path boot_fs [] ''/var/cache'' = Some [''data'']" by code_simp
  ultimately have root: "resolve_in (he_fs boot_env) (sc_cache_dir (cf_server sample_config)) = Some [''data'']"
    by (simp add: tmpl resolve_in.rep_eq boot_view.rep_eq)
  have "cache_on_disk (he_fs boot_env) [''data''] (hc_mac h) synced_cache"
    by (simp add: cache_on_disk_def tmpl node_at.rep_eq boot_view.rep_eq boot_fs_def boot_mac_def h_def synced_cache_def)
  from synced_host_boots [OF sample_load h mac sync tmpl(1) root this tmpl(3), of new_store token_headers
      "SocketAddr (V4 [10, 0, 0, 9]) 99"]
  show ?thesis
    by (auto simp: h_def boot_mac_def host_header_def token_headers_def synced_cache_def)
qed

end
