(* ===== verification/Servers.thy ===== *)
theory Servers
  imports Dhcp Http_Contract
begin

text \<open>
  How the DHCP and HTTP servers run: \<open>run_dhcp_server\<close> of \<^verbatim>\<open>crates/bootycall-dhcp/src/server.rs\<close>
  with its receive loop, and \<open>run_http_server\<close> of \<^verbatim>\<open>crates/bootycall-http/src/server.rs\<close> with
  what can stop it before it serves. The property gives the responses of the HTTP server
  a type: which status, headers and body go together.
\<close>

section \<open>The DHCP server\<close>

text \<open>One receive: it fails, or delivers a datagram while some configuration is installed.\<close>

datatype dhcp_receive = ReceiveFailed | Received config bytes sock_addr

fun dhcp_loop ::
  "(config \<Rightarrow> bytes \<Rightarrow> sock_addr \<Rightarrow> 'out) \<Rightarrow> dhcp_receive list \<Rightarrow> 'out list" where
  "dhcp_loop handle [] = []"
| "dhcp_loop handle (ReceiveFailed # rs) = dhcp_loop handle rs"
| "dhcp_loop handle (Received config packet src_addr # rs) = handle config packet src_addr # dhcp_loop handle rs"

definition run_dhcp_server ::
  "unit io \<Rightarrow> unit io \<Rightarrow> (config \<Rightarrow> bytes \<Rightarrow> sock_addr \<Rightarrow> 'out) \<Rightarrow> dhcp_receive list \<Rightarrow> 'out list io" where
  "run_dhcp_server bound broadcast handle rs =
     (case bound of
        Inl e \<Rightarrow> Inl e
      | Inr _ \<Rightarrow>
          (case broadcast of
             Inl e \<Rightarrow> Inl e
           | Inr _ \<Rightarrow> Inr (dhcp_loop handle rs)))"

section \<open>The HTTP server\<close>

text \<open>
  What the engine compiles a template source to, for each of the two kinds of values the
  code renders, or its refusal; the listener, and how serving ends.
\<close>

record template_engine =
  te_menu :: "string \<Rightarrow> (string \<Rightarrow> host_config list \<Rightarrow> string option) option"
  te_boot :: "string \<Rightarrow> (boot_context \<Rightarrow> string option) option"

definition run_http_server ::
  "template_engine \<Rightarrow> unit io \<Rightarrow> unit io \<Rightarrow> http_env \<Rightarrow> http_env option \<times> unit io" where
  "run_http_server engine bound served env =
     (case te_menu engine MENU_TEMPLATE of
        None \<Rightarrow> (None, Inl InvalidData)
      | Some menu \<Rightarrow>
          (case te_boot engine BOOT_TEMPLATE of
             None \<Rightarrow> (None, Inl InvalidData)
           | Some boot \<Rightarrow>
               (case bound of
                  Inl e \<Rightarrow> (None, Inl e)
                | Inr _ \<Rightarrow> (Some (env\<lparr>he_boot := Some boot, he_menu := Some menu\<rparr>), served))))"

section \<open>The types of the responses\<close>

text \<open>The status and headers that go with a body, for every response the handlers make.\<close>

definition well_typed :: "response \<Rightarrow> bool" where
  "well_typed r =
     (case rs_body r of
        NoBody \<Rightarrow>
          rs_content_type r = None
          \<and> (if rs_status r = 303 then rs_location r = Some ''/ui/index.html''
             else rs_location r = None \<and> rs_status r \<in> {400, 401, 403, 404, 500})
      | Text t \<Rightarrow>
          rs_location r = None
          \<and> (if rs_content_type r = Some ''text/plain'' then rs_status r = 200 \<or> rs_status r = 500 \<and> prefix (''#!ipxe'' @ nl) t
             else rs_content_type r = Some ''text/plain; charset=utf-8'' \<and> rs_status r \<in> {400, 500})
      | Bytes _ \<Rightarrow> rs_location r = None \<and> rs_content_type r \<noteq> None \<and> rs_status r = 200
      | FileStream _ \<Rightarrow> rs_location r = None \<and> rs_content_type r \<noteq> None \<and> rs_status r = 200
      | HealthJson status n not_ready \<Rightarrow>
          rs_location r = None \<and> rs_content_type r = Some ''application/json'' \<and> length not_ready \<le> n
          \<and> (rs_status r, status) = (if not_ready = [] then (200, ''healthy'') else (503, ''degraded''))
      | _ \<Rightarrow> rs_location r = None \<and> rs_content_type r = Some ''application/json'' \<and> rs_status r = 200)"

lemmas response_defs = status_only_def plain_text_def utf8_text_def json_def root_redirect_def

lemma well_typed_simple [simp]:
  "code \<in> {400, 401, 403, 404, 500} \<Longrightarrow> well_typed (status_only code)" "well_typed (plain_text 200 t)" "well_typed root_redirect"
  "code \<in> {400, 500} \<Longrightarrow> well_typed (utf8_text code t)"
  "well_typed (json 200 (StatusJson hs cs))" "well_typed (json 200 (LogsJson ls))" "well_typed (json 200 OkJson)"
  by (auto simp: well_typed_def response_defs)

lemma well_typed_served: "well_typed (serve_file_from_dir v opens dir path)"
  by (auto simp: serve_file_from_dir_def well_typed_def status_only_def split: option.split node.split)

lemma well_typed_asset: "well_typed (serve_asset assets path)"
  by (auto simp: serve_asset_def well_typed_def status_only_def split: option.split)

lemma well_typed_poll: "well_typed (fst (poll_handler boot config st headers addr mac))"
  by (auto simp: poll_handler_def Let_def split: option.split poll_outcome.split)
    (simp add: well_typed_def plain_text_def nl_def)


end
