(* ===== verification/Boot_Menu.thy ===== *)
theory Boot_Menu
  imports Boot_Chain Servers
begin

text \<open>
  The manual choice: what the template engine makes of \<open>MENU_TEMPLATE\<close> of
  \<^verbatim>\<open>crates/bootycall-http/src/server.rs\<close>, how iPXE finds the commands behind a label of the
  script, and the comparison of an entry of the menu with the script the poll endpoint
  serves for the same host.
\<close>

section \<open>The menu\<close>

text \<open>
  As in \<open>boot_script\<close>, values stand in the place of their names, the lines of a loop body are
  repeated with the newline that follows the tag, and the newline at the end of the template
  is dropped. The filter \<open>default\<close> replaces an undefined value only, so a command line that
  is set to null is printed as the engine prints null: this text is the argument \<open>shown\<close>.
\<close>

definition item_lines :: "nat \<times> host_config \<Rightarrow> string list" where
  "item_lines e = (case e of (index, h) \<Rightarrow> [[], ''item host_'' @ dec_of_nat index @ '' '' @ hc_name h])"

definition target_commands :: "string \<Rightarrow> string \<Rightarrow> host_config \<Rightarrow> string list" where
  "target_commands shown server_ip_port h =
     [''echo Booting '' @ hc_name h @ ''...'',
      ''kernel http://'' @ server_ip_port @ ''/cache/'' @ hc_mac h @ ''/kernel ''
        @ (case hc_cmdline h of Some cmdline \<Rightarrow> cmdline | None \<Rightarrow> shown),
      ''initrd http://'' @ server_ip_port @ ''/cache/'' @ hc_mac h @ ''/initrd'',
      ''boot'']"

definition target_lines :: "string \<Rightarrow> string \<Rightarrow> nat \<times> host_config \<Rightarrow> string list" where
  "target_lines shown server_ip_port e =
     (case e of (index, h) \<Rightarrow> [[], '':host_'' @ dec_of_nat index] @ target_commands shown server_ip_port h)"

definition menu_head :: "string \<Rightarrow> string list" where
  "menu_head server_ip_port =
     [''#!ipxe'', [], ''# Load wallpaper if available'',
      ''chain --timeout 5000 http://'' @ server_ip_port @ ''/dynamic/wallpaper.ipxe || echo Failed to load dynamic wallpaper'',
      [], '':menu'', ''menu BootyCall Network Boot Menu'']"

definition menu_choice :: "string list" where
  "menu_choice =
     [[], ''item shell Enter iPXE shell'', ''item reboot Reboot system'', [],
      ''choose --default host_1 --timeout 30000 target || goto menu'', [], ''# Handle targets'']"

definition menu_tail :: "string list" where
  "menu_tail = [[], [], '':shell'', ''shell'', ''goto menu'', [], '':reboot'', ''reboot'']"

definition menu_lines :: "string \<Rightarrow> string \<Rightarrow> host_config list \<Rightarrow> string list" where
  "menu_lines shown server_ip_port hosts =
     menu_head server_ip_port @ concat (map item_lines (enumerate 1 hosts)) @ menu_choice
     @ concat (map (target_lines shown server_ip_port) (enumerate 1 hosts)) @ menu_tail"

definition menu_script :: "string \<Rightarrow> string \<Rightarrow> host_config list \<Rightarrow> string" where
  "menu_script shown server_ip_port hosts = join_with nl (menu_lines shown server_ip_port hosts)"

section \<open>Running a script\<close>

text \<open>The commands of a script, and those behind a label up to the next one; blank lines do nothing.\<close>

definition script_lines :: "string \<Rightarrow> string list" where
  "script_lines script = split_on (CHR 0x0A) script"

definition commands :: "string list \<Rightarrow> string list" where
  "commands ls = filter (\<lambda>l. l \<noteq> []) ls"

definition is_label :: "string \<Rightarrow> bool" where
  "is_label l \<longleftrightarrow> take 1 l = '':''"

definition commands_at :: "string \<Rightarrow> string list \<Rightarrow> string list" where
  "commands_at label ls = commands (takeWhile (\<lambda>l. \<not> is_label l) (tl (dropWhile (\<lambda>l. l \<noteq> CHR '':'' # label) ls)))"

lemma commands_at_skip:
  assumes "CHR '':'' # label \<notin> set xs"
  shows "commands_at label (xs @ ys) = commands_at label ys"
proof -
  have "\<And>l. l \<in> set xs \<Longrightarrow> l \<noteq> CHR '':'' # label" using assms by blast
  then show ?thesis by (simp add: commands_at_def dropWhile_append2)
qed

lemma commands_at_here:
  "list_all (\<lambda>l. \<not> is_label l) body \<Longrightarrow>
   commands_at label ((CHR '':'' # label) # body @ rest) = commands body @ commands (takeWhile (\<lambda>l. \<not> is_label l) rest)"
  by (simp add: commands_at_def commands_def list_all_iff takeWhile_append2)

definition one_line :: "string \<Rightarrow> bool" where
  "one_line s \<longleftrightarrow> CHR 0x0A \<notin> set s"

lemma one_line_simps [simp]:
  "one_line []" "one_line (c # s) \<longleftrightarrow> c \<noteq> CHR 0x0A \<and> one_line s" "one_line (s @ t) \<longleftrightarrow> one_line s \<and> one_line t"
  by (auto simp: one_line_def)

lemma one_line_dec [simp]: "one_line (dec_of_nat n)"
  using dec_of_nat_digits [of "CHR 0x0A" n] by (auto simp: one_line_def is_ascii_digit_def)

lemma one_line_mac: "is_valid_mac m \<Longrightarrow> one_line m"
proof -
  have "\<not> lower_hex (CHR 0x0A)" by (simp add: lower_hex_def is_ascii_hexdigit_def is_ascii_digit_def)
  then show "is_valid_mac m \<Longrightarrow> one_line m" by (auto simp: one_line_def is_valid_mac_chars)
qed

lemma dec_of_nat_eq_iff [simp]: "dec_of_nat m = dec_of_nat n \<longleftrightarrow> m = n"
  by (metis dec_value_dec_of_nat option.inject)

definition plain_host :: "host_config \<Rightarrow> bool" where
  "plain_host h \<longleftrightarrow> one_line (hc_name h) \<and> one_line (hc_mac h) \<and> pred_option one_line (hc_cmdline h)"

lemma one_line_target:
  "plain_host h \<Longrightarrow> one_line server \<Longrightarrow> one_line shown \<Longrightarrow> list_all one_line (target_commands shown server h)"
  by (auto simp: target_commands_def plain_host_def split: option.split)

lemma one_line_fixed:
  "one_line server \<Longrightarrow> list_all one_line (menu_head server)" "list_all one_line menu_choice" "list_all one_line menu_tail"
  by (simp_all add: menu_head_def menu_choice_def menu_tail_def)

lemma one_line_entry:
  assumes "plain_host h" "one_line server" "one_line shown"
  shows "list_all one_line (item_lines (i, h))" "list_all one_line (target_lines shown server (i, h))"
  using assms one_line_target [OF assms] by (simp_all add: item_lines_def target_lines_def plain_host_def)

lemma script_lines_menu:
  assumes "list_all plain_host hosts" "one_line server" "one_line shown"
  shows "script_lines (menu_script shown server hosts) = menu_lines shown server hosts"
proof -
  have entries: "plain_host (snd e)" if "e \<in> set (enumerate 1 hosts)" for e
    using assms(1) that by (cases e) (auto simp: list_all_iff in_set_enumerate_eq)
  have each: "list_all one_line (item_lines e) \<and> list_all one_line (target_lines shown server e)" if "e \<in> set (enumerate 1 hosts)" for e
    using one_line_entry [OF entries [OF that] assms(2,3), of "fst e"] by simp
  have "list_all one_line (concat (map item_lines (enumerate 1 hosts)))"
    "list_all one_line (concat (map (target_lines shown server) (enumerate 1 hosts)))"
    using each by (auto simp: list_all_iff)
  then have "list_all one_line (menu_lines shown server hosts)"
    using one_line_fixed assms(2) by (simp add: menu_lines_def)
  moreover have "menu_lines shown server hosts \<noteq> []" by (simp add: menu_lines_def menu_tail_def)
  ultimately show ?thesis
    by (simp add: script_lines_def menu_script_def nl_def split_join_with list_all_iff one_line_def)
qed

section \<open>The commands of an entry\<close>

lemma target_not_label: "l \<in> set (target_commands shown server h) \<Longrightarrow> \<not> is_label l \<and> l \<noteq> []"
  by (auto simp: target_commands_def is_label_def)

lemma targets_before:
  assumes "list_all (\<lambda>e. fst e \<noteq> k) es"
  shows "'':host_'' @ dec_of_nat k \<notin> set (concat (map (target_lines shown server) es))"
proof
  assume "'':host_'' @ dec_of_nat k \<in> set (concat (map (target_lines shown server) es))"
  then obtain i h where e: "(i, h) \<in> set es" "'':host_'' @ dec_of_nat k \<in> set (target_lines shown server (i, h))" by auto
  have "\<not> is_label ('':host_'' @ dec_of_nat k)" if "'':host_'' @ dec_of_nat k \<in> set (target_commands shown server h)"
    using target_not_label [OF that] by simp
  with e show False using assms by (auto simp: target_lines_def list_all_iff is_label_def)
qed

lemma menu_entry:
  assumes "i < length hosts"
  shows "commands_at (''host_'' @ dec_of_nat (i + 1)) (menu_lines shown server hosts) = target_commands shown server (hosts ! i)"
proof -
  define label where "label = ''host_'' @ dec_of_nat (i + 1)"
  define es where "es = enumerate 1 hosts"
  have es: "es = take i es @ (i + 1, hosts ! i) # drop (Suc i) es"
    using assms id_take_nth_drop [of i es] by (simp add: es_def nth_enumerate_eq)
  have "list_all (\<lambda>e. fst e \<noteq> i + 1) (take i es)"
    by (auto simp: list_all_iff in_set_conv_nth es_def nth_enumerate_eq)
  from targets_before [OF this] have before: "CHR '':'' # label \<notin> set (concat (map (target_lines shown server) (take i es)))"
    by (simp add: label_def)
  have items: "CHR '':'' # label \<notin> set (concat (map item_lines es))" by (auto simp: item_lines_def)
  have commands: "commands (target_commands shown server h) = target_commands shown server h" for h
    using target_not_label by (auto simp: commands_def filter_id_conv)
  have body: "list_all (\<lambda>l. \<not> is_label l) (target_commands shown server (hosts ! i))"
    using target_not_label by (auto simp: list_all_iff)
  have rest: "commands (takeWhile (\<lambda>l. \<not> is_label l) (concat (map (target_lines shown server) (drop (Suc i) es)) @ menu_tail)) = []"
    by (cases "drop (Suc i) es") (auto simp: menu_tail_def commands_def is_label_def target_lines_def)
  have fixed: "CHR '':'' # label \<notin> set (menu_head server)" "CHR '':'' # label \<notin> set menu_choice"
    by (simp_all add: menu_head_def menu_choice_def label_def)
  have "concat (map (target_lines shown server) es)
      = concat (map (target_lines shown server) (take i es))
        @ ([] # (CHR '':'' # label) # target_commands shown server (hosts ! i))
        @ concat (map (target_lines shown server) (drop (Suc i) es))"
    by (subst es) (simp add: target_lines_def label_def)
  then have lines: "menu_lines shown server hosts
    = (menu_head server @ concat (map item_lines es) @ menu_choice @ concat (map (target_lines shown server) (take i es)) @ [[]])
      @ (CHR '':'' # label) # target_commands shown server (hosts ! i)
      @ concat (map (target_lines shown server) (drop (Suc i) es)) @ menu_tail"
    unfolding menu_lines_def es_def [symmetric] by simp
  have "CHR '':'' # label \<notin>
      set (menu_head server @ concat (map item_lines es) @ menu_choice @ concat (map (target_lines shown server) (take i es)) @ [[]])"
    using before items fixed by simp
  note skip = commands_at_skip [OF this]
  show ?thesis
    unfolding label_def [symmetric] lines skip commands_at_here [OF body] rest commands by simp
qed

text \<open>The script of a poll, line by line.\<close>

lemma script_lines_boot:
  assumes "plain_host h" "one_line server"
  shows "commands (script_lines (boot_script (boot_context_for h server None))) = ''#!ipxe'' # target_commands [] server h"
proof -
  define ls where "ls = ''#!ipxe'' # target_commands [] server h"
  have "list_all one_line ls" using one_line_target [OF assms, of "[]"] by (simp add: ls_def)
  then have "split_on (CHR 0x0A) (join_with [CHR 0x0A] ls) = ls"
    by (intro split_join_with) (simp_all add: ls_def list_all_iff one_line_def)
  moreover have "boot_script (boot_context_for h server None) = join_with [CHR 0x0A] ls"
    by (simp add: boot_script_def boot_context_for_def ls_def target_commands_def nl_def split: option.split)
  moreover have "commands ls = ls" using target_not_label by (auto simp: ls_def commands_def filter_id_conv)
  ultimately show ?thesis by (simp add: script_lines_def ls_def)
qed

section \<open>Properties\<close>

text \<open>
  C9. Every configured host can be chosen by hand: the menu is one script whose entry for the
  host in place \<open>i\<close> of the configuration carries its name, and the commands behind the label
  of that entry print the name, load kernel and initrd from the cache addresses of this
  host, and boot. They are the commands a poll of the host is answered with exactly when the
  host has a command line, or a null prints as nothing: the template replaces only an
  undefined command line, so otherwise the text of null becomes a kernel argument.
\<close>

theorem menu_boots_host:
  assumes "valid_config config" "i < length (cf_hosts config)" "h = cf_hosts config ! i"
    and "\<And>h'. h' \<in> set (cf_hosts config) \<Longrightarrow> one_line (hc_name h') \<and> pred_option one_line (hc_cmdline h')"
    and "one_line (host_header headers)" "one_line shown"
    and "he_menu env = Some (\<lambda>server hosts. Some (menu_script shown server hosts))"
    and "he_boot env = Some (\<lambda>bc. Some (boot_script bc))" "normalize_mac mac = hc_mac h"
  shows "\<exists>menu script ops. http_handle env config st headers addr GetMenu = (plain_text 200 menu, [])
    \<and> http_handle env config st headers addr (GetPoll mac) = (plain_text 200 script, ops)
    \<and> ''item host_'' @ dec_of_nat (i + 1) @ '' '' @ hc_name h \<in> set (script_lines menu)
    \<and> commands_at (''host_'' @ dec_of_nat (i + 1)) (script_lines menu) = target_commands shown (host_header headers) h
    \<and> commands (script_lines script) = ''#!ipxe'' # target_commands [] (host_header headers) h
    \<and> (target_commands shown (host_header headers) h = target_commands [] (host_header headers) h
         \<longleftrightarrow> hc_cmdline h \<noteq> None \<or> shown = [])"
proof -
  define server where "server = host_header headers"
  have h: "h \<in> set (cf_hosts config)" using assms(2,3) by simp
  have mac: "is_valid_mac (hc_mac h')" if "h' \<in> set (cf_hosts config)" for h'
    using assms(1) that by (auto simp: valid_config_def)
  have plain: "list_all plain_host (cf_hosts config)"
    using assms(4) one_line_mac [OF mac] by (auto simp: list_all_iff plain_host_def)
  then have "plain_host h" using h by (simp add: list_all_iff)
  note boot = script_lines_boot [OF this assms(5)]
  have menu: "http_handle env config st headers addr GetMenu = (plain_text 200 (menu_script shown server (cf_hosts config)), [])"
    using assms(7) by (simp add: http_handle_def menu_handler_def Let_def server_def)
  have ls: "script_lines (menu_script shown server (cf_hosts config)) = menu_lines shown server (cf_hosts config)"
    using plain assms(5,6) by (intro script_lines_menu) (simp_all add: server_def)
  have found: "find_host config (hc_mac h) = Some h"
    using assms(1) h by (intro find_host_unique) (simp_all add: normalize_valid_mac [OF mac])
  have poll: "http_handle env config st headers addr (GetPoll mac) = (plain_text 200 (boot_script (boot_context_for h server None)),
      snd (http_handle env config st headers addr (GetPoll mac)))"
    using assms(8,9) mac [OF h] found
    by (simp add: http_handle_def poll_handler_def decide_poll_outcome_def boot_outcome_def server_def Let_def)
  have "(i + 1, h) \<in> set (enumerate 1 (cf_hosts config))"
    using assms(2,3) by (auto simp: in_set_enumerate_eq)
  then have "''item host_'' @ dec_of_nat (i + 1) @ '' '' @ hc_name h \<in> set (menu_lines shown server (cf_hosts config))"
    by (force simp: menu_lines_def item_lines_def)
  moreover have "target_commands shown server h = target_commands [] server h \<longleftrightarrow> hc_cmdline h \<noteq> None \<or> shown = []"
    by (auto simp: target_commands_def split: option.split)
  ultimately show ?thesis
    using menu poll ls boot menu_entry [OF assms(2), of shown server] assms(3)
    by (intro exI [of _ "menu_script shown server (cf_hosts config)"] exI) (auto simp: server_def)
qed

definition menu_env :: http_env where
  "menu_env = boot_env\<lparr>he_menu := Some (\<lambda>server hosts. Some (menu_script ''none'' server hosts))\<rparr>"

text \<open>The sample host has no command line, so its menu entry passes null to the kernel.\<close>

lemma menu_boots_host_witness:
  "\<exists>menu. http_handle menu_env sample_config new_store token_headers (SocketAddr (V4 [10, 0, 0, 9]) 99) GetMenu = (plain_text 200 menu, [])
    \<and> commands_at ''host_1'' (script_lines menu)
      = [''echo Booting n1...'', ''kernel http://localhost:8080/cache/52:54:00:ab:cd:01/kernel none'',
         ''initrd http://localhost:8080/cache/52:54:00:ab:cd:01/initrd'', ''boot'']"
proof -
  define h where "h = sample_host\<lparr>hc_mac := boot_mac\<rparr>"
  have hosts: "cf_hosts sample_config = [h]" by (simp add: sample_hosts h_def boot_mac_def)
  have mac: "normalize_mac '' 52-54-00-ab-CD-01 '' = hc_mac h" unfolding h_def boot_mac_def by code_simp
  have env: "he_menu menu_env = Some (\<lambda>server hosts. Some (menu_script ''none'' server hosts))"
    "he_boot menu_env = Some (\<lambda>bc. Some (boot_script bc))"
    by (simp_all add: menu_env_def boot_env_def)
  have plain: "one_line (hc_name h') \<and> pred_option one_line (hc_cmdline h')" if "h' \<in> set (cf_hosts sample_config)" for h'
    using that by (simp add: hosts h_def sample_host_def)
  have header: "host_header token_headers = ''localhost:8080''" by (simp add: host_header_def token_headers_def)
  have "(0 :: nat) < length (cf_hosts sample_config)" "h = cf_hosts sample_config ! 0" by (simp_all add: hosts)
  from menu_boots_host [OF sample_config_valid this plain _ _ env mac, where headers = token_headers and st = new_store
      and addr = "SocketAddr (V4 [10, 0, 0, 9]) 99"]
  have "\<exists>menu. http_handle menu_env sample_config new_store token_headers (SocketAddr (V4 [10, 0, 0, 9]) 99) GetMenu = (plain_text 200 menu, [])
    \<and> commands_at (''host_'' @ dec_of_nat (0 + 1)) (script_lines menu) = target_commands ''none'' ''localhost:8080'' h"
    by (auto simp: header)
  moreover have "dec_of_nat (0 + 1) = ''1''" by code_simp
  ultimately show ?thesis by (simp add: target_commands_def h_def sample_host_def boot_mac_def)
qed

end
