(* ===== verification/Event_Log.thy ===== *)
theory Event_Log
  imports Logging Tftp_Service Servers
begin

text \<open>
  The lifecycle events the servers and the extractor emit with \<open>event!\<close>, each computed from
  the values of the operation that emits it: transfers (\<^verbatim>\<open>crates/bootycall-tftp/src/server.rs\<close>),
  PXE offers (\<^verbatim>\<open>crates/bootycall-dhcp/src/server.rs\<close>), polls
  (\<^verbatim>\<open>crates/bootycall-http/src/server.rs\<close>) and extractions
  (\<^verbatim>\<open>crates/bootycall-extractor/src/lib.rs\<close>). The property says that the events of a transfer
  agree with what it records in the store. Durations and the text of an error kind are arguments.
\<close>

section \<open>Transfers\<close>

definition mac_field :: "string option \<Rightarrow> string \<times> field_value" where
  "mac_field mac_addr = (''mac'', Str (case mac_addr of Some m \<Rightarrow> m | None \<Rightarrow> []))"

definition open_failed_event :: "string \<Rightarrow> string \<Rightarrow> log_line" where
  "open_failed_event file kind =
     event ''tftp_transfer_error'' [(''file'', Str file), (''error'', Str ''file_open_failed''), (''kind'', Str kind)]"

definition transfer_failed_event :: "string option \<Rightarrow> string \<Rightarrow> string \<Rightarrow> log_line" where
  "transfer_failed_event mac_addr file reason =
     event ''tftp_transfer_failed'' [mac_field mac_addr, (''file'', Str file), (''reason'', Str reason)]"

definition transfer_complete_event :: "string option \<Rightarrow> string \<Rightarrow> nat \<Rightarrow> nat \<Rightarrow> nat \<Rightarrow> nat \<Rightarrow> log_line" where
  "transfer_complete_event mac_addr file file_size total_blocks windowsize duration_ms =
     event ''tftp_transfer_complete''
       [mac_field mac_addr, (''file'', Str file), (''bytes'', Num file_size), (''blocks'', Num total_blocks),
        (''windowsize'', Num windowsize), (''duration_ms'', Num duration_ms)]"

text \<open>The events at the ends of the two loops, beside \<open>finish_data\<close> and \<open>finish_oack\<close>.\<close>

fun data_events :: "string option \<Rightarrow> string \<Rightarrow> nat \<Rightarrow> nat \<Rightarrow> nat \<Rightarrow> xfer_stop \<Rightarrow> log_line list" where
  "data_events mac file sz window ms (ReadFailed e) = []"
| "data_events mac file sz window ms (SendFailed e) = [transfer_failed_event mac file ''I/O error during data transfer'']"
| "data_events mac file sz window ms (RecvFailed e) = [transfer_failed_event mac file ''I/O error during data transfer'']"
| "data_events mac file sz window ms ClientAborted = [transfer_failed_event mac file ''client aborted during data transfer'']"
| "data_events mac file sz window ms RetriesExhausted = [transfer_failed_event mac file ''timed out waiting for data ACK'']"
| "data_events mac file sz window ms (Finished n) = [transfer_complete_event mac file sz n window ms]"

fun oack_events :: "string option \<Rightarrow> string \<Rightarrow> ack_outcome io \<Rightarrow> log_line list" where
  "oack_events mac file (Inr Acked) = []"
| "oack_events mac file (Inr ClientError) = [transfer_failed_event mac file ''client aborted during OACK negotiation'']"
| "oack_events mac file (Inr GaveUp) = [transfer_failed_event mac file ''OACK negotiation timed out'']"
| "oack_events mac file (Inl e) = [transfer_failed_event mac file ''I/O error during OACK negotiation'']"

text \<open>The events of a whole transfer, along the branches of \<open>handle_tftp_transfer\<close>.\<close>

definition loop_events ::
  "('r \<Rightarrow> nat \<Rightarrow> (bytes \<times> 'r) io) \<Rightarrow> 'r \<Rightarrow> negotiated \<Rightarrow> retry_policy \<Rightarrow> (xfer_stop \<Rightarrow> log_line list) \<Rightarrow> turn list
   \<Rightarrow> log_line list" where
  "loop_events read r ng policy at_end turns =
     (case snd (data_loop read (ng_blksize ng) (ng_windowsize ng) policy turns (start_xfer r)) of
        None \<Rightarrow> []
      | Some stop \<Rightarrow> at_end stop)"

definition transfer_events ::
  "('r \<Rightarrow> nat \<Rightarrow> (bytes \<times> 'r) io) \<Rightarrow> 'r io \<Rightarrow> nat io \<Rightarrow> int \<Rightarrow> turn list \<Rightarrow> rrq_request \<Rightarrow> string option
   \<Rightarrow> string \<Rightarrow> (io_error \<Rightarrow> string) \<Rightarrow> nat \<Rightarrow> log_line list" where
  "transfer_events read opened metadata now turns request mac_addr file show_kind duration_ms =
     (if \<not> is_octet request then []
      else
        (case opened of
           Inl e \<Rightarrow> [open_failed_event file (show_kind e)]
         | Inr r \<Rightarrow>
             (case metadata of
                Inl e \<Rightarrow> []
              | Inr file_size \<Rightarrow>
                  (let ng = negotiate request file_size; policy = transfer_policy now;
                       at_end = data_events mac_addr file file_size (ng_windowsize ng) duration_ms
                   in if ng_options ng = [] then loop_events read r ng policy at_end turns
                      else
                        (case send_and_await_ack (make_oack_packet (ng_options ng)) 0 policy turns 0 of
                           (_, None, _) \<Rightarrow> []
                         | (_, Some (Inr Acked), left) \<Rightarrow> loop_events read r ng policy at_end left
                         | (_, Some outcome, _) \<Rightarrow> oack_events mac_addr file outcome)))))"

section \<open>The other servers\<close>

definition dhcp_events ::
  "(bytes \<Rightarrow> dhcp_message option) \<Rightarrow> u16 \<Rightarrow> u16 \<Rightarrow> (ipv4 \<Rightarrow> ip_addr option) \<Rightarrow> sock_addr io \<Rightarrow> config \<Rightarrow> bytes \<Rightarrow> sock_addr
   \<Rightarrow> log_line list" where
  "dhcp_events decode x64 bc probe local_addr config datagram src_addr =
     (case pxe_request decode datagram of
        None \<Rightarrow> []
      | Some (request, _) \<Rightarrow>
          (let mac_str = format_mac (take 6 (dm_chaddr request)); arch = op_architecture (dm_opts request) in
           [event ''dhcp_pxe_offer''
              [(''mac'', Str mac_str), (''arch'', Str (arch_name x64 bc arch)),
               (''client_ip'', Str (ipv4_to_string (client_ip_of request src_addr))),
               (''bootloader'', Str (bootloader_for config mac_str arch)),
               (''next_server'', Str (ipv4_to_string (resolve_local_ip probe request local_addr)))]]))"

definition poll_events ::
  "(boot_context \<Rightarrow> string option) option \<Rightarrow> config \<Rightarrow> state_store \<Rightarrow> headers \<Rightarrow> sock_addr \<Rightarrow> string \<Rightarrow> log_line list" where
  "poll_events boot_template config st headers client_addr mac =
     (let mac_str = normalize_mac mac; client_ip = ip_to_string (addr_ip client_addr) in
      if \<not> is_valid_mac mac_str then []
      else
        (case boot_template of
           None \<Rightarrow> []
         | Some render_boot \<Rightarrow>
             (case decide_poll_outcome render_boot config st mac_str (host_header headers) of
                Boot script cache_mac \<Rightarrow>
                  [event ''http_boot_served''
                     [(''mac'', Str mac_str), (''target_mac'', Str cache_mac), (''client_ip'', Str client_ip)]]
              | RenderFailed \<Rightarrow> [event ''http_boot_render_failed'' [(''mac'', Str mac_str), (''client_ip'', Str client_ip)]]
              | Poll \<Rightarrow> [])))"

section \<open>Extraction\<close>

definition host_fields :: "host_config \<Rightarrow> (string \<times> field_value) list" where
  "host_fields host = [(''host'', Str (hc_name host)), (''mac'', Str (hc_mac host)), (''image'', Str (hc_image_path host))]"

definition sync_host_events ::
  "'r reading \<Rightarrow> (cache_metadata \<Rightarrow> string option) \<Rightarrow> (string \<Rightarrow> cache_metadata option)
   \<Rightarrow> ('d, 'f, 'r, 'e) sync_env \<Rightarrow> host_config \<Rightarrow> nat option \<Rightarrow> host_cache \<Rightarrow> (extractor_error \<Rightarrow> string) \<Rightarrow> nat
   \<Rightarrow> log_line list" where
  "sync_host_events read to_json from_json env host max_bytes c show_error duration_ms =
     (case image_stamp env (hc_image_path host) of
        Inl e \<Rightarrow> []
      | Inr stamp \<Rightarrow>
          if cache_valid from_json (se_read_meta env) host stamp c then [event ''extract_cache_hit'' (host_fields host)]
          else
            event ''extract_cache_miss'' (host_fields host) #
            (case (if ca_dir c then Inr () else se_mkdir env) of
               Inl e \<Rightarrow> []
             | Inr _ \<Rightarrow>
                 (case extract_any read env host max_bytes (ca_files c) of
                    None \<Rightarrow> []
                  | Some (a, Inr _) \<Rightarrow>
                      (case snd (write_metadata to_json (se_write_meta env) (current_key host stamp) (c\<lparr>ca_files := a\<rparr>)) of
                         Inl _ \<Rightarrow> []
                       | Inr _ \<Rightarrow> [event ''extract_complete'' (host_fields host @ [(''duration_ms'', Num duration_ms)])])
                  | Some (_, Inl e) \<Rightarrow> [event ''extract_failed'' (host_fields host @ [(''error'', Str (show_error e))])])))"

definition sync_all_events :: "sync_summary \<Rightarrow> log_line list" where
  "sync_all_events summary =
     (if all_failed summary then
        [event ''extract_sync_all_failed''
           [(''hosts'', Num (summary_total summary)), (''failed'', Num (length (su_failed summary)))]]
      else if partial_failure summary then
        [event ''extract_sync_partial''
           [(''hosts'', Num (summary_total summary)), (''succeeded'', Num (su_succeeded summary)),
            (''failed'', Num (length (su_failed summary)))]]
      else [])"

section \<open>Agreement with the store\<close>

text \<open>
  The events \<open>evs\<close> tell what the calls \<open>ops\<close> record of the host \<open>m\<close>: success with the same
  number of blocks and a clean return, failure with the same reason, or nothing.
\<close>

definition tells :: "string \<Rightarrow> (nat \<Rightarrow> log_line) \<Rightarrow> (string \<Rightarrow> log_line) \<Rightarrow> log_line list \<Rightarrow> store_op list \<times> unit io \<Rightarrow> bool" where
  "tells m complete failed evs end \<longleftrightarrow>
     (\<exists>n. end = (mark_tftp_completed (Some m) n, Inr ()) \<and> evs = [complete n])
     \<or> (\<exists>reason. fst end = mark_tftp_failed (Some m) reason \<and> evs = [failed reason])
     \<or> fst end = [] \<and> evs = []"

lemma data_tells:
  "tells m (\<lambda>n. transfer_complete_event (Some m) path sz n window ms) (transfer_failed_event (Some m) path)
     (data_events (Some m) path sz window ms stop) (finish_data (Some m) stop)"
  by (cases stop) (auto simp: tells_def)

lemma oack_tells:
  "finish_oack (Some m) outcome = Some result \<Longrightarrow>
   tells m complete (transfer_failed_event (Some m) path) (oack_events (Some m) path outcome) result"
  by (cases "(Some m, outcome)" rule: finish_oack.cases) (auto simp: tells_def)

lemma loop_tells:
  assumes "run_data read r ng policy (Some m) turns = (out, ops, Some res)"
  shows "tells m (\<lambda>n. transfer_complete_event (Some m) path sz n window ms) (transfer_failed_event (Some m) path)
     (loop_events read r ng policy (data_events (Some m) path sz window ms) turns) (ops, res)"
proof -
  obtain stop where "snd (data_loop read (ng_blksize ng) (ng_windowsize ng) policy turns (start_xfer r)) = Some stop"
    "finish_data (Some m) stop = (ops, res)"
    using assms by (auto simp: run_data_def split: prod.splits option.splits)
  with data_tells [of m path sz window ms stop] show ?thesis by (simp add: loop_events_def)
qed

section \<open>Properties\<close>

text \<open>
  C15. The lifecycle events of a transfer agree with the store: when a transfer for a known
  host has ended, there is one event that it completed, with the size of the file, the
  number of blocks recorded and a clean return, or one that it failed, with the reason
  recorded, or neither and nothing is recorded. Only the last case can hide a failure: the
  event of a failed open names no host, and a rejected mode, a failed metadata call and a
  failed read leave no event at all.
\<close>

theorem transfer_announced:
  assumes "handle_tftp_transfer read opened metadata now turns request (Some m) = (out, ops, Some res)"
  shows "(\<exists>sz n. metadata = Inr sz \<and> ops = mark_tftp_completed (Some m) n \<and> res = Inr ()
        \<and> transfer_events read opened metadata now turns request (Some m) path show_kind ms
          = [transfer_complete_event (Some m) path sz n (ng_windowsize (negotiate request sz)) ms])
    \<or> (\<exists>reason. ops = mark_tftp_failed (Some m) reason
        \<and> transfer_events read opened metadata now turns request (Some m) path show_kind ms = [transfer_failed_event (Some m) path reason])
    \<or> ops = [] \<and> transfer_events read opened metadata now turns request (Some m) path show_kind ms
        = (case opened of Inl e \<Rightarrow> if is_octet request then [open_failed_event path (show_kind e)] else [] | Inr _ \<Rightarrow> [])"
proof -
  consider "\<not> is_octet request" | e where "is_octet request" "opened = Inl e"
    | r e where "is_octet request" "opened = Inr r" "metadata = Inl e"
    | r sz where "is_octet request" "opened = Inr r" "metadata = Inr sz"
    by (metis sum.exhaust)
  then show ?thesis
  proof cases
    case (4 r sz)
    let ?ng = "negotiate request sz" and ?p = "transfer_policy now"
    let ?evs = "transfer_events read opened metadata now turns request (Some m) path show_kind ms"
    have "tells m (\<lambda>n. transfer_complete_event (Some m) path sz n (ng_windowsize ?ng) ms) (transfer_failed_event (Some m) path) ?evs (ops, res)"
    proof (cases "ng_options ?ng = []")
      case True
      with 4 assms have "run_data read r ?ng ?p (Some m) turns = (out, ops, Some res)"
        by (simp add: handle_tftp_transfer_def is_octet_def)
      from loop_tells [OF this] True 4 show ?thesis by (simp add: transfer_events_def Let_def)
    next
      case False
      obtain o0 oc left where sw: "send_and_await_ack (make_oack_packet (ng_options ?ng)) 0 ?p turns 0 = (o0, oc, left)"
        by (metis prod_cases3)
      obtain outcome where oc: "oc = Some outcome"
        using assms 4 False sw by (cases oc) (simp_all add: handle_tftp_transfer_def is_octet_def Let_def)
      show ?thesis
      proof (cases "outcome = Inr Acked")
        case True
        with assms 4 False sw oc obtain o1 where "run_data read r ?ng ?p (Some m) left = (o1, ops, Some res)"
          by (auto simp: handle_tftp_transfer_def is_octet_def Let_def split: prod.splits)
        from loop_tells [OF this] True 4 False sw oc show ?thesis by (simp add: transfer_events_def Let_def)
      next
        case other: False
        then obtain result where fin: "finish_oack (Some m) outcome = Some result"
          by (cases "(Some m, outcome)" rule: finish_oack.cases) auto
        with assms 4 False sw oc have "result = (ops, res)"
          by (cases result) (simp add: handle_tftp_transfer_def is_octet_def Let_def)
        moreover have "?evs = oack_events (Some m) path outcome"
          using other 4 False sw oc by (simp add: transfer_events_def Let_def split: sum.split ack_outcome.split)
        ultimately show ?thesis using oack_tells [OF fin] by simp
      qed
    qed
    with 4 show ?thesis by (auto simp: tells_def)
  qed (use assms in \<open>simp_all add: handle_tftp_transfer_def transfer_events_def is_octet_def split: sum.split\<close>)
qed

lemma transfer_announced_witness:
  "\<exists>ops. handle_tftp_transfer file_read (Inl NotFound) (Inr 0) 0 [] sample_request (Some ''m'')
     = ([make_error_packet 1 ''File not found''], ops, Some (Inl NotFound)) \<and> ops = []
     \<and> transfer_events file_read (Inl NotFound) (Inr 0) 0 [] sample_request (Some ''m'') ''f'' (\<lambda>_. ''NotFound'') 3
       = [open_failed_event ''f'' ''NotFound'']"
proof -
  have octet: "is_octet sample_request"
    by (simp add: is_octet_def sample_request_def plain_request_def eq_ignore_ascii_case_def)
  then have run: "handle_tftp_transfer file_read (Inl NotFound) (Inr 0) 0 [] sample_request (Some ''m'')
     = ([make_error_packet 1 ''File not found''], [], Some (Inl NotFound))"
    by (simp add: handle_tftp_transfer_def open_error_def is_octet_def)
  from transfer_announced [OF run, of "''f''" "\<lambda>_. ''NotFound''" 3] octet run show ?thesis
    by (simp add: mark_tftp_completed_def mark_tftp_failed_def)
qed

text \<open>The other servers: an offer is announced exactly when it is recorded, and a poll as it is recorded.\<close>

lemma offers_announced:
  "dhcp_events decode x64 bc probe local_addr config datagram src = []
   \<longleftrightarrow> fst (dhcp_step decode encode x64 bc probe local_addr config datagram src) = []"
  by (auto simp: dhcp_events_def dhcp_step_eq dhcp_ops_def Let_def split: option.splits)

lemma polls_announced:
  "poll_events boot config st headers addr mac \<noteq> [] \<longleftrightarrow>
   (\<exists>status m ip rest. snd (poll_handler boot config st headers addr mac) = UpdateHost m status None None ip None # rest \<and> status \<in> {Booting, Failed})"
  by (auto simp: poll_events_def poll_handler_def Let_def split: option.splits poll_outcome.splits)

text \<open>A synchronisation without a failed host is silent, one with a failed host is not.\<close>

lemma failed_sync_announced: "sync_all_events summary = [] \<longleftrightarrow> su_failed summary = []"
  by (auto simp: sync_all_events_def all_failed_def partial_failure_def)

end
