(* ===== verification/Tests_Core.thy ===== *)
theory Tests_Core
  imports Host_Registry Path_Join Config
begin

text \<open>
  The unit tests of \<^verbatim>\<open>crates/bootycall-core/src\<close> (\<^verbatim>\<open>mac.rs\<close>, \<^verbatim>\<open>path.rs\<close>, \<^verbatim>\<open>state.rs\<close>,
  \<^verbatim>\<open>config.rs\<close>), run on the model: a test is the conjunction of its assertions, with the
  calls the code makes, and a lemma says that it passes. Clock readings are arguments, a
  temporary directory is a file system, a YAML text is the value it parses to.
\<close>

section \<open>MAC addresses\<close>

definition normalizes_uppercase_and_hyphens :: bool where
  "normalizes_uppercase_and_hyphens \<longleftrightarrow> normalize_mac ''AA-BB-CC-11-22-33'' = ''aa:bb:cc:11:22:33''"

definition format_mac_produces_canonical_lower_hex :: bool where
  "format_mac_produces_canonical_lower_hex \<longleftrightarrow>
     format_mac [0xAA, 0xBB, 0xCC, 0x01, 0x02, 0x03] = ''aa:bb:cc:01:02:03''
     \<and> format_mac [0, 0, 0, 0, 0, 0] = ''00:00:00:00:00:00''
     \<and> format_mac [0xff, 0xff, 0xff, 0xff, 0xff, 0xff] = ''ff:ff:ff:ff:ff:ff''
     \<and> is_valid_mac (format_mac [0x52, 0x54, 0x00, 0x10, 0x10, 0x10])"

definition normalizes_trims_whitespace :: bool where
  "normalizes_trims_whitespace \<longleftrightarrow> normalize_mac ''  aa:bb:cc:dd:ee:ff  '' = ''aa:bb:cc:dd:ee:ff''"

definition passes_valid_lower_hex_colons :: bool where
  "passes_valid_lower_hex_colons \<longleftrightarrow> is_valid_mac ''aa:bb:cc:dd:ee:ff'' \<and> is_valid_mac ''00:11:22:33:44:55''"

definition rejects_uppercase_hex :: bool where
  "rejects_uppercase_hex \<longleftrightarrow> \<not> is_valid_mac ''AA:bb:cc:dd:ee:ff''"

definition rejects_wrong_separator :: bool where
  "rejects_wrong_separator \<longleftrightarrow> \<not> is_valid_mac ''aa-bb-cc-dd-ee-ff''"

definition rejects_non_hex_characters :: bool where
  "rejects_non_hex_characters \<longleftrightarrow> \<not> is_valid_mac ''zz:bb:cc:dd:ee:ff''"

definition rejects_wrong_length :: bool where
  "rejects_wrong_length \<longleftrightarrow> \<not> is_valid_mac ''aa:bb:cc:dd:ee'' \<and> \<not> is_valid_mac ''aa:bb:cc:dd:ee:ff:11''"

definition rejects_control_or_newline_bytes :: bool where
  "rejects_control_or_newline_bytes \<longleftrightarrow> \<not> is_valid_mac (''aa:bb:cc:dd:ee:f'' @ [CHR 0x0A])"

lemma mac_tests_pass:
  "normalizes_uppercase_and_hyphens" "format_mac_produces_canonical_lower_hex" "normalizes_trims_whitespace"
  "passes_valid_lower_hex_colons" "rejects_uppercase_hex" "rejects_wrong_separator" "rejects_non_hex_characters"
  "rejects_wrong_length" "rejects_control_or_newline_bytes"
  by code_simp+

section \<open>Safe joins\<close>

text \<open>The temporary directory \<open>/tmp/t\<close> with the entries a test makes in it.\<close>

definition temp_dir :: string where "temp_dir = ''/tmp/t''"

definition temp_fs :: "(cpath \<times> node) list \<Rightarrow> fs" where
  "temp_fs entries =
     map_of ([([], Directory), ([''tmp''], Directory), ([''tmp'', ''t''], Directory), ([''etc''], Directory),
              ([''etc'', ''passwd''], Regular [1])] @ entries)"

definition join_in :: "(cpath \<times> node) list \<Rightarrow> string \<Rightarrow> string option" where
  "join_in entries requested = safe_join (resolve_path (temp_fs entries) []) temp_dir requested"

definition rejects_parent_dir :: bool where
  "rejects_parent_dir \<longleftrightarrow> join_in [] ''../../etc/passwd'' = None"

definition rejects_absolute_unix_path :: bool where
  "rejects_absolute_unix_path \<longleftrightarrow> join_in [] ''/etc/passwd'' = None"

definition rejects_double_slash_absolute :: bool where
  "rejects_double_slash_absolute \<longleftrightarrow> join_in [] ''//etc/passwd'' = None"

definition rejects_windows_backslash_parent :: bool where
  "rejects_windows_backslash_parent \<longleftrightarrow>
     (let b = [CHR 0x5C, CHR 0x5C] in join_in [] (b @ ''..'' @ b @ ''..'' @ b @ ''etc'' @ b @ ''passwd'') = None)"

definition accepts_normal_relative_path :: bool where
  "accepts_normal_relative_path \<longleftrightarrow>
     (case join_in [([''tmp'', ''t'', ''boot''], Directory), ([''tmp'', ''t'', ''boot'', ''x64''], Directory),
                    ([''tmp'', ''t'', ''boot'', ''x64'', ''ipxe.efi''], Regular (as_bytes ''stub''))] ''boot/x64/ipxe.efi'' of
        Some joined \<Rightarrow> suffix ''boot/x64/ipxe.efi'' joined
      | None \<Rightarrow> False)"

definition accepts_missing_relative_path :: bool where
  "accepts_missing_relative_path \<longleftrightarrow> join_in [] ''not-yet/there.bin'' \<noteq> None"

definition rejects_symlink_that_escapes_root :: bool where
  "rejects_symlink_that_escapes_root \<longleftrightarrow>
     join_in [([''tmp'', ''o''], Directory), ([''tmp'', ''o'', ''secret''], Regular (as_bytes ''leaked'')),
              ([''tmp'', ''t'', ''escape''], Symlink ''/tmp/o/secret'')] ''escape'' = None"

definition rejects_symlinked_parent_with_missing_leaf :: bool where
  "rejects_symlinked_parent_with_missing_leaf \<longleftrightarrow>
     join_in [([''tmp'', ''o''], Directory), ([''tmp'', ''t'', ''link''], Symlink ''/tmp/o'')] ''link/newfile'' = None"

lemma path_tests_pass:
  "rejects_parent_dir" "rejects_absolute_unix_path" "rejects_double_slash_absolute" "rejects_windows_backslash_parent"
  "accepts_normal_relative_path" "accepts_missing_relative_path" "rejects_symlink_that_escapes_root"
  "rejects_symlinked_parent_with_missing_leaf"
  by code_simp+

section \<open>The state store\<close>

text \<open>\<open>list_hosts\<close> yields every host once: its length is the size of the table.\<close>

definition counts :: "host_order \<Rightarrow> bool" where
  "counts order \<longleftrightarrow> (\<forall>m. length (order m) = fm_size m)"

lemma length_list_hosts: "counts order \<Longrightarrow> length (list_hosts order st) = fm_size (ss_hosts st)"
  by (simp add: counts_def list_hosts_def)

definition test_state_store_operations :: "host_order \<Rightarrow> int \<Rightarrow> int \<Rightarrow> bool" where
  "test_state_store_operations order t1 t2 \<longleftrightarrow>
     (let store = new_store;
          store1 = update_host_status t1 ''AA-BB-CC-11-22-33'' Polling (Some ''host1'') (Some ''target1'')
                     (Some ''192.168.1.100'') (Some ''x86_64'') store;
          store2 = log_event t2 ''INFO'' (Some ''AA-BB-CC-11-22-33'') ''Started polling'' store1;
          logs = list_logs store2
      in length (list_hosts order store) = 0 \<and> length (list_logs store) = 0
         \<and> (case get_host ''aa:bb:cc:11:22:33'' store1 of
              Some host \<Rightarrow>
                hs_name host = Some ''host1'' \<and> hs_status host = Polling \<and> hs_assigned_target host = Some ''target1''
                \<and> hs_client_ip host = Some ''192.168.1.100'' \<and> hs_architecture host = Some ''x86_64''
            | None \<Rightarrow> False)
         \<and> length logs = 1 \<and> le_mac (logs ! 0) = Some ''aa:bb:cc:11:22:33'' \<and> le_message (logs ! 0) = ''Started polling'')"

definition test_clean_stale_hosts :: "host_order \<Rightarrow> int \<Rightarrow> bool" where
  "test_clean_stale_hosts order t \<longleftrightarrow>
     (let store1 = update_host_status t ''aa:bb:cc:00:00:01'' Polling (Some ''stale-host'') None None None new_store;
          store2 = clean_stale_hosts (t + int (from_millis 50)) 0 store1
      in get_host ''aa:bb:cc:00:00:01'' store1 \<noteq> None \<and> get_host ''aa:bb:cc:00:00:01'' store2 = None
         \<and> length (list_hosts order store2) = 0)"

definition test_partial_update_preserves_existing :: "int \<Rightarrow> int \<Rightarrow> bool" where
  "test_partial_update_preserves_existing t1 t2 \<longleftrightarrow>
     (let store1 = update_host_status t1 ''aa:bb:cc:00:00:02'' Booting (Some ''my-host'') (Some ''target-a'') (Some ''10.0.0.1'')
                     (Some ''aarch64'') new_store;
          store2 = update_host_status t2 ''aa:bb:cc:00:00:02'' Completed None None None None store1
      in (case get_host ''aa:bb:cc:00:00:02'' store2 of
            Some host \<Rightarrow>
              hs_status host = Completed \<and> hs_name host = Some ''my-host'' \<and> hs_assigned_target host = Some ''target-a''
              \<and> hs_client_ip host = Some ''10.0.0.1'' \<and> hs_architecture host = Some ''aarch64''
          | None \<Rightarrow> False))"

definition test_get_host_not_found :: bool where
  "test_get_host_not_found \<longleftrightarrow> get_host ''ff:ff:ff:ff:ff:ff'' new_store = None"

text \<open>An update without any of the optional values.\<close>

definition touch :: "int \<Rightarrow> string \<Rightarrow> host_status \<Rightarrow> state_store \<Rightarrow> state_store" where
  "touch now mac status st = update_host_status now mac status None None None None st"

definition test_list_hosts_returns_all :: "host_order \<Rightarrow> int \<Rightarrow> int \<Rightarrow> int \<Rightarrow> bool" where
  "test_list_hosts_returns_all order t1 t2 t3 \<longleftrightarrow>
     length (list_hosts order
       (touch t3 ''aa:00:00:00:00:03'' Completed (touch t2 ''aa:00:00:00:00:02'' Booting
          (touch t1 ''aa:00:00:00:00:01'' Polling new_store)))) = 3"

definition test_log_event_ordering :: "int \<Rightarrow> int \<Rightarrow> int \<Rightarrow> bool" where
  "test_log_event_ordering t1 t2 t3 \<longleftrightarrow>
     (let logs = list_logs (log_event t3 ''ERROR'' None ''third event''
                   (log_event t2 ''WARN'' (Some ''aa:bb:cc:dd:ee:ff'') ''second event''
                      (log_event t1 ''INFO'' None ''first event'' new_store)))
      in length logs = 3
         \<and> le_message (logs ! 0) = ''first event'' \<and> le_message (logs ! 1) = ''second event'' \<and> le_message (logs ! 2) = ''third event''
         \<and> le_level (logs ! 0) = ''INFO'' \<and> le_level (logs ! 1) = ''WARN'' \<and> le_level (logs ! 2) = ''ERROR''
         \<and> le_mac (logs ! 1) = Some ''aa:bb:cc:dd:ee:ff'')"

definition numbered_mac :: "nat \<Rightarrow> string" where
  "numbered_mac i = ''02:00:00:00:'' @ hex2 (of_nat (i div 256 mod 256)) @ '':'' @ hex2 (of_nat (i mod 256))"

definition test_max_tracked_hosts_ceiling :: "host_order \<Rightarrow> (nat \<Rightarrow> int) \<Rightarrow> int \<Rightarrow> int \<Rightarrow> bool" where
  "test_max_tracked_hosts_ceiling order t1 t2 t3 \<longleftrightarrow>
     (let store1 = fold (\<lambda>i. touch (t1 i) (numbered_mac i) Polling) [0..<MAX_TRACKED_HOSTS] new_store;
          store2 = touch t2 ''de:ad:be:ef:00:01'' Polling store1;
          store3 = touch t3 ''02:00:00:00:00:00'' Completed store2
      in length (list_hosts order store1) = MAX_TRACKED_HOSTS
         \<and> get_host ''de:ad:be:ef:00:01'' store2 = None \<and> length (list_hosts order store2) = MAX_TRACKED_HOSTS
         \<and> (case get_host ''02:00:00:00:00:00'' store3 of Some h \<Rightarrow> hs_status h = Completed | None \<Rightarrow> False)
         \<and> length (list_hosts order store3) = MAX_TRACKED_HOSTS)"

lemma small_state_tests_pass:
  "test_partial_update_preserves_existing t1 t2" "test_get_host_not_found" "test_log_event_ordering t1 t2 t3"
  by code_simp+

lemma test_state_store_operations_passes:
  assumes "counts order"
  shows "test_state_store_operations order t1 t2"
  unfolding test_state_store_operations_def Let_def length_list_hosts [OF assms] by code_simp

lemma test_list_hosts_returns_all_passes:
  assumes "counts order"
  shows "test_list_hosts_returns_all order t1 t2 t3"
  unfolding test_list_hosts_returns_all_def length_list_hosts [OF assms] by code_simp

lemma test_clean_stale_hosts_passes:
  assumes "counts order"
  shows "test_clean_stale_hosts order t"
proof -
  define m where "m = ''aa:bb:cc:00:00:01''"
  define st where "st = update_host_status t m Polling (Some ''stale-host'') None None None new_store"
  have norm: "normalize_mac m = m" unfolding m_def by code_simp
  have stale: "\<not> retain_host (t + int (from_millis 50)) 0 h" if "hs_last_seen h = t" for h
    using that by (simp add: retain_host_def duration_since_def)
  have lookup: "fmlookup (ss_hosts st) k = (if k = m then Some (merged_host t Polling (Some ''stale-host'') None None None (blank_host m)) else None)" for k
    by (simp add: st_def store_simps norm store_full_def get_host_def new_store_def MAX_TRACKED_HOSTS_def)
  then have "fmlookup (ss_hosts (clean_stale_hosts (t + int (from_millis 50)) 0 st)) k = None" for k
    using stale [of "merged_host t Polling (Some ''stale-host'') None None None (blank_host m)"]
    by (simp add: store_simps merged_host_def)
  then have "ss_hosts (clean_stale_hosts (t + int (from_millis 50)) 0 st) = fmempty" by (intro fmap_ext) simp
  then show ?thesis
    unfolding test_clean_stale_hosts_def Let_def length_list_hosts [OF assms] m_def [symmetric] st_def [symmetric]
    by (simp add: get_host_def norm lookup)
qed

text \<open>The ceiling: the numbered addresses are pairwise different, so the table fills up.\<close>

lemma numbered_mac_format: "numbered_mac i = format_mac [2, 0, 0, 0, of_nat (i div 256 mod 256), of_nat (i mod 256)]"
proof -
  have "hex2 2 = ''02''" "hex2 0 = ''00''" by code_simp+
  then show ?thesis by (simp add: numbered_mac_def format_mac_def)
qed

lemma numbered_mac_inj:
  assumes "i < 4096" "j < 4096" "numbered_mac i = numbered_mac j"
  shows "i = j"
proof -
  have "[2, 0, 0, 0, of_nat (i div 256 mod 256), of_nat (i mod 256)] = ([2, 0, 0, 0, of_nat (j div 256 mod 256), of_nat (j mod 256)] :: u8 list)"
    using assms(3) by (intro format_mac_inj) (simp_all add: numbered_mac_format)
  then have "(of_nat (i div 256 mod 256) :: u8) = of_nat (j div 256 mod 256)" "(of_nat (i mod 256) :: u8) = of_nat (j mod 256)" by auto
  from this [THEN arg_cong [where f = unat]] have "i div 256 = j div 256" "i mod 256 = j mod 256"
    using assms(1,2) by (simp_all add: unat_of_nat del: of_nat_mod)
  then show ?thesis by (metis div_mult_mod_eq)
qed

lemma numbered_mac_valid: "is_valid_mac (numbered_mac i)"
  by (simp add: numbered_mac_format)

lemma touch_size:
  "fm_size (ss_hosts (touch now mac status st)) =
     (if fmlookup (ss_hosts st) (normalize_mac mac) = None \<and> fm_size (ss_hosts st) < MAX_TRACKED_HOSTS
      then Suc (fm_size (ss_hosts st)) else fm_size (ss_hosts st))"
  by (auto simp: touch_def update_host_status_def Let_def fm_size_upd)

lemma filled:
  "n \<le> 4096 \<Longrightarrow>
   (let st = fold (\<lambda>i. touch (t1 i) (numbered_mac i) Polling) [0..<n] new_store in
    fm_size (ss_hosts st) = n \<and> (\<forall>k. fmlookup (ss_hosts st) k \<noteq> None \<longleftrightarrow> k \<in> numbered_mac ` {0..<n}))"
proof (induction n)
  case 0
  show ?case by (simp add: new_store_def)
next
  case (Suc n)
  define st where "st = fold (\<lambda>i. touch (t1 i) (numbered_mac i) Polling) [0..<n] new_store"
  have IH: "fm_size (ss_hosts st) = n" "\<And>k. fmlookup (ss_hosts st) k \<noteq> None \<longleftrightarrow> k \<in> numbered_mac ` {0..<n}"
    using Suc by (simp_all add: st_def Let_def)
  have norm: "normalize_mac (numbered_mac n) = numbered_mac n" by (rule normalize_valid_mac [OF numbered_mac_valid])
  have "numbered_mac n \<notin> numbered_mac ` {0..<n}"
  proof
    assume "numbered_mac n \<in> numbered_mac ` {0..<n}"
    then obtain j where "j < n" "numbered_mac n = numbered_mac j" by auto
    with numbered_mac_inj [of n j] Suc.prems show False by simp
  qed
  then have fresh: "fmlookup (ss_hosts st) (numbered_mac n) = None" using IH(2) by blast
  have "fm_size (ss_hosts (touch (t1 n) (numbered_mac n) Polling st)) = Suc n"
    using Suc.prems by (simp add: touch_size norm fresh IH(1) MAX_TRACKED_HOSTS_def)
  moreover have "fmlookup (ss_hosts (touch (t1 n) (numbered_mac n) Polling st)) k \<noteq> None \<longleftrightarrow> k = numbered_mac n \<or> k \<in> numbered_mac ` {0..<n}" for k
    using Suc.prems IH by (simp add: touch_def store_simps norm store_full_def MAX_TRACKED_HOSTS_def)
  ultimately show ?case
    by (simp add: st_def [symmetric] Let_def atLeast0_lessThan_Suc)
qed

lemma test_max_tracked_hosts_ceiling_passes:
  assumes "counts order"
  shows "test_max_tracked_hosts_ceiling order t1 t2 t3"
proof -
  define st where "st = fold (\<lambda>i. touch (t1 i) (numbered_mac i) Polling) [0..<MAX_TRACKED_HOSTS] new_store"
  have full: "fm_size (ss_hosts st) = MAX_TRACKED_HOSTS" "\<And>k. fmlookup (ss_hosts st) k \<noteq> None \<longleftrightarrow> k \<in> numbered_mac ` {0..<MAX_TRACKED_HOSTS}"
    using filled [of 4096 t1] by (simp_all add: st_def Let_def MAX_TRACKED_HOSTS_def)
  have norm: "normalize_mac ''de:ad:be:ef:00:01'' = ''de:ad:be:ef:00:01''" "normalize_mac ''02:00:00:00:00:00'' = ''02:00:00:00:00:00''"
    by code_simp+
  have "''de:ad:be:ef:00:01'' \<noteq> numbered_mac i" for i by (simp add: numbered_mac_def)
  then have new: "fmlookup (ss_hosts st) ''de:ad:be:ef:00:01'' = None" using full(2) by blast
  have "''02:00:00:00:00:00'' = numbered_mac 0" by code_simp
  then have old: "fmlookup (ss_hosts st) ''02:00:00:00:00:00'' \<noteq> None"
    using full(2) by (auto simp: MAX_TRACKED_HOSTS_def)
  have st2: "touch t2 ''de:ad:be:ef:00:01'' Polling st = st"
    using new full(1) by (simp add: touch_def update_host_status_def norm)
  show ?thesis
    unfolding test_max_tracked_hosts_ceiling_def Let_def length_list_hosts [OF assms] st_def [symmetric] st2
    using new old full(1)
    by (auto simp: get_host_def norm touch_size) (simp add: touch_def store_simps norm store_full_def merged_host_def)
qed

section \<open>The configuration\<close>

text \<open>The YAML the tests share, with these hosts, and the result of loading it.\<close>

definition test_yaml :: "host_config list \<Rightarrow> yaml_config" where
  "test_yaml hosts =
     \<lparr>yc_http_bind = ''0.0.0.0:8080'', yc_tftp_bind = ''0.0.0.0:69'', yc_tftp_root = ''./tftpboot'',
      yc_proxy_dhcp_bind = ''0.0.0.0:4011'', yc_cache_dir = ''./cache'', yc_static_dir = Some ''./static'',
      yc_bootloader_amd64 = ''boot/x64/ipxe.efi'', yc_bootloader_arm64 = ''boot/arm64/ipxe.efi'', yc_bootloader_bios = None,
      yc_oled_enabled = None, yc_oled_brightness = None, yc_api_token = None, yc_max_artifact_bytes = None, yc_hosts = hosts\<rparr>"

definition test_host :: "string \<Rightarrow> string \<Rightarrow> string \<Rightarrow> host_config" where
  "test_host mac name img =
     \<lparr>hc_mac = mac, hc_name = name, hc_image_path = img, hc_bootloader = None, hc_kernel_path = None,
      hc_initrd_path = None, hc_cmdline = None\<rparr>"

definition load_yaml :: "yaml_config \<Rightarrow> core_error + config" where
  "load_yaml y = load_config (\<lambda>_. Some y) (Inr ''yaml'')"

definition found_name :: "config \<Rightarrow> string \<Rightarrow> string option" where
  "found_name config mac = map_option hc_name (find_host config mac)"

definition test_config_load_and_normalization :: bool where
  "test_config_load_and_normalization \<longleftrightarrow>
     (case load_yaml (test_yaml [test_host ''52-54-00-10-10-10'' ''test-host'' ''/tmp/nixos.iso'']) of
        Inr config \<Rightarrow>
          sc_http_bind (cf_server config) = ''0.0.0.0:8080'' \<and> length (cf_hosts config) = 1
          \<and> hc_mac (cf_hosts config ! 0) = ''52:54:00:10:10:10''
          \<and> found_name config ''52:54:00:10:10:10'' = Some ''test-host''
          \<and> found_name config ''52-54-00-10-10-10'' = Some ''test-host''
      | Inl _ \<Rightarrow> False)"

definition test_config_load_missing_file :: bool where
  "test_config_load_missing_file \<longleftrightarrow> \<not> is_ok (load_config (\<lambda>_. None) (Inl NotFound))"

definition test_config_load_invalid_yaml :: bool where
  "test_config_load_invalid_yaml \<longleftrightarrow> \<not> is_ok (load_config (\<lambda>_. None) (Inr ''{{{{not valid yaml at all::::''))"

definition test_find_host_not_found :: bool where
  "test_find_host_not_found \<longleftrightarrow>
     (case load_yaml (test_yaml [test_host ''52:54:00:10:10:10'' ''test-host'' ''/tmp/nixos.iso'']) of
        Inr config \<Rightarrow> find_host config ''ff:ff:ff:ff:ff:ff'' = None
      | Inl _ \<Rightarrow> False)"

definition test_find_host_case_insensitive :: bool where
  "test_find_host_case_insensitive \<longleftrightarrow>
     (case load_yaml (test_yaml [test_host ''aa:bb:cc:dd:ee:ff'' ''lower-host'' ''/tmp/nixos.iso'']) of
        Inr config \<Rightarrow> found_name config ''AA:BB:CC:DD:EE:FF'' = Some ''lower-host''
      | Inl _ \<Rightarrow> False)"

definition test_config_empty_hosts :: bool where
  "test_config_empty_hosts \<longleftrightarrow>
     (case load_yaml (test_yaml []) of
        Inr config \<Rightarrow> length (cf_hosts config) = 0 \<and> find_host config ''aa:bb:cc:dd:ee:ff'' = None
      | Inl _ \<Rightarrow> False)"

definition test_config_multiple_hosts :: bool where
  "test_config_multiple_hosts \<longleftrightarrow>
     (case load_yaml (test_yaml [test_host ''11:22:33:44:55:01'' ''host-alpha'' ''/tmp/alpha.iso'',
                                 test_host ''11:22:33:44:55:02'' ''host-beta'' ''/tmp/beta.iso'',
                                 test_host ''11:22:33:44:55:03'' ''host-gamma'' ''/tmp/gamma.iso'']) of
        Inr config \<Rightarrow>
          length (cf_hosts config) = 3
          \<and> found_name config ''11:22:33:44:55:01'' = Some ''host-alpha''
          \<and> found_name config ''11:22:33:44:55:02'' = Some ''host-beta''
          \<and> found_name config ''11:22:33:44:55:03'' = Some ''host-gamma''
      | Inl _ \<Rightarrow> False)"

text \<open>The addresses and bootloaders of the tests are fine, so what is left to check is the hosts.\<close>

lemma test_addrs:
  "parse_socket_addr ''0.0.0.0:8080'' \<noteq> None" "parse_socket_addr ''0.0.0.0:69'' \<noteq> None"
  "parse_socket_addr ''0.0.0.0:4011'' \<noteq> None" "parse_socket_addr ''localhost'' = None"
  "parse_socket_addr ''0.0.0.0:69 '' = None" "parse_socket_addr ''not-an-addr'' = None"
  by (simp_all add: parse_eval read_octets_numeral read_groups_numeral)

lemma test_bootloaders: "trim ''boot/x64/ipxe.efi'' \<noteq> []" "trim ''boot/arm64/ipxe.efi'' \<noteq> []" "trim ''boot/x64/undionly.kpxe'' \<noteq> []"
  by code_simp+

lemma load_yaml_hosts:
  "load_yaml (test_yaml hosts) =
     (case check_hosts [] [] (map (\<lambda>h. h\<lparr>hc_mac := normalize_mac (hc_mac h)\<rparr>) hosts) of
        Inl e \<Rightarrow> Inl e | Inr _ \<Rightarrow> Inr (normalize_hosts (fill_defaults (test_yaml hosts))))"
  by (simp add: load_yaml_def load_config_def validate_def normalize_hosts_def fill_defaults_def test_yaml_def or_default_def
      default_bootloader_bios_def test_addrs test_bootloaders Let_def split: sum.split)

lemma load_tests_pass:
  "test_config_load_and_normalization" "test_find_host_not_found" "test_find_host_case_insensitive" "test_config_empty_hosts"
  "test_config_multiple_hosts"
  unfolding test_config_load_and_normalization_def test_find_host_not_found_def test_find_host_case_insensitive_def
    test_config_empty_hosts_def test_config_multiple_hosts_def load_yaml_hosts
  by code_simp+

lemma failed_load_tests_pass: "test_config_load_missing_file" "test_config_load_invalid_yaml"
  by code_simp+

section \<open>Validation\<close>

definition test_valid_config :: config where
  "test_valid_config =
     \<lparr>cf_server =
        \<lparr>sc_http_bind = ''0.0.0.0:8080'', sc_tftp_bind = ''0.0.0.0:69'', sc_tftp_root = ''./tftpboot'',
         sc_proxy_dhcp_bind = ''0.0.0.0:4011'', sc_cache_dir = ''./cache'', sc_static_dir = ''./static'',
         sc_bootloader_amd64 = ''boot/x64/ipxe.efi'', sc_bootloader_arm64 = ''boot/arm64/ipxe.efi'',
         sc_bootloader_bios = ''boot/x64/undionly.kpxe'', sc_oled_enabled = True, sc_oled_brightness = 255, sc_api_token = None,
         sc_max_artifact_bytes = None\<rparr>,
      cf_hosts = [test_host ''aa:bb:cc:dd:ee:01'' ''host-a'' ''/tmp/x.iso'', test_host ''aa:bb:cc:dd:ee:02'' ''host-b'' ''/tmp/x.iso'']\<rparr>"

definition with_server :: "(server_config \<Rightarrow> server_config) \<Rightarrow> config" where
  "with_server change = test_valid_config\<lparr>cf_server := change (cf_server test_valid_config)\<rparr>"

definition with_host :: "nat \<Rightarrow> (host_config \<Rightarrow> host_config) \<Rightarrow> config" where
  "with_host i change =
     test_valid_config\<lparr>cf_hosts := (cf_hosts test_valid_config)[i := change (cf_hosts test_valid_config ! i)]\<rparr>"

definition assert_invalid :: "(string \<Rightarrow> string) \<Rightarrow> config \<Rightarrow> string \<Rightarrow> bool" where
  "assert_invalid debug cfg needle =
     (case validate cfg of Inl (InvalidConfig p) \<Rightarrow> sublist needle (problem_message debug p) | _ \<Rightarrow> False)"

definition validate_accepts_a_good_config :: bool where
  "validate_accepts_a_good_config \<longleftrightarrow> is_ok (validate test_valid_config) \<and> is_ok (validate (test_valid_config\<lparr>cf_hosts := []\<rparr>))"

definition validate_rejects_bad_bind_address :: "(string \<Rightarrow> string) \<Rightarrow> bool" where
  "validate_rejects_bad_bind_address debug \<longleftrightarrow>
     assert_invalid debug (with_server (\<lambda>s. s\<lparr>sc_http_bind := ''localhost''\<rparr>)) ''http_bind''
     \<and> assert_invalid debug (with_server (\<lambda>s. s\<lparr>sc_tftp_bind := ''0.0.0.0:69 ''\<rparr>)) ''tftp_bind''
     \<and> assert_invalid debug (with_server (\<lambda>s. s\<lparr>sc_proxy_dhcp_bind := ''not-an-addr''\<rparr>)) ''proxy_dhcp_bind''"

definition validate_rejects_malformed_mac :: "(string \<Rightarrow> string) \<Rightarrow> bool" where
  "validate_rejects_malformed_mac debug \<longleftrightarrow>
     assert_invalid debug (with_host 0 (\<lambda>h. h\<lparr>hc_mac := ''zz:bb:cc:dd:ee:ff''\<rparr>)) ''invalid MAC''"

definition validate_rejects_duplicate_mac :: "(string \<Rightarrow> string) \<Rightarrow> bool" where
  "validate_rejects_duplicate_mac debug \<longleftrightarrow>
     assert_invalid debug (with_host 1 (\<lambda>h. h\<lparr>hc_mac := hc_mac (cf_hosts test_valid_config ! 0)\<rparr>)) ''duplicate host MAC''"

definition validate_rejects_duplicate_name :: "(string \<Rightarrow> string) \<Rightarrow> bool" where
  "validate_rejects_duplicate_name debug \<longleftrightarrow>
     assert_invalid debug (with_host 1 (\<lambda>h. h\<lparr>hc_name := hc_name (cf_hosts test_valid_config ! 0)\<rparr>)) ''duplicate host name''"

definition validate_rejects_empty_bootloader :: "(string \<Rightarrow> string) \<Rightarrow> bool" where
  "validate_rejects_empty_bootloader debug \<longleftrightarrow>
     assert_invalid debug (with_server (\<lambda>s. s\<lparr>sc_bootloader_amd64 := []\<rparr>)) ''default_bootloader_amd64''
     \<and> assert_invalid debug (with_server (\<lambda>s. s\<lparr>sc_bootloader_arm64 := ''   ''\<rparr>)) ''default_bootloader_arm64''"

definition validate_rejects_empty_api_token :: "(string \<Rightarrow> string) \<Rightarrow> bool" where
  "validate_rejects_empty_api_token debug \<longleftrightarrow>
     assert_invalid debug (with_server (\<lambda>s. s\<lparr>sc_api_token := Some []\<rparr>)) ''api_token''
     \<and> is_ok (validate (with_server (\<lambda>s. s\<lparr>sc_api_token := Some ''s3cr3t''\<rparr>)))"

definition validate_rejects_empty_host_name :: "(string \<Rightarrow> string) \<Rightarrow> bool" where
  "validate_rejects_empty_host_name debug \<longleftrightarrow>
     assert_invalid debug (with_host 0 (\<lambda>h. h\<lparr>hc_name := []\<rparr>)) ''empty name''"

lemma problem_mentions:
  "sublist field (problem_message debug (BadBind field v))"
  "sublist field (problem_message debug (EmptyBootloader field))"
  "sublist ''api_token'' (problem_message debug EmptyToken)"
  "sublist ''invalid MAC'' (problem_message debug (InvalidHostMac name mac))"
  "sublist ''duplicate host MAC'' (problem_message debug (DuplicateMac mac))"
  "sublist ''duplicate host name'' (problem_message debug (DuplicateName name))"
  "sublist ''empty name'' (problem_message debug EmptyHostName)"
proof -
  show "sublist field (problem_message debug (BadBind field v))" "sublist field (problem_message debug (EmptyBootloader field))"
    unfolding problem_message_def config_problem.case by (rule sublist_appendI)+
  show "sublist ''api_token'' (problem_message debug EmptyToken)"
    using sublist_appendI [of "''api_token''" "''server.''" "'' is set but empty; unset it to disable auth or provide a real secret''"]
    by (simp add: problem_message_def)
  show "sublist ''invalid MAC'' (problem_message debug (InvalidHostMac name mac))"
    using sublist_appendI [of "''invalid MAC''" "''host '' @ debug name @ '' has an ''" "'' address '' @ debug mac @ '' (expected aa:bb:cc:dd:ee:ff)''"]
    by (simp add: problem_message_def)
  show "sublist ''duplicate host MAC'' (problem_message debug (DuplicateMac mac))"
    using sublist_appendI [of "''duplicate host MAC''" "[]" "'' '' @ debug mac @ '' (each host MAC must be unique)''"]
    by (simp add: problem_message_def)
  show "sublist ''duplicate host name'' (problem_message debug (DuplicateName name))"
    using sublist_appendI [of "''duplicate host name''" "[]" "'' '' @ debug name @ '' (each host name must be unique)''"]
    by (simp add: problem_message_def)
  show "sublist ''empty name'' (problem_message debug EmptyHostName)"
    using sublist_appendI [of "''empty name''" "''a host has an ''" "[]"] by (simp add: problem_message_def)
qed

text \<open>What the tests evaluate of the strings they use.\<close>

lemma test_strings:
  "is_valid_mac ''aa:bb:cc:dd:ee:01''" "is_valid_mac ''aa:bb:cc:dd:ee:02''" "\<not> is_valid_mac ''zz:bb:cc:dd:ee:ff''"
  "trim ''host-a'' \<noteq> []" "trim ''host-b'' \<noteq> []" "trim ''   '' = []" "trim [] = []"
  by code_simp+

lemmas validate_test_defs =
  assert_invalid_def with_server_def with_host_def test_valid_config_def test_host_def validate_def test_addrs test_bootloaders test_strings

lemma validate_tests_pass:
  "validate_accepts_a_good_config" "validate_rejects_bad_bind_address debug" "validate_rejects_malformed_mac debug"
  "validate_rejects_duplicate_mac debug" "validate_rejects_duplicate_name debug" "validate_rejects_empty_bootloader debug"
  "validate_rejects_empty_api_token debug" "validate_rejects_empty_host_name debug"
  by (simp_all add: validate_accepts_a_good_config_def validate_rejects_bad_bind_address_def validate_rejects_malformed_mac_def
      validate_rejects_duplicate_mac_def validate_rejects_duplicate_name_def validate_rejects_empty_bootloader_def
      validate_rejects_empty_api_token_def validate_rejects_empty_host_name_def validate_test_defs problem_mentions)

section \<open>Reloads\<close>

definition minimal_yaml :: "string \<Rightarrow> yaml_config" where
  "minimal_yaml mac = test_yaml [test_host mac ''watch-host'' ''/tmp/x.iso'']"

text \<open>The first configuration handed over whose first host has the expected MAC.\<close>

definition wait_for_mac :: "config list \<Rightarrow> string \<Rightarrow> config option" where
  "wait_for_mac reloads expected =
     List.find (\<lambda>c. (case cf_hosts c of h # _ \<Rightarrow> Some (hc_mac h) | [] \<Rightarrow> None) = Some expected) reloads"

text \<open>The file holds the YAML of a MAC as its name; the watcher reports these events and then keeps quiet.\<close>

definition watch_test :: "notify_event list \<Rightarrow> string \<Rightarrow> bool" where
  "watch_test events mac =
     (case watch_config (\<lambda>text. Some (minimal_yaml text)) True (\<lambda>_. True) ''/tmp/t/bootycall.yaml''
             (map (\<lambda>e. Message (Inr e)) events @ [Quiet (Some (Inr mac))]) of
        Inr (_, reloads) \<Rightarrow>
          (case wait_for_mac reloads mac of Some c \<Rightarrow> hc_mac (cf_hosts c ! 0) = mac | None \<Rightarrow> False)
      | Inl _ \<Rightarrow> False)"

definition test_watch_reload_on_atomic_replace :: bool where
  "test_watch_reload_on_atomic_replace \<longleftrightarrow>
     watch_test
       [\<lparr>ev_kind = Create, ev_paths = [''/tmp/t/bootycall.yaml.tmp'']\<rparr>, \<lparr>ev_kind = Modify, ev_paths = [''/tmp/t/bootycall.yaml.tmp'']\<rparr>,
        \<lparr>ev_kind = Modify, ev_paths = [''/tmp/t/bootycall.yaml.tmp'', ''/tmp/t/bootycall.yaml'']\<rparr>] ''bb:bb:bb:bb:bb:bb''"

definition test_watch_reload_on_in_place_write :: bool where
  "test_watch_reload_on_in_place_write \<longleftrightarrow>
     watch_test [\<lparr>ev_kind = Modify, ev_paths = [''/tmp/t/bootycall.yaml'']\<rparr>, \<lparr>ev_kind = Access, ev_paths = [''/tmp/t/bootycall.yaml'']\<rparr>]
       ''cc:cc:cc:cc:cc:cc''"

lemma watch_tests_pass: "test_watch_reload_on_atomic_replace" "test_watch_reload_on_in_place_write"
proof -
  have names: "snd (watch_target ''/tmp/t/bootycall.yaml'') = Some ''bootycall.yaml''"
      "file_name ''/tmp/t/bootycall.yaml'' = Some ''bootycall.yaml''" "file_name ''/tmp/t/bootycall.yaml.tmp'' = Some ''bootycall.yaml.tmp''"
    by code_simp+
  have load: "load_config (\<lambda>text. Some (minimal_yaml text)) (Inr mac) = load_yaml (minimal_yaml mac)" for mac
    by (simp add: load_yaml_def load_config_def)
  have loaded: "load_yaml (minimal_yaml mac) = Inr (normalize_hosts (fill_defaults (minimal_yaml mac)))"
    if "is_valid_mac mac" for mac
  proof -
    have "trim ''watch-host'' \<noteq> []" by code_simp
    with that show ?thesis by (simp add: minimal_yaml_def load_yaml_hosts test_host_def normalize_valid_mac)
  qed
  have macs: "is_valid_mac ''bb:bb:bb:bb:bb:bb''" "is_valid_mac ''cc:cc:cc:cc:cc:cc''" by code_simp+
  have first: "cf_hosts (normalize_hosts (fill_defaults (minimal_yaml mac))) = [test_host mac ''watch-host'' ''/tmp/x.iso'']"
    if "is_valid_mac mac" for mac
    using that by (simp add: normalize_hosts_def fill_defaults_def minimal_yaml_def test_yaml_def test_host_def normalize_valid_mac)
  show "test_watch_reload_on_atomic_replace" "test_watch_reload_on_in_place_write"
    using names macs
    by (simp_all add: test_watch_reload_on_atomic_replace_def test_watch_reload_on_in_place_write_def watch_test_def watch_config_def
        event_targets_config_def load loaded first wait_for_mac_def test_host_def split_beta)
qed

end
