(* ===== verification/Tests_Dhcp.thy ===== *)
theory Tests_Dhcp
  imports Dhcp Tests_Core
begin

text \<open>
  The unit tests of \<^verbatim>\<open>crates/bootycall-dhcp/src/server.rs\<close> and the exchanges of
  \<^verbatim>\<open>crates/bootycall-dhcp/tests/dhcp_tests.rs\<close>, run on the model. In an exchange the client
  encodes its message, the server makes one pass, and the client decodes what is sent to its
  own address. The codec is any one that encodes a message with options of at most 255 bytes
  into a datagram the server reads whole, and decodes it again.
\<close>

definition fits :: "bytes option \<Rightarrow> bool" where
  "fits v = pred_option (\<lambda>bs. length bs \<le> 255) v"

definition small_message :: "dhcp_message \<Rightarrow> bool" where
  "small_message m \<longleftrightarrow>
     list_all (\<lambda>ip. length ip = 4) [dm_ciaddr m, dm_yiaddr m, dm_siaddr m, dm_giaddr m] \<and> length (dm_chaddr m) \<le> 16
     \<and> pred_option (\<lambda>ip. length ip = 4) (op_server_id (dm_opts m)) \<and> fits (op_class_id (dm_opts m))
     \<and> fits (op_client_id (dm_opts m)) \<and> fits (op_tftp_server (dm_opts m)) \<and> fits (op_bootfile (dm_opts m))"

definition codec :: "(bytes \<Rightarrow> dhcp_message option) \<Rightarrow> (dhcp_message \<Rightarrow> bytes option) \<Rightarrow> bool" where
  "codec decode encode \<longleftrightarrow>
     (\<forall>m. small_message m \<longrightarrow> (\<exists>bs. encode m = Some bs \<and> length bs \<le> 1500 \<and> decode bs = Some m))"

text \<open>The clients and the server run on one machine.\<close>

definition on_loopback :: "(ipv4 \<Rightarrow> ip_addr option) \<Rightarrow> bool" where
  "on_loopback probe \<longleftrightarrow> probe [127, 0, 0, 1] = Some (V4 [127, 0, 0, 1])"

section \<open>Boot loader and destination\<close>

definition server_with_bootloaders :: "string \<Rightarrow> string \<Rightarrow> string \<Rightarrow> server_config" where
  "server_with_bootloaders amd64 arm64 bios =
     \<lparr>sc_http_bind = ''0.0.0.0:8080'', sc_tftp_bind = ''0.0.0.0:69'', sc_tftp_root = ''./tftpboot'',
      sc_proxy_dhcp_bind = ''0.0.0.0:4011'', sc_cache_dir = ''./cache'', sc_static_dir = ''./static'',
      sc_bootloader_amd64 = amd64, sc_bootloader_arm64 = arm64, sc_bootloader_bios = bios,
      sc_oled_enabled = False, sc_oled_brightness = 255, sc_api_token = None, sc_max_artifact_bytes = None\<rparr>"

text \<open>The codes of X64 and BC are those of the codec; they are not those of ARM64 and BIOS.\<close>

definition bootloader_selection_routes_arch_to_the_right_default :: "u16 \<Rightarrow> u16 \<Rightarrow> bool" where
  "bootloader_selection_routes_arch_to_the_right_default x64 bc \<longleftrightarrow>
     (let server = server_with_bootloaders ''amd64.efi'' ''arm64.efi'' ''bios.kpxe''
      in select_default_bootloader server (Some ARCH_BIOS_X86) = ''bios.kpxe''
         \<and> select_default_bootloader server (Some ARCH_ARM64) = ''arm64.efi''
         \<and> select_default_bootloader server (Some x64) = ''amd64.efi''
         \<and> select_default_bootloader server (Some bc) = ''amd64.efi''
         \<and> select_default_bootloader server None = ''amd64.efi'')"

definition other_code :: "u16 \<Rightarrow> bool" where
  "other_code a \<longleftrightarrow> a \<noteq> ARCH_ARM64 \<and> a \<noteq> ARCH_BIOS_X86"

lemma bootloader_test_passes:
  "other_code x64 \<Longrightarrow> other_code bc \<Longrightarrow> bootloader_selection_routes_arch_to_the_right_default x64 bc"
  by (simp add: bootloader_selection_routes_arch_to_the_right_default_def select_default_bootloader_def
      server_with_bootloaders_def other_code_def ARCH_ARM64_def ARCH_BIOS_X86_def)

definition broadcast_flag_forces_a_broadcast_reply :: bool where
  "broadcast_flag_forces_a_broadcast_reply \<longleftrightarrow>
     choose_reply_dest PXE_PROXY_PORT (SocketAddr (V4 [192, 0, 2, 10]) 4011) unspecified unspecified True
       = SocketAddr (V4 broadcast_ip) PXE_PROXY_PORT
     \<and> choose_reply_dest DHCP_SERVER_PORT (SocketAddr (V4 [192, 0, 2, 10]) 68) unspecified unspecified True
       = SocketAddr (V4 broadcast_ip) DHCP_CLIENT_PORT"

definition broadcast_flag_yields_to_a_relay :: bool where
  "broadcast_flag_yields_to_a_relay \<longleftrightarrow>
     (let relay = [192, 0, 2, 1]
      in choose_reply_dest DHCP_SERVER_PORT (SocketAddr (V4 [192, 0, 2, 10]) 67) relay unspecified True
         = SocketAddr (V4 relay) DHCP_SERVER_PORT)"

definition unicast_paths_are_unchanged_when_the_flag_is_clear :: bool where
  "unicast_paths_are_unchanged_when_the_flag_is_clear \<longleftrightarrow>
     (let src = SocketAddr (V4 [192, 0, 2, 10]) 4011; ciaddr = [192, 0, 2, 20]
      in choose_reply_dest PXE_PROXY_PORT src unspecified [192, 0, 2, 10] False = src
         \<and> choose_reply_dest DHCP_SERVER_PORT src unspecified ciaddr False = SocketAddr (V4 ciaddr) DHCP_CLIENT_PORT)"

lemma destination_tests_pass:
  "broadcast_flag_forces_a_broadcast_reply" "broadcast_flag_yields_to_a_relay"
  "unicast_paths_are_unchanged_when_the_flag_is_clear"
  by code_simp+

section \<open>Exchanges\<close>

text \<open>The message a test builds on the default one, whose transaction is random.\<close>

definition client_message :: "u32 \<Rightarrow> bytes \<Rightarrow> message_type \<Rightarrow> u16 option \<Rightarrow> bool \<Rightarrow> dhcp_message" where
  "client_message xid chaddr kind arch pxe =
     \<lparr>dm_opcode = BootRequest, dm_xid = xid, dm_flags = \<lparr>fl_broadcast = False, fl_reserved = 0\<rparr>,
      dm_ciaddr = [127, 0, 0, 1], dm_yiaddr = unspecified, dm_siaddr = unspecified, dm_giaddr = unspecified,
      dm_chaddr = chaddr,
      dm_opts = no_options\<lparr>op_msg_type := Some kind, op_architecture := arch,
                           op_class_id := (if pxe then Some (as_bytes ''PXEClient'') else None)\<rparr>\<rparr>"

text \<open>The store after one pass, and what the client on the next port gets before its timeout.\<close>

definition dhcp_exchange ::
  "(bytes \<Rightarrow> dhcp_message option) \<Rightarrow> (dhcp_message \<Rightarrow> bytes option) \<Rightarrow> u16 \<Rightarrow> u16 \<Rightarrow> (ipv4 \<Rightarrow> ip_addr option) \<Rightarrow> int
   \<Rightarrow> nat \<Rightarrow> config \<Rightarrow> dhcp_message \<Rightarrow> state_store \<times> dhcp_message option" where
  "dhcp_exchange decode encode x64 bc probe now port config msg =
     (case encode msg of
        None \<Rightarrow> (new_store, None)
      | Some request \<Rightarrow>
          (let client = SocketAddr (V4 [127, 0, 0, 1]) (port + 1);
               (ops, reply) = dhcp_step decode encode x64 bc probe (Inr (SocketAddr (V4 [127, 0, 0, 1]) port)) config request client
           in (apply_ops now ops new_store,
               (case reply of Some (response, dest) \<Rightarrow> if dest = client then decode response else None | None \<Rightarrow> None))))"

definition no_hosts :: "string \<Rightarrow> config" where
  "no_hosts bios = \<lparr>cf_server = server_with_bootloaders ''boot/x64/ipxe.efi'' ''boot/arm64/ipxe.efi'' bios, cf_hosts = []\<rparr>"

definition served :: "string \<Rightarrow> state_store \<times> dhcp_message option \<Rightarrow> bool" where
  "served boot run \<longleftrightarrow> (case snd run of Some response \<Rightarrow> op_bootfile (dm_opts response) = Some (as_bytes boot) | None \<Rightarrow> False)"

definition recorded :: "string \<Rightarrow> (host_state \<Rightarrow> bool) \<Rightarrow> state_store \<times> dhcp_message option \<Rightarrow> bool" where
  "recorded mac P run \<longleftrightarrow> (case get_host mac (fst run) of Some h \<Rightarrow> P h | None \<Rightarrow> False)"

definition test_dhcp_server_redirection ::
  "(nat \<Rightarrow> config \<Rightarrow> dhcp_message \<Rightarrow> state_store \<times> dhcp_message option) \<Rightarrow> u32 \<Rightarrow> u16 \<Rightarrow> bool" where
  "test_dhcp_server_redirection exchange xid x64 \<longleftrightarrow>
     (let host = (test_host ''00:11:22:33:44:55'' ''test-host'' ''/tmp/test.iso'')\<lparr>hc_bootloader := Some ''boot/special.efi''\<rparr>;
          run = exchange 24011 ((no_hosts ''boot/x64/undionly.kpxe'')\<lparr>cf_hosts := [host]\<rparr>)
                  (client_message xid [0x00, 0x11, 0x22, 0x33, 0x44, 0x55] Inform (Some x64) True)
      in served ''boot/special.efi'' run
         \<and> (case snd run of
              Some response \<Rightarrow> dm_opcode response = BootReply \<and> op_msg_type (dm_opts response) = Some Ack
            | None \<Rightarrow> False)
         \<and> recorded ''00:11:22:33:44:55''
             (\<lambda>h. hs_status h = Polling \<and> hs_name h = Some ''test-host'' \<and> hs_architecture h = Some ''x86_64'') run)"

definition test_dhcp_server_ignores_non_pxe_client ::
  "(nat \<Rightarrow> config \<Rightarrow> dhcp_message \<Rightarrow> state_store \<times> dhcp_message option) \<Rightarrow> u32 \<Rightarrow> bool" where
  "test_dhcp_server_ignores_non_pxe_client exchange xid \<longleftrightarrow>
     snd (exchange 24021 (no_hosts ''boot/x64/undionly.kpxe'')
            (client_message xid [0xaa, 0xbb, 0xcc, 0xdd, 0xee, 0xff] Discover None False)) = None"

definition test_dhcp_server_handles_arm64_arch ::
  "(nat \<Rightarrow> config \<Rightarrow> dhcp_message \<Rightarrow> state_store \<times> dhcp_message option) \<Rightarrow> u32 \<Rightarrow> bool" where
  "test_dhcp_server_handles_arm64_arch exchange xid \<longleftrightarrow>
     (let run = exchange 24031 (no_hosts ''boot/x64/undionly.kpxe'')
                  (client_message xid [0x00, 0xaa, 0xbb, 0xcc, 0xdd, 0xee] Inform (Some 11) True)
      in served ''boot/arm64/ipxe.efi'' run
         \<and> recorded ''00:aa:bb:cc:dd:ee'' (\<lambda>h. hs_architecture h = Some ''aarch64'') run)"

definition test_dhcp_arch0_serves_bios_bootloader ::
  "(nat \<Rightarrow> config \<Rightarrow> dhcp_message \<Rightarrow> state_store \<times> dhcp_message option) \<Rightarrow> u32 \<Rightarrow> bool" where
  "test_dhcp_arch0_serves_bios_bootloader exchange xid \<longleftrightarrow>
     (let run = exchange 24041 (no_hosts ''boot/bios/undionly.kpxe'')
                  (client_message xid [0x02, 0x00, 0x00, 0x00, 0x00, 0x01] Inform (Some 0) True)
      in served ''boot/bios/undionly.kpxe'' run
         \<and> recorded ''02:00:00:00:00:01'' (\<lambda>h. hs_architecture h = Some ''x86 (BIOS)'') run)"

definition test_dhcp_ignores_release_message ::
  "(nat \<Rightarrow> config \<Rightarrow> dhcp_message \<Rightarrow> state_store \<times> dhcp_message option) \<Rightarrow> u32 \<Rightarrow> u16 \<Rightarrow> bool" where
  "test_dhcp_ignores_release_message exchange xid x64 \<longleftrightarrow>
     snd (exchange 24051 (no_hosts ''boot/x64/undionly.kpxe'')
            (client_message xid [0x02, 0x00, 0x00, 0x00, 0x00, 0x02] Release (Some x64) True)) = None"

text \<open>What an exchange off the server port comes to: the reply goes back to the client.\<close>

lemma small_client_message: "length chaddr = 6 \<Longrightarrow> small_message (client_message xid chaddr kind arch pxe)"
  by (simp add: small_message_def client_message_def no_options_def fits_def unspecified_def as_bytes_def)

lemma small_reply:
  "length chaddr = 6 \<Longrightarrow> length boot \<le> 255 \<Longrightarrow>
   small_message (make_reply (client_message xid chaddr kind arch pxe) t [127, 0, 0, 1] boot)"
proof -
  have "length (ipv4_to_string [127, 0, 0, 1]) \<le> 255" by code_simp
  then show "length chaddr = 6 \<Longrightarrow> length boot \<le> 255 \<Longrightarrow> ?thesis"
    by (simp add: small_message_def make_reply_def client_message_def no_options_def fits_def unspecified_def as_bytes_def)
qed

lemma exchange_eq:
  fixes msg :: dhcp_message
  assumes "codec decode encode" "on_loopback probe" "port \<noteq> DHCP_SERVER_PORT"
    and "msg = client_message xid chaddr kind arch pxe" "length chaddr = 6"
    and "length (bootloader_for config (format_mac chaddr) arch) \<le> 255"
  shows "dhcp_exchange decode encode x64 bc probe now port config msg =
    (case (if pxe then response_type (Some kind) else None) of
       None \<Rightarrow> (new_store, None)
     | Some t \<Rightarrow>
         (let mac = format_mac chaddr; boot = bootloader_for config mac arch
          in (apply_ops now (dhcp_ops config mac (ipv4_to_string [127, 0, 0, 1]) (arch_name x64 bc arch) boot [127, 0, 0, 1]) new_store,
              Some (make_reply msg t [127, 0, 0, 1] boot))))"
proof -
  have "small_message msg" unfolding assms(4) using assms(5) by (rule small_client_message)
  then obtain bs where bs: "encode msg = Some bs" "length bs \<le> 1500" "decode bs = Some msg"
    using assms(1) by (auto simp: codec_def)
  have pxe: "is_pxe_client msg \<longleftrightarrow> pxe" by (simp add: is_pxe_client_iff assms(4) client_message_def no_options_def)
  have fields: "dm_chaddr msg = chaddr" "op_msg_type (dm_opts msg) = Some kind" "op_architecture (dm_opts msg) = arch"
    "dm_ciaddr msg = [127, 0, 0, 1]" "\<not> fl_broadcast (dm_flags msg)"
    by (simp_all add: assms(4) client_message_def no_options_def)
  have req: "pxe_request decode bs = map_option (Pair msg) (if pxe then response_type (Some kind) else None)"
    using bs(2,3) pxe fields assms(5) by (simp add: pxe_request_def)
  have our_ip: "resolve_local_ip probe msg addr = [127, 0, 0, 1]" for addr
    using assms(2) fields(4)
    by (simp add: resolve_local_ip_def probe_if_set_def get_local_ip_for_target_def on_loopback_def unspecified_def)
  show ?thesis
  proof (cases "if pxe then response_type (Some kind) else None")
    case None
    with req bs(1) show ?thesis by (simp add: dhcp_exchange_def dhcp_step_eq apply_ops_def split: if_splits)
  next
    case (Some t)
    define reply where "reply = make_reply msg t [127, 0, 0, 1] (bootloader_for config (format_mac chaddr) arch)"
    have "small_message reply" unfolding reply_def assms(4) using assms(5,6) by (rule small_reply)
    then obtain rs where rs: "encode reply = Some rs" "decode rs = Some reply" using assms(1) by (auto simp: codec_def)
    have dest: "choose_reply_dest port src giaddr ciaddr False = src" for src giaddr ciaddr
      using assms(3) by (simp add: choose_reply_dest_def)
    have ip: "client_ip_of msg src = [127, 0, 0, 1]" for src by (simp add: client_ip_of_def fields unspecified_def)
    show ?thesis
      using Some req bs(1) rs dest
      by (simp add: dhcp_exchange_def dhcp_step_eq Let_def fields ip our_ip assms(5) reply_def [symmetric] addr_port_def split: if_splits)
  qed
qed

lemma get_offered:
  "is_valid_mac mac \<Longrightarrow>
   get_host mac (apply_ops now (dhcp_ops config mac ip arch boot our_ip) new_store)
   = Some \<lparr>hs_mac = mac, hs_name = map_option hc_name (find_host config mac), hs_status = Polling,
           hs_assigned_target = None, hs_last_seen = now, hs_client_ip = Some ip, hs_architecture = Some arch\<rparr>"
  by (simp add: get_host_def apply_ops_def dhcp_ops_def update_host_status_def log_event_def new_store_def
      normalize_valid_mac MAX_TRACKED_HOSTS_def Let_def)

lemma make_reply_simps:
  "dm_opcode (make_reply msg t our_ip boot) = BootReply" "op_msg_type (dm_opts (make_reply msg t our_ip boot)) = Some t"
  "op_bootfile (dm_opts (make_reply msg t our_ip boot)) = Some (as_bytes boot)"
  by (simp_all add: make_reply_def no_options_def)

lemma chaddr_macs:
  "format_mac [0x00, 0x11, 0x22, 0x33, 0x44, 0x55] = ''00:11:22:33:44:55''"
  "format_mac [0x00, 0xaa, 0xbb, 0xcc, 0xdd, 0xee] = ''00:aa:bb:cc:dd:ee''"
  "format_mac [0x02, 0x00, 0x00, 0x00, 0x00, 0x01] = ''02:00:00:00:00:01''"
  "is_valid_mac ''00:11:22:33:44:55''" "is_valid_mac ''00:aa:bb:cc:dd:ee''" "is_valid_mac ''02:00:00:00:00:01''"
  by code_simp+

lemma no_hosts_boot:
  "bootloader_for (no_hosts bios) mac arch = select_default_bootloader (cf_server (no_hosts bios)) arch"
  "find_host ((no_hosts bios)\<lparr>cf_hosts := [h]\<rparr>) (hc_mac h) = Some h \<longleftrightarrow> normalize_mac (hc_mac h) = hc_mac h"
  by (auto simp: bootloader_for_def find_host_def no_hosts_def)

lemma exchange_tests_pass:
  assumes "codec decode encode" "on_loopback probe" "other_code x64" "other_code bc"
  shows "test_dhcp_server_redirection (dhcp_exchange decode encode x64 bc probe now) xid x64"
    and "test_dhcp_server_ignores_non_pxe_client (dhcp_exchange decode encode x64 bc probe now) xid"
    and "test_dhcp_server_handles_arm64_arch (dhcp_exchange decode encode x64 bc probe now) xid"
    and "test_dhcp_arch0_serves_bios_bootloader (dhcp_exchange decode encode x64 bc probe now) xid"
    and "test_dhcp_ignores_release_message (dhcp_exchange decode encode x64 bc probe now) xid x64"
proof -
  note run = exchange_eq [OF assms(1,2) _ refl]
  note eval = Let_def served_def recorded_def make_reply_simps chaddr_macs get_offered response_type_def DHCP_SERVER_PORT_def
  have codes: "x64 \<noteq> 11" "x64 \<noteq> 0" "bc \<noteq> 11" "bc \<noteq> 0" using assms(3,4) by (auto simp: other_code_def ARCH_ARM64_def ARCH_BIOS_X86_def)
  define host where "host = (test_host ''00:11:22:33:44:55'' ''test-host'' ''/tmp/test.iso'')\<lparr>hc_bootloader := Some ''boot/special.efi''\<rparr>"
  have "normalize_mac (hc_mac host) = hc_mac host" by (simp add: host_def test_host_def normalize_valid_mac chaddr_macs)
  then have found: "find_host ((no_hosts bios)\<lparr>cf_hosts := [host]\<rparr>) ''00:11:22:33:44:55'' = Some host" for bios
    using no_hosts_boot(2) [of host bios] by (simp add: host_def test_host_def)
  then have boot: "bootloader_for ((no_hosts bios)\<lparr>cf_hosts := [host]\<rparr>) ''00:11:22:33:44:55'' arch = ''boot/special.efi''" for bios arch
    by (simp add: bootloader_for_def) (simp add: host_def)
  show "test_dhcp_server_redirection (dhcp_exchange decode encode x64 bc probe now) xid x64"
    unfolding test_dhcp_server_redirection_def host_def [symmetric]
    by (simp add: run eval found boot arch_name_def) (simp add: host_def test_host_def)
  have plain: "length (bootloader_for (no_hosts ''boot/x64/undionly.kpxe'') mac arch) \<le> 255" for mac arch
    by (simp add: no_hosts_boot(1) select_default_bootloader_def split: option.split)
       (simp add: no_hosts_def server_with_bootloaders_def)
  show "test_dhcp_server_ignores_non_pxe_client (dhcp_exchange decode encode x64 bc probe now) xid"
    unfolding test_dhcp_server_ignores_non_pxe_client_def by (simp add: run eval plain)
  show "test_dhcp_ignores_release_message (dhcp_exchange decode encode x64 bc probe now) xid x64"
    unfolding test_dhcp_ignores_release_message_def by (simp add: run eval plain)
  have default: "bootloader_for (no_hosts bios) mac (Some 11) = ''boot/arm64/ipxe.efi''" "bootloader_for (no_hosts bios) mac (Some 0) = bios" for bios mac
    unfolding no_hosts_boot(1)
    by (simp_all add: select_default_bootloader_def ARCH_ARM64_def ARCH_BIOS_X86_def no_hosts_def server_with_bootloaders_def)
  show "test_dhcp_server_handles_arm64_arch (dhcp_exchange decode encode x64 bc probe now) xid"
    unfolding test_dhcp_server_handles_arm64_arch_def
    using codes by (simp add: run eval default arch_name_def ARCH_ARM64_def)
  show "test_dhcp_arch0_serves_bios_bootloader (dhcp_exchange decode encode x64 bc probe now) xid"
    unfolding test_dhcp_arch0_serves_bios_bootloader_def
    using codes by (simp add: run eval default arch_name_def ARCH_ARM64_def ARCH_BIOS_X86_def)
qed

end
