(* ===== verification/Tests_Tftp.thy ===== *)
theory Tests_Tftp
  imports Tftp_Listener Tests_Core
begin

text \<open>
  The unit tests of \<^verbatim>\<open>crates/bootycall-tftp/src/wire.rs\<close> and the sessions of
  \<^verbatim>\<open>crates/bootycall-tftp/tests/tftp_tests.rs\<close>, run on the model. In a session the listener
  makes one pass over the request, and the transfer it starts reads the file of the temporary
  directory and receives what the client of the test sends, in time and without loss.
\<close>

section \<open>Packets\<close>

definition error_round_trip :: bool where
  "error_round_trip \<longleftrightarrow>
     (let pkt = make_error_packet 4 ''nope'' in is_error_packet pkt \<and> parse_error_packet pkt = Some (4, ''nope''))"

definition data_and_ack_round_trip :: bool where
  "data_and_ack_round_trip \<longleftrightarrow>
     parse_data_packet (make_data_packet 7 (as_bytes ''payload'')) = Some (7, as_bytes ''payload'')
     \<and> parse_ack_packet (make_ack_packet 7) = Some 7"

definition oack_round_trip :: bool where
  "oack_round_trip \<longleftrightarrow>
     parse_oack_packet (make_oack_packet [(''blksize'', ''1432'')]) = Some [(''blksize'', ''1432'')]"

definition wrong_opcode_parses_to_none :: bool where
  "wrong_opcode_parses_to_none \<longleftrightarrow>
     (let rrq = make_rrq_packet ''x'' ''octet'' []
      in parse_ack_packet rrq = None \<and> parse_data_packet rrq = None \<and> \<not> is_error_packet rrq)"

lemma wire_tests_pass:
  "error_round_trip" "data_and_ack_round_trip" "oack_round_trip" "wrong_opcode_parses_to_none"
  by code_simp+

section \<open>Sessions\<close>

definition base_server_config :: "string \<Rightarrow> string \<Rightarrow> server_config" where
  "base_server_config bind tftp_root =
     \<lparr>sc_http_bind = ''0.0.0.0:8080'', sc_tftp_bind = bind, sc_tftp_root = tftp_root,
      sc_proxy_dhcp_bind = ''0.0.0.0:4011'', sc_cache_dir = ''./cache'', sc_static_dir = ''./static'',
      sc_bootloader_amd64 = ''boot/x64/ipxe.efi'', sc_bootloader_arm64 = ''boot/arm64/ipxe.efi'',
      sc_bootloader_bios = ''boot/x64/undionly.kpxe'', sc_oled_enabled = False, sc_oled_brightness = 255,
      sc_api_token = None, sc_max_artifact_bytes = None\<rparr>"

definition tftp_config :: "host_config list \<Rightarrow> config" where
  "tftp_config hosts = \<lparr>cf_server = base_server_config ''127.0.0.1:25069'' temp_dir, cf_hosts = hosts\<rparr>"

text \<open>What the file system answers to opening a file for reading.\<close>

definition open_file :: "fs \<Rightarrow> string \<Rightarrow> bytes io" where
  "open_file fs path =
     (case resolve_path fs [] path of
        None \<Rightarrow> Inl NotFound
      | Some c \<Rightarrow> (case fs c of Some (Regular content) \<Rightarrow> Inr content | _ \<Rightarrow> Inl OtherIo))"

text \<open>The datagrams the client gets, and the store once the transfer has started and after its end.\<close>

record tftp_session =
  ts_sent :: "bytes list"
  ts_started :: state_store
  ts_ended :: state_store

definition on_time :: "recv \<Rightarrow> turn" where
  "on_time r = \<lparr>t_send = (\<lambda>_. None), t_now = 1, t_recv = r\<rparr>"

definition tftp_exchange ::
  "fs \<Rightarrow> host_order \<Rightarrow> nat \<Rightarrow> config \<Rightarrow> state_store \<Rightarrow> bytes \<Rightarrow> recv list \<Rightarrow> tftp_session" where
  "tftp_exchange fs order slots config st datagram client =
     (let r = listener_step (resolve_path fs []) order config SocketReady slots st datagram (SocketAddr (V4 [127, 0, 0, 1]) 25070);
          st1 = apply_ops 0 (re_ops r) st
      in case re_job r of
           None \<Rightarrow> \<lparr>ts_sent = re_replies r, ts_started = st1, ts_ended = st1\<rparr>
         | Some j \<Rightarrow>
             (case handle_tftp_transfer file_read (map_sum id whole_file (open_file fs (jb_path j)))
                     (map_sum id length (open_file fs (jb_path j))) 0 (map on_time client) (jb_request j) (jb_mac j) of
                (sent, ops, _) \<Rightarrow> \<lparr>ts_sent = re_replies r @ sent, ts_started = st1, ts_ended = apply_ops 1 ops st1\<rparr>))"

definition status_of :: "string \<Rightarrow> state_store \<Rightarrow> host_status option" where
  "status_of mac st = map_option hs_status (get_host mac st)"

text \<open>The readers of the tests; the first two fail on another packet.\<close>

definition parse_oack :: "bytes \<Rightarrow> (string \<times> string) list option" where
  "parse_oack pkt = parse_oack_packet pkt"

definition parse_data :: "bytes \<Rightarrow> (u16 \<times> bytes) option" where
  "parse_data pkt = parse_data_packet pkt"

definition rrq_octet :: "string \<Rightarrow> (string \<times> string) list \<Rightarrow> bytes" where
  "rrq_octet filename options = make_rrq_packet filename ''octet'' options"

text \<open>The error a session with one datagram ends in: opcode, code and message.\<close>

definition error_of :: "bytes \<Rightarrow> (u16 \<times> u16 \<times> string) option" where
  "error_of pkt =
     (if length pkt < 5 then None
      else
        (let msg_end = (case position (\<lambda>b. b = 0) (drop 4 pkt) of Some p \<Rightarrow> p | None \<Rightarrow> length pkt - 4)
         in Some (from_be16 (pkt ! 0) (pkt ! 1), from_be16 (pkt ! 2) (pkt ! 3), from_utf8_lossy (take msg_end (drop 4 pkt)))))"

definition test_tftp_file_not_found :: "host_order \<Rightarrow> bool" where
  "test_tftp_file_not_found order \<longleftrightarrow>
     (let s = tftp_exchange (temp_fs []) order MAX_CONCURRENT_TRANSFERS (tftp_config []) new_store
                (rrq_octet ''nonexistent/bootloader.efi'' []) []
      in case map error_of (ts_sent s) of
           [Some (op, code, msg)] \<Rightarrow> op = 5 \<and> code = 1 \<and> (sublist ''not found'' msg \<or> sublist ''Not found'' msg)
         | _ \<Rightarrow> False)"

definition assert_tftp_traversal_rejected :: "host_order \<Rightarrow> string \<Rightarrow> bool" where
  "assert_tftp_traversal_rejected order requested \<longleftrightarrow>
     (let s = tftp_exchange (temp_fs []) order MAX_CONCURRENT_TRANSFERS (tftp_config []) new_store (rrq_octet requested []) []
      in case map error_of (ts_sent s) of
           [Some (op, code, msg)] \<Rightarrow> op = 5 \<and> code = 2 \<and> sublist ''Access violation'' msg
         | _ \<Rightarrow> False)"

definition test_tftp_path_traversal_parent_dir_blocked :: "host_order \<Rightarrow> bool" where
  "test_tftp_path_traversal_parent_dir_blocked order \<longleftrightarrow> assert_tftp_traversal_rejected order ''../../etc/passwd''"

definition test_tftp_path_traversal_absolute_blocked :: "host_order \<Rightarrow> bool" where
  "test_tftp_path_traversal_absolute_blocked order \<longleftrightarrow> assert_tftp_traversal_rejected order ''/etc/passwd''"

definition test_tftp_path_traversal_double_slash_absolute_blocked :: "host_order \<Rightarrow> bool" where
  "test_tftp_path_traversal_double_slash_absolute_blocked order \<longleftrightarrow> assert_tftp_traversal_rejected order ''//etc/passwd''"

definition test_tftp_wrq_rejected_with_error :: "host_order \<Rightarrow> bool" where
  "test_tftp_wrq_rejected_with_error order \<longleftrightarrow>
     (let wrq = [0x00, 0x02] @ as_bytes ''boot/x64/ipxe.efi'' @ [0] @ as_bytes ''octet'' @ [0];
          s = tftp_exchange (temp_fs []) order MAX_CONCURRENT_TRANSFERS (tftp_config []) new_store wrq []
      in case map error_of (ts_sent s) of
           [Some (op, code, msg)] \<Rightarrow> op = 5 \<and> code = 4
         | _ \<Rightarrow> False)"

lemma refusal_tests_pass:
  assumes "order fmempty = []"
  shows "test_tftp_file_not_found order" "test_tftp_path_traversal_parent_dir_blocked order"
    "test_tftp_path_traversal_absolute_blocked order" "test_tftp_path_traversal_double_slash_absolute_blocked order"
    "test_tftp_wrq_rejected_with_error order"
proof -
  have none: "client_host order new_store src = None" for src
    by (simp add: client_host_def list_hosts_def new_store_def assms)
  show "test_tftp_wrq_rejected_with_error order" by code_simp
  show "test_tftp_file_not_found order"
    unfolding test_tftp_file_not_found_def tftp_exchange_def listener_step_def none by code_simp
  show "test_tftp_path_traversal_parent_dir_blocked order"
    unfolding test_tftp_path_traversal_parent_dir_blocked_def assert_tftp_traversal_rejected_def tftp_exchange_def listener_step_def none
    by code_simp
  show "test_tftp_path_traversal_absolute_blocked order"
    unfolding test_tftp_path_traversal_absolute_blocked_def assert_tftp_traversal_rejected_def tftp_exchange_def listener_step_def none
    by code_simp
  show "test_tftp_path_traversal_double_slash_absolute_blocked order"
    unfolding test_tftp_path_traversal_double_slash_absolute_blocked_def assert_tftp_traversal_rejected_def tftp_exchange_def
      listener_step_def none
    by code_simp
qed

section \<open>Clients that acknowledge\<close>

definition make_ack :: "u16 \<Rightarrow> recv" where
  "make_ack block = Recv (make_ack_packet block)"

text \<open>The client of RFC 7440; what it hears is a datagram, nothing for its timeout, or an error of its socket.\<close>

datatype heard = Heard bytes | Silence | SocketError

record windowed_client =
  wc_received :: bytes
  wc_expected :: nat
  wc_count :: nat
  wc_last :: u16
  wc_dropped :: bool

text \<open>What it has received and acknowledged when it stops; \<open>None\<close> when it fails or waits on.\<close>

fun windowed_recv :: "nat \<Rightarrow> nat \<Rightarrow> u16 option \<Rightarrow> heard list \<Rightarrow> windowed_client \<Rightarrow> (bytes \<times> u16 list) option" where
  "windowed_recv blksize windowsize drop_block [] c = None"
| "windowed_recv blksize windowsize drop_block (SocketError # rest) c = Some (wc_received c, [])"
| "windowed_recv blksize windowsize drop_block (Silence # rest) c =
     (if wc_last c \<noteq> 0 then map_option (map_prod id ((#) (wc_last c))) (windowed_recv blksize windowsize drop_block rest (c\<lparr>wc_count := 0\<rparr>))
      else windowed_recv blksize windowsize drop_block rest c)"
| "windowed_recv blksize windowsize drop_block (Heard pkt # rest) c =
     (case parse_data pkt of
        None \<Rightarrow> None
      | Some (block, payload) \<Rightarrow>
          if drop_block = Some block \<and> \<not> wc_dropped c then windowed_recv blksize windowsize drop_block rest (c\<lparr>wc_dropped := True\<rparr>)
          else if unat block \<noteq> wc_expected c then windowed_recv blksize windowsize drop_block rest c
          else
            (let c1 = c\<lparr>wc_received := wc_received c @ payload, wc_last := block, wc_expected := wc_expected c + 1,
                        wc_count := wc_count c + 1\<rparr>;
                 is_short = (length payload < blksize);
                 full = (wc_count c1 = windowsize \<or> is_short);
                 c2 = (if full then c1\<lparr>wc_count := 0\<rparr> else c1);
                 acks = (if full then [block] else [])
             in if is_short then Some (wc_received c2, acks)
                else map_option (map_prod id ((@) acks)) (windowed_recv blksize windowsize drop_block rest c2)))"

definition windowed_recv_all :: "nat \<Rightarrow> nat \<Rightarrow> u16 option \<Rightarrow> heard list \<Rightarrow> (bytes \<times> u16 list) option" where
  "windowed_recv_all blksize windowsize drop_block events =
     windowed_recv blksize windowsize drop_block events
       \<lparr>wc_received = [], wc_expected = 1, wc_count = 0, wc_last = 0, wc_dropped = False\<rparr>"

text \<open>The boot directory of the tests, with the default boot loader.\<close>

definition boot_dir :: "bytes \<Rightarrow> (cpath \<times> node) list" where
  "boot_dir payload =
     [([''tmp'', ''t'', ''boot''], Directory), ([''tmp'', ''t'', ''boot'', ''x64''], Directory),
      ([''tmp'', ''t'', ''boot'', ''x64'', ''ipxe.efi''], Regular payload)]"

definition counting_bytes :: "nat \<Rightarrow> nat \<Rightarrow> bytes" where
  "counting_bytes m n = map (\<lambda>i. of_nat (i mod m)) [0..<n]"

definition test_tftp_windowsize_multi_window_transfer :: "host_order \<Rightarrow> bool" where
  "test_tftp_windowsize_multi_window_transfer order \<longleftrightarrow>
     (let payload = counting_bytes 256 (9 * 512 + 137);
          rrq = rrq_octet ''boot/x64/ipxe.efi'' [(''blksize'', ''512''), (''windowsize'', ''4''), (''tsize'', ''0'')];
          s = tftp_exchange (temp_fs (boot_dir payload)) order MAX_CONCURRENT_TRANSFERS (tftp_config []) new_store rrq
                (map make_ack [0, 4, 8, 10])
      in case ts_sent s of
           oack # packets \<Rightarrow>
             (case parse_oack oack of Some opts \<Rightarrow> (''windowsize'', ''4'') \<in> set opts | None \<Rightarrow> False)
             \<and> windowed_recv_all 512 4 None (map Heard packets) = Some (payload, [4, 8, 10])
         | [] \<Rightarrow> False)"

text \<open>Block 3 is dropped once, so nothing that follows it in the first window is in order, and the client waits.\<close>

definition test_tftp_windowsize_recovers_lost_block :: "host_order \<Rightarrow> bool" where
  "test_tftp_windowsize_recovers_lost_block order \<longleftrightarrow>
     (let payload = counting_bytes 251 (5 * 512 + 100);
          rrq = rrq_octet ''boot/x64/ipxe.efi'' [(''blksize'', ''512''), (''windowsize'', ''4''), (''tsize'', ''0'')];
          s = tftp_exchange (temp_fs (boot_dir payload)) order MAX_CONCURRENT_TRANSFERS (tftp_config []) new_store rrq
                (map make_ack [0, 2, 6])
      in case ts_sent s of
           oack # packets \<Rightarrow>
             parse_oack oack \<noteq> None
             \<and> windowed_recv_all 512 4 (Some 3) (map Heard (take 4 packets) @ [Silence] @ map Heard (drop 4 packets))
               = Some (payload, [2, 6])
         | [] \<Rightarrow> False)"

text \<open>The client of the transfers without windows: numbers in sequence, and a short block at the end.\<close>

fun receive_in_turn :: "nat \<Rightarrow> u16 \<Rightarrow> bytes \<Rightarrow> bytes list \<Rightarrow> (bytes \<times> u16 list) option" where
  "receive_in_turn blksize expected_block received [] = None"
| "receive_in_turn blksize expected_block received (pkt # rest) =
     (case parse_data pkt of
        None \<Rightarrow> None
      | Some (block, payload) \<Rightarrow>
          if block \<noteq> expected_block then None
          else if length payload < blksize then Some (received @ payload, [block])
          else map_option (map_prod id ((#) block)) (receive_in_turn blksize (expected_block + 1) (received @ payload) rest))"

definition test_tftp_transfer_non_multiple_blksize_intact :: "host_order \<Rightarrow> bool" where
  "test_tftp_transfer_non_multiple_blksize_intact order \<longleftrightarrow>
     (let payload = counting_bytes 256 (512 + 137);
          rrq = rrq_octet ''boot/x64/ipxe.efi'' [(''blksize'', ''512''), (''timeout'', ''1''), (''tsize'', ''0'')];
          s = tftp_exchange (temp_fs (boot_dir payload)) order MAX_CONCURRENT_TRANSFERS (tftp_config []) new_store rrq
                (map make_ack [0, 1, 2])
      in case ts_sent s of
           oack # packets \<Rightarrow> parse_oack oack \<noteq> None \<and> receive_in_turn 512 1 [] packets = Some (payload, [1, 2])
         | [] \<Rightarrow> False)"

definition known_client :: "string \<Rightarrow> string \<Rightarrow> state_store" where
  "known_client mac name =
     update_host_status 0 mac Polling (Some name) None (Some ''127.0.0.1'') (Some ''x86_64'') new_store"

definition test_tftp_server_negotiation_and_transfer :: "host_order \<Rightarrow> bool" where
  "test_tftp_server_negotiation_and_transfer order \<longleftrightarrow>
     (let special_content = as_bytes ''This is a special custom EFI payload override!'';
          entries = boot_dir (as_bytes ''This is the default EFI payload!'')
            @ [([''tmp'', ''t'', ''boot'', ''special.efi''], Regular special_content)];
          host = (test_host ''00:aa:bb:cc:dd:ee'' ''test-client'' ''/tmp/nixos.iso'')\<lparr>hc_bootloader := Some ''boot/special.efi''\<rparr>;
          rrq = rrq_octet ''boot/x64/ipxe.efi'' [(''blksize'', ''512''), (''timeout'', ''1''), (''tsize'', ''0'')];
          s = tftp_exchange (temp_fs entries) order MAX_CONCURRENT_TRANSFERS (tftp_config [host])
                (known_client ''00:aa:bb:cc:dd:ee'' ''test-client'') rrq (map make_ack [0, 1])
      in case ts_sent s of
           [oack, packet] \<Rightarrow>
             (case parse_oack oack of
                Some opts \<Rightarrow> {(''blksize'', ''512''), (''timeout'', ''1''), (''tsize'', dec_of_nat (length special_content))} \<subseteq> set opts
              | None \<Rightarrow> False)
             \<and> status_of ''00:aa:bb:cc:dd:ee'' (ts_started s) = Some Booting
             \<and> parse_data packet = Some (1, special_content)
             \<and> status_of ''00:aa:bb:cc:dd:ee'' (ts_ended s) = Some Completed
         | _ \<Rightarrow> False)"

definition test_tftp_timeout_marks_host_failed :: "host_order \<Rightarrow> bool" where
  "test_tftp_timeout_marks_host_failed order \<longleftrightarrow>
     (let rrq = rrq_octet ''boot/x64/ipxe.efi'' [(''blksize'', ''512''), (''timeout'', ''1''), (''tsize'', ''0'')];
          s = tftp_exchange (temp_fs (boot_dir (as_bytes ''payload-that-never-gets-acked''))) order MAX_CONCURRENT_TRANSFERS
                (tftp_config []) (known_client ''00:11:22:33:44:55'' ''failing-client'') rrq (replicate 8 (make_ack 9999))
      in status_of ''00:11:22:33:44:55'' (ts_ended s) = Some Failed)"

text \<open>The first client holds the only slot: it gets the option acknowledgement and sends nothing.\<close>

definition test_tftp_server_busy_at_injected_limit :: "host_order \<Rightarrow> bool" where
  "test_tftp_server_busy_at_injected_limit order \<longleftrightarrow>
     (let fs = temp_fs (boot_dir (as_bytes ''busy-test-payload''));
          rrq = rrq_octet ''boot/x64/ipxe.efi'' [(''blksize'', ''512''), (''timeout'', ''1''), (''tsize'', ''0'')];
          client_a = SocketAddr (V4 [127, 0, 0, 1]) 25131; client_b = SocketAddr (V4 [127, 0, 0, 1]) 25132;
          s0 = start_server 1 new_store;
          s1 = receive_packet (resolve_path fs []) order (tftp_config []) 0 SocketReady rrq client_a s0;
          held = tftp_exchange fs order (tf_slots s0) (tftp_config []) (tf_store s0) rrq [RecvTimeout];
          second = listener_step (resolve_path fs []) order (tftp_config []) SocketReady (tf_slots s1) (tf_store s1) rrq client_b
      in ts_sent held \<noteq> [] \<and> map error_of (re_replies second) = [Some (5, 0, ''Server busy'')])"

section \<open>The sessions pass\<close>

text \<open>The blocks a client is sent that acknowledges these blocks, one per window, up to the last one.\<close>

fun acked_blocks :: "nat \<Rightarrow> nat \<Rightarrow> nat \<Rightarrow> nat list \<Rightarrow> nat list" where
  "acked_blocks W N b [] = []"
| "acked_blocks W N b (n # ns) = [b..<min (b + W) (N + 1)] @ acked_blocks W N (Suc n) ns"

fun acks_cover :: "nat \<Rightarrow> nat \<Rightarrow> nat \<Rightarrow> nat list \<Rightarrow> bool" where
  "acks_cover W N b [] \<longleftrightarrow> False"
| "acks_cover W N b (n # ns) \<longleftrightarrow> b \<le> n \<and> n < min (b + W) (N + 1) \<and> (if n = N then ns = [] else acks_cover W N (Suc n) ns)"

lemma ack_pass:
  assumes inv: "xfer_inv fr_data (\<lambda>r. None \<notin> set (fr_plan r)) B W C x" and B: "0 < B" "0 < W" "W < 65536"
    and x: "x_next x = x_base x" "x_retries x = 0" and n: "x_base x \<le> n" "n < min (x_base x + W) (num_blocks B C + 1)"
    and t: "t_send t = (\<lambda>_. None)" "t_recv t = Recv (make_ack_packet (wire_of n))" "t_now t < rp_deadline policy"
    and p: "0 < rp_max_retries policy"
  shows "\<exists>x'. data_turn file_read B W policy t x
      = (map (block_packet B C) [x_base x..<min (x_base x + W) (num_blocks B C + 1)],
         if n = num_blocks B C then Inl (Finished n) else Inr x')
    \<and> (n < num_blocks B C \<longrightarrow> xfer_inv fr_data (\<lambda>r. None \<notin> set (fr_plan r)) B W C x'
          \<and> x_base x' = Suc n \<and> x_next x' = Suc n \<and> x_retries x' = 0)"
proof -
  let ?m = "min (x_base x + W) (num_blocks B C + 1)"
  obtain hi where hi: "xfer_inv_at fr_data (\<lambda>r. None \<notin> set (fr_plan r)) B W C x hi"
    using inv by (auto simp: xfer_inv_def)
  from steady.fill_window_exact [OF hi B(1) refl, of "t_send t"] t(1) x(1) obtain x1 where
    f: "fill_window file_read B (t_send t) (x_base x + W) x = (map (block_packet B C) [x_base x..<?m], Inr x1)"
      "x_next x1 = ?m" "xfer_inv_at fr_data (\<lambda>r. None \<notin> set (fr_plan r)) B W C x1 (x_next x1)" "x_base x1 = x_base x"
    by auto
  have r: "x_retries x1 = 0" using fill_window_base [OF f(1)] x(2) by simp
  have find: "List.find (\<lambda>k. wire_of k = wire_of n) [x_base x1..<x_next x1] = Some n"
    using n f(2,4) B(3) by (intro find_wire_of) auto
  have await: "await_data_ack policy t x1 = accept_ack (wire_of n) x1"
    using t(2,3) p r by (simp add: await_data_ack_def ack_buf_ack make_ack_not_error wire_simps Let_def)
  have turn: "data_turn file_read B W policy t x = (map (block_packet B C) [x_base x..<?m], accept_ack (wire_of n) x1)"
    by (simp add: data_turn_def f(1) await)
  have inv1: "xfer_inv fr_data (\<lambda>r. None \<notin> set (fr_plan r)) B W C x1" using f(3) by (auto simp: xfer_inv_def)
  note spec = accept_ack_Some [OF inv1 find]
  have at: "x_base x1 \<le> num_blocks B C" using xfer_inv_bounds [OF inv1] by blast
  show ?thesis
  proof (cases "n = num_blocks B C")
    case True
    then have "x_next x1 = num_blocks B C + 1" using n f(2) by auto
    then have "x_last x1 = Some (num_blocks B C)" using f(3) by (cases "x_last x1") (simp_all add: xfer_inv_at_def)
    then have "accept_ack (wire_of n) x1 = Inl (Finished n)" using find True by (simp add: accept_ack_def Let_def)
    with turn True show ?thesis by simp
  next
    case False
    with n have less: "n < num_blocks B C" by auto
    have "x_last x1 = None \<or> x_last x1 = Some (num_blocks B C)" using f(3) by (cases "x_last x1") (simp_all add: xfer_inv_at_def)
    then obtain x2 where x2: "accept_ack (wire_of n) x1 = Inr x2" "x_next x2 = (if n + 1 < x_next x1 then n + 1 else x_next x1)"
      using find less by (cases "x_last x1") (auto simp: accept_ack_def Let_def)
    have "x_next x2 = Suc n" using x2(2) n f(2) by (auto split: if_splits)
    with spec x2(1) turn less show ?thesis by (intro exI [of _ x2]) auto
  qed
qed

lemma acks_loop:
  assumes "xfer_inv fr_data (\<lambda>r. None \<notin> set (fr_plan r)) B W C x" "0 < B" "0 < W" "W < 65536" "x_next x = x_base x" "x_retries x = 0"
    and "acks_cover W (num_blocks B C) (x_base x) acks" "1 < rp_deadline policy" "0 < rp_max_retries policy"
  shows "data_loop file_read B W policy (map (\<lambda>n. on_time (Recv (make_ack_packet (wire_of n)))) acks) x
    = (map (block_packet B C) (acked_blocks W (num_blocks B C) (x_base x) acks), Some (Finished (num_blocks B C)))"
  using assms(1,5-7)
proof (induction acks arbitrary: x)
  case (Cons n ns)
  have n: "x_base x \<le> n" "n < min (x_base x + W) (num_blocks B C + 1)" using Cons.prems(4) by simp_all
  from ack_pass [OF Cons.prems(1) assms(2-4) Cons.prems(2,3) n, of "on_time (Recv (make_ack_packet (wire_of n)))" policy] assms(8,9)
  obtain x' where turn: "data_turn file_read B W policy (on_time (Recv (make_ack_packet (wire_of n)))) x
      = (map (block_packet B C) [x_base x..<min (x_base x + W) (num_blocks B C + 1)], if n = num_blocks B C then Inl (Finished n) else Inr x')"
    and more: "n < num_blocks B C \<longrightarrow> xfer_inv fr_data (\<lambda>r. None \<notin> set (fr_plan r)) B W C x' \<and> x_base x' = Suc n \<and> x_next x' = Suc n \<and> x_retries x' = 0"
    by (auto simp: on_time_def)
  show ?case
  proof (cases "n = num_blocks B C")
    case True
    with turn Cons.prems(4) show ?thesis by simp
  next
    case False
    with n have less: "n < num_blocks B C" by simp
    with more have st: "xfer_inv fr_data (\<lambda>r. None \<notin> set (fr_plan r)) B W C x'" "x_next x' = x_base x'" "x_retries x' = 0" "x_base x' = Suc n"
      by simp_all
    have "acks_cover W (num_blocks B C) (x_base x') ns" using Cons.prems(4) False st(4) by simp
    from Cons.IH [OF st(1-3) this] turn False st(4) show ?thesis by simp
  qed
qed simp

lemma wire_of_of_nat: "wire_of n = of_nat n"
  by (simp add: wire_of_def word_unat_eq_iff unat_of_nat)

lemma map_make_ack: "map on_time (map make_ack (0 # map of_nat acks))
    = on_time (Recv (make_ack_packet 0)) # map (\<lambda>n. on_time (Recv (make_ack_packet (wire_of n)))) acks"
  by (simp add: make_ack_def wire_of_of_nat comp_def)

text \<open>A session whose client acknowledges the options and then these blocks, up to the last.\<close>

lemma session_completes:
  assumes "0 < slots" "parse_rrq (take 1500 datagram) = Some rq"
    and "client_host order st (SocketAddr (V4 [127, 0, 0, 1]) 25070) = host"
    and "safe_join (resolve_path fs []) (sc_tftp_root (cf_server config)) (final_filename config host (rq_filename rq)) = Some path"
    and "open_file fs path = Inr content" "is_octet rq" "ng = negotiate rq (length content)" "ng_options ng \<noteq> []"
    and "N = num_blocks (ng_blksize ng) content" "acks_cover (ng_windowsize ng) N 1 acks"
    and "client = map make_ack (0 # map of_nat acks)"
  shows "tftp_exchange fs order slots config st datagram client =
    \<lparr>ts_sent = make_oack_packet (ng_options ng) # map (block_packet (ng_blksize ng) content) (acked_blocks (ng_windowsize ng) N 1 acks),
     ts_started = apply_ops 0 (booting_ops (map_option hs_mac host) (rq_filename rq) path) st,
     ts_ended = apply_ops 1 (mark_tftp_completed (map_option hs_mac host) N)
                  (apply_ops 0 (booting_ops (map_option hs_mac host) (rq_filename rq) path) st)\<rparr>"
proof -
  define j where "j = \<lparr>jb_path = path, jb_request = rq, jb_mac = map_option hs_mac host\<rparr>"
  have job: "re_job (listener_step (resolve_path fs []) order config SocketReady slots st datagram (SocketAddr (V4 [127, 0, 0, 1]) 25070)) = Some j"
    using assms(1-4) by (intro listener_jobI) (simp_all add: j_def)
  note ops = listener_job [OF job]
  define r where "r = whole_file content"
  have B: "0 < ng_blksize ng" and W: "0 < ng_windowsize ng" "ng_windowsize ng < 65536"
    using negotiate_ranges [of rq "length content"] by (simp_all add: assms(7) limit_defs)
  have start: "xfer_inv fr_data (\<lambda>r. None \<notin> set (fr_plan r)) (ng_blksize ng) (ng_windowsize ng) content (start_xfer r)"
    by (rule start_xfer_inv) (simp_all add: r_def whole_file_def)
  have x: "x_next (start_xfer r) = x_base (start_xfer r)" "x_retries (start_xfer r) = 0" "x_base (start_xfer r) = 1"
    by (simp_all add: start_xfer_def)
  have policy: "1 < rp_deadline (transfer_policy 0)" "0 < rp_max_retries (transfer_policy 0)"
    by (simp_all add: transfer_policy_def MAX_RETRIES_def TRANSFER_DEADLINE_def from_secs_def)
  have "acks_cover (ng_windowsize ng) (num_blocks (ng_blksize ng) content) (x_base (start_xfer r)) acks"
    using assms(9,10) x(3) by simp
  from acks_loop [OF start B W x(1,2) this policy]
  have "run_data file_read r ng (transfer_policy 0) mac (map (\<lambda>n. on_time (Recv (make_ack_packet (wire_of n)))) acks)
      = (map (block_packet (ng_blksize ng) content) (acked_blocks (ng_windowsize ng) N 1 acks), mark_tftp_completed mac N, Some (Inr ()))" for mac
    by (simp add: run_data_def assms(9) x(3))
  from handle_after_oack [OF assms(6,7) _ this, of 1] assms(8)
  have run: "handle_tftp_transfer file_read (Inr r) (Inr (length content)) 0 (map on_time client) rq mac
    = (make_oack_packet (ng_options ng) # map (block_packet (ng_blksize ng) content) (acked_blocks (ng_windowsize ng) N 1 acks),
       mark_tftp_completed mac N, Some (Inr ()))" for mac
    unfolding assms(11) map_make_ack
    by (simp add: oack_turns_def oack_packets_def on_time_def TRANSFER_DEADLINE_def from_secs_def)
  show ?thesis
    using job ops run by (simp add: tftp_exchange_def Let_def assms(5) j_def r_def)
qed

text \<open>What the requests of the tests parse to, and where the boot loader is.\<close>

definition ipxe_request :: "nat option \<Rightarrow> nat option \<Rightarrow> rrq_request" where
  "ipxe_request timeout window =
     \<lparr>rq_filename = ''boot/x64/ipxe.efi'', rq_mode = ''octet'', rq_blksize = Some 512, rq_timeout = timeout,
      rq_tsize_requested = True, rq_windowsize = window\<rparr>"

lemma parse_rrq_octet:
  assumes "wire_text filename" "wire_options options" "length (rrq_octet filename options) \<le> 1500"
  shows "parse_rrq (take 1500 (rrq_octet filename options)) = Some (with_options options (plain_request filename ''octet''))"
proof -
  have "wire_text ''octet''" by (auto simp: wire_text_def intro!: is_utf8_ascii)
  from parse_make_rrq [OF assms(1) this assms(2)] assms(3) show ?thesis by (simp add: rrq_octet_def)
qed

lemma ipxe_requests:
  "parse_rrq (take 1500 (rrq_octet ''boot/x64/ipxe.efi'' [(''blksize'', ''512''), (''windowsize'', ''4''), (''tsize'', ''0'')]))
     = Some (ipxe_request None (Some 4))" (is ?windowed)
  "parse_rrq (take 1500 (rrq_octet ''boot/x64/ipxe.efi'' [(''blksize'', ''512''), (''timeout'', ''1''), (''tsize'', ''0'')]))
     = Some (ipxe_request (Some 1) None)" (is ?timed)
proof -
  have texts: "wire_text ''boot/x64/ipxe.efi''" "wire_text ''blksize''" "wire_text ''512''" "wire_text ''windowsize''" "wire_text ''4''"
    "wire_text ''tsize''" "wire_text ''0''" "wire_text ''timeout''" "wire_text ''1''"
    by (auto simp: wire_text_def intro!: is_utf8_ascii)
  have dec: "dec_of_nat 512 = ''512''" "dec_of_nat 4 = ''4''" "dec_of_nat 1 = ''1''" by code_simp+
  have nums: "parse_uint (2 ^ 64) ''512'' = Some 512" "parse_uint (2 ^ 16) ''4'' = Some 4" "parse_uint (2 ^ 64) ''1'' = Some 1"
    using parse_uint_dec_of_nat [of 512 "2 ^ 64"] parse_uint_dec_of_nat [of 4 "2 ^ 16"] parse_uint_dec_of_nat [of 1 "2 ^ 64"]
    unfolding dec by simp_all
  have keys: "to_lowercase ''blksize'' = ''blksize''" "to_lowercase ''windowsize'' = ''windowsize''" "to_lowercase ''tsize'' = ''tsize''"
    "to_lowercase ''timeout'' = ''timeout''"
    by (subst to_lowercase_plain; code_simp)+
  have each: "rrq_option ''blksize'' ''512'' req = req\<lparr>rq_blksize := Some 512\<rparr>" "rrq_option ''timeout'' ''1'' req = req\<lparr>rq_timeout := Some 1\<rparr>"
    "rrq_option ''windowsize'' ''4'' req = req\<lparr>rq_windowsize := Some 4\<rparr>" "rrq_option ''tsize'' ''0'' req = req\<lparr>rq_tsize_requested := True\<rparr>"
    for req
    unfolding rrq_option_def nums by simp_all
  have opts: "with_options [(''blksize'', ''512''), (''windowsize'', ''4''), (''tsize'', ''0'')] (plain_request ''boot/x64/ipxe.efi'' ''octet'')
      = ipxe_request None (Some 4)"
    "with_options [(''blksize'', ''512''), (''timeout'', ''1''), (''tsize'', ''0'')] (plain_request ''boot/x64/ipxe.efi'' ''octet'')
      = ipxe_request (Some 1) None"
    by (simp_all only: with_options_def fold_simps prod.case keys each comp_def id_def) (simp_all add: plain_request_def ipxe_request_def)
  have short: "length (rrq_octet ''boot/x64/ipxe.efi'' [(''blksize'', ''512''), (''windowsize'', ''4''), (''tsize'', ''0'')]) \<le> 1500"
    "length (rrq_octet ''boot/x64/ipxe.efi'' [(''blksize'', ''512''), (''timeout'', ''1''), (''tsize'', ''0'')]) \<le> 1500"
    by (simp_all add: rrq_octet_def make_rrq_packet_def as_bytes_def to_be16_def)
  have wire: "wire_options [(''blksize'', ''512''), (''windowsize'', ''4''), (''tsize'', ''0'')]"
    "wire_options [(''blksize'', ''512''), (''timeout'', ''1''), (''tsize'', ''0'')]"
    using texts by (simp_all add: wire_options_def)
  show ?windowed ?timed
    using parse_rrq_octet [OF texts(1) wire(1) short(1)] parse_rrq_octet [OF texts(1) wire(2) short(2)] unfolding opts .
qed

lemma ipxe_path:
  "safe_join (resolve_path (temp_fs (boot_dir payload)) []) temp_dir ''boot/x64/ipxe.efi'' = Some ''/tmp/t/boot/x64/ipxe.efi''"
  "open_file (temp_fs (boot_dir payload)) ''/tmp/t/boot/x64/ipxe.efi'' = Inr payload"
  by code_simp+

lemma ipxe_negotiated:
  "negotiate (ipxe_request (Some 1) None) sz
    = \<lparr>ng_blksize = 512, ng_timeout = 1, ng_windowsize = 1,
       ng_options = [(''blksize'', ''512''), (''timeout'', ''1''), (''tsize'', dec_of_nat sz)]\<rparr>"
  "negotiate (ipxe_request None (Some 4)) sz
    = \<lparr>ng_blksize = 512, ng_timeout = 3, ng_windowsize = 4,
       ng_options = [(''blksize'', ''512''), (''tsize'', dec_of_nat sz), (''windowsize'', ''4'')]\<rparr>"
proof -
  have "dec_of_nat 512 = ''512''" "dec_of_nat 1 = ''1''" "dec_of_nat 4 = ''4''" by code_simp+
  then show "negotiate (ipxe_request (Some 1) None) sz
    = \<lparr>ng_blksize = 512, ng_timeout = 1, ng_windowsize = 1,
       ng_options = [(''blksize'', ''512''), (''timeout'', ''1''), (''tsize'', dec_of_nat sz)]\<rparr>"
    and "negotiate (ipxe_request None (Some 4)) sz
    = \<lparr>ng_blksize = 512, ng_timeout = 3, ng_windowsize = 4,
       ng_options = [(''blksize'', ''512''), (''tsize'', dec_of_nat sz), (''windowsize'', ''4'')]\<rparr>"
    by (simp_all add: negotiate_def ipxe_request_def clamp_def limit_defs Let_def)
qed

lemma octet_ipxe: "is_octet (ipxe_request timeout window)"
  by (simp add: is_octet_def ipxe_request_def eq_ignore_ascii_case_def)

lemma oack_ipxe: "parse_oack (make_oack_packet (ng_options (negotiate rq sz))) = Some (ng_options (negotiate rq sz))"
  by (simp add: parse_oack_def parse_make_oack wire_options_negotiate)

lemma parse_block: "parse_data (block_packet B C k) = Some (of_nat k, file_block B C k)"
  by (simp add: parse_data_def block_packet_def wire_simps wire_of_of_nat)

lemma final_plain: "final_filename config None name = name"
  by (simp add: final_filename_def)

lemma tftp_root_config: "sc_tftp_root (cf_server (tftp_config hosts)) = temp_dir"
  by (simp add: tftp_config_def base_server_config_def)

text \<open>A session for the boot loader from an empty store.\<close>

lemma ipxe_session:
  assumes "parse_rrq (take 1500 datagram) = Some (ipxe_request timeout window)" "order fmempty = []"
    and "ng = negotiate (ipxe_request timeout window) (length payload)" "ng_blksize ng = 512" "ng_options ng \<noteq> []"
    and "acks_cover (ng_windowsize ng) (num_blocks 512 payload) 1 acks"
  shows "ts_sent (tftp_exchange (temp_fs (boot_dir payload)) order MAX_CONCURRENT_TRANSFERS (tftp_config []) new_store datagram
      (map make_ack (0 # map of_nat acks)))
    = make_oack_packet (ng_options ng)
      # map (block_packet 512 payload) (acked_blocks (ng_windowsize ng) (num_blocks 512 payload) 1 acks)"
proof -
  have slots: "0 < MAX_CONCURRENT_TRANSFERS" by (simp add: MAX_CONCURRENT_TRANSFERS_def)
  have none: "client_host order new_store (SocketAddr (V4 [127, 0, 0, 1]) 25070) = None"
    by (simp add: client_host_def list_hosts_def new_store_def assms(2))
  have path: "safe_join (resolve_path (temp_fs (boot_dir payload)) []) (sc_tftp_root (cf_server (tftp_config [])))
      (final_filename (tftp_config []) None (rq_filename (ipxe_request timeout window))) = Some ''/tmp/t/boot/x64/ipxe.efi''"
    by (simp add: final_plain tftp_root_config ipxe_request_def ipxe_path(1))
  have cover: "acks_cover (ng_windowsize ng) (num_blocks (ng_blksize ng) payload) 1 acks" using assms(4,6) by simp
  from session_completes [OF slots assms(1) none path ipxe_path(2) octet_ipxe assms(3,5) refl cover refl] assms(4)
  show ?thesis by simp
qed

lemma windowed_session:
  assumes "order fmempty = []" "num_blocks 512 payload = N" "acks_cover 4 N 1 acks"
  shows "ts_sent (tftp_exchange (temp_fs (boot_dir payload)) order MAX_CONCURRENT_TRANSFERS (tftp_config []) new_store
      (rrq_octet ''boot/x64/ipxe.efi'' [(''blksize'', ''512''), (''windowsize'', ''4''), (''tsize'', ''0'')])
      (map make_ack (0 # map of_nat acks)))
    = make_oack_packet (ng_options (negotiate (ipxe_request None (Some 4)) (length payload)))
      # map (block_packet 512 payload) (acked_blocks 4 N 1 acks)"
  using ipxe_session [where order = order and payload = payload and acks = acks, OF ipxe_requests(1) assms(1) refl] assms(2,3)
  by (simp add: ipxe_negotiated(2))

lemma timed_session:
  assumes "order fmempty = []" "num_blocks 512 payload = N" "acks_cover 1 N 1 acks"
  shows "ts_sent (tftp_exchange (temp_fs (boot_dir payload)) order MAX_CONCURRENT_TRANSFERS (tftp_config []) new_store
      (rrq_octet ''boot/x64/ipxe.efi'' [(''blksize'', ''512''), (''timeout'', ''1''), (''tsize'', ''0'')])
      (map make_ack (0 # map of_nat acks)))
    = make_oack_packet (ng_options (negotiate (ipxe_request (Some 1) None) (length payload)))
      # map (block_packet 512 payload) (acked_blocks 1 N 1 acks)"
  using ipxe_session [where order = order and payload = payload and acks = acks, OF ipxe_requests(2) assms(1) refl] assms(2,3)
  by (simp add: ipxe_negotiated(1) del: One_nat_def)

lemma all_blocks: "0 < B \<Longrightarrow> num_blocks B C = N \<Longrightarrow> concat (map (file_block B C) [1..<Suc N]) = C"
  using concat_file_blocks by blast

lemma length_file_block: "length (file_block B C k) = min B (length C - (k - 1) * B)"
  by (simp add: file_block_def)

lemma length_counting_bytes: "length (counting_bytes m n) = n"
  by (simp add: counting_bytes_def)

text \<open>The client over the blocks of a file.\<close>

lemma windowed_block:
  "windowed_recv B W drop_block (Heard (block_packet B C k) # rest) c =
     (if drop_block = Some (of_nat k) \<and> \<not> wc_dropped c then windowed_recv B W drop_block rest (c\<lparr>wc_dropped := True\<rparr>)
      else if unat (of_nat k :: u16) \<noteq> wc_expected c then windowed_recv B W drop_block rest c
      else if length (file_block B C k) < B then Some (wc_received c @ file_block B C k, [of_nat k])
      else if wc_count c + 1 = W then
        map_option (map_prod id ((#) (of_nat k)))
          (windowed_recv B W drop_block rest
             (c\<lparr>wc_received := wc_received c @ file_block B C k, wc_last := of_nat k, wc_expected := wc_expected c + 1, wc_count := 0\<rparr>))
      else windowed_recv B W drop_block rest
             (c\<lparr>wc_received := wc_received c @ file_block B C k, wc_last := of_nat k, wc_expected := wc_expected c + 1,
                wc_count := wc_count c + 1\<rparr>))"
proof -
  have "map_option (map_prod id ((@) [])) r = r" for r :: "(bytes \<times> u16 list) option"
    by (cases r) (simp_all add: map_prod_def split: prod.split)
  moreover have "(@) [a] = (#) a" for a :: u16 by (rule ext) simp
  ultimately show ?thesis by (simp add: parse_block Let_def)
qed

declare windowed_recv.simps(4) [simp del]

lemma test_multi_window_passes:
  assumes "order fmempty = []"
  shows "test_tftp_windowsize_multi_window_transfer order"
proof -
  define payload where "payload = counting_bytes 256 (9 * 512 + 137)"
  have len: "length payload = 4745" by (simp add: payload_def length_counting_bytes)
  then have N: "num_blocks 512 payload = 10" by (simp add: num_blocks_def)
  have upto: "[1..<Suc 10] = [1, 2, 3, 4, 5, 6, 7, 8, 9, 10]" "acked_blocks 4 10 1 [4, 8, 10] = [1, 2, 3, 4, 5, 6, 7, 8, 9, 10]"
    by code_simp+
  have whole: "concat (map (file_block 512 payload) [1, 2, 3, 4, 5, 6, 7, 8, 9, 10]) = payload"
    using all_blocks [OF _ N] unfolding upto by simp
  have client: "windowed_recv_all 512 4 None (map Heard (map (block_packet 512 payload) [1, 2, 3, 4, 5, 6, 7, 8, 9, 10])) = Some (payload, [4, 8, 10])"
    using whole by (simp add: windowed_recv_all_def windowed_block length_file_block len del: One_nat_def)
  have cover: "acks_cover 4 10 1 [4, 8, 10]" by simp
  note sent = windowed_session [where order = order, OF assms N cover, unfolded upto(2)]
  have acks: "map make_ack [0, 4, 8, 10] = map make_ack (0 # map of_nat [4, 8, 10])" by simp
  show ?thesis
    unfolding test_tftp_windowsize_multi_window_transfer_def Let_def payload_def [symmetric] acks sent
    by (simp only: list.case oack_ipxe option.case client) (simp add: ipxe_negotiated(2))
qed

lemma test_lost_block_passes:
  assumes "order fmempty = []"
  shows "test_tftp_windowsize_recovers_lost_block order"
proof -
  define payload where "payload = counting_bytes 251 (5 * 512 + 100)"
  have len: "length payload = 2660" by (simp add: payload_def length_counting_bytes)
  then have N: "num_blocks 512 payload = 6" by (simp add: num_blocks_def)
  have upto: "[1..<Suc 6] = [1, 2, 3, 4, 5, 6]" "acked_blocks 4 6 1 [2, 6] = [1, 2, 3, 4, 3, 4, 5, 6]" by code_simp+
  have whole: "concat (map (file_block 512 payload) [1, 2, 3, 4, 5, 6]) = payload"
    using all_blocks [OF _ N] unfolding upto by simp
  define packets where "packets = map (block_packet 512 payload) [1, 2, 3, 4, 3, 4, 5, 6]"
  have client: "windowed_recv_all 512 4 (Some 3) (map Heard (take 4 packets) @ [Silence] @ map Heard (drop 4 packets)) = Some (payload, [2, 6])"
    using whole by (simp add: packets_def windowed_recv_all_def windowed_block length_file_block len del: One_nat_def)
  have cover: "acks_cover 4 6 1 [2, 6]" by simp
  note sent = windowed_session [where order = order, OF assms N cover, unfolded upto(2)]
  have acks: "map make_ack [0, 2, 6] = map make_ack (0 # map of_nat [2, 6])" by simp
  show ?thesis
    unfolding test_tftp_windowsize_recovers_lost_block_def Let_def payload_def [symmetric] acks sent packets_def [symmetric]
    by (simp only: list.case oack_ipxe client) simp
qed

lemma test_non_multiple_passes:
  assumes "order fmempty = []"
  shows "test_tftp_transfer_non_multiple_blksize_intact order"
proof -
  define payload where "payload = counting_bytes 256 (512 + 137)"
  have len: "length payload = 649" by (simp add: payload_def length_counting_bytes)
  then have N: "num_blocks 512 payload = 2" by (simp add: num_blocks_def)
  have upto: "[1..<Suc 2] = [1, 2]" "acked_blocks 1 2 1 [1, 2] = [1, 2]" by code_simp+
  have whole: "concat (map (file_block 512 payload) [1, 2]) = payload"
    using all_blocks [OF _ N] unfolding upto by simp
  have client: "receive_in_turn 512 1 [] (map (block_packet 512 payload) [1, 2]) = Some (payload, [1, 2])"
    using whole by (simp add: parse_block length_file_block len del: One_nat_def)
  have cover: "acks_cover 1 2 1 [1, 2]" by simp
  note sent = timed_session [where order = order, OF assms N cover, unfolded upto(2)]
  have acks: "map make_ack [0, 1, 2] = map make_ack (0 # map of_nat [1, 2])" by simp
  show ?thesis
    unfolding test_tftp_transfer_non_multiple_blksize_intact_def Let_def payload_def [symmetric] acks sent
    by (simp only: list.case oack_ipxe client) simp
qed

text \<open>A store with one host, at the address of the client.\<close>

definition one_host :: "host_order \<Rightarrow> bool" where
  "one_host order \<longleftrightarrow> (\<forall>k h. order (fmupd k h fmempty) = [h])"

lemma known_hosts:
  assumes "is_valid_mac mac"
  shows "ss_hosts (known_client mac name) = fmupd mac
     \<lparr>hs_mac = mac, hs_name = Some name, hs_status = Polling, hs_assigned_target = None, hs_last_seen = 0,
      hs_client_ip = Some ''127.0.0.1'', hs_architecture = Some ''x86_64''\<rparr> fmempty"
  using assms by (simp add: known_client_def update_host_status_def new_store_def normalize_valid_mac MAX_TRACKED_HOSTS_def Let_def)

lemma known_found:
  assumes "one_host order" "is_valid_mac mac"
  shows "client_host order (known_client mac name) (SocketAddr (V4 [127, 0, 0, 1]) 25070) = Some
     \<lparr>hs_mac = mac, hs_name = Some name, hs_status = Polling, hs_assigned_target = None, hs_last_seen = 0,
      hs_client_ip = Some ''127.0.0.1'', hs_architecture = Some ''x86_64''\<rparr>"
proof -
  have "ip_to_string (addr_ip (SocketAddr (V4 [127, 0, 0, 1]) 25070)) = ''127.0.0.1''" by code_simp
  with assms show ?thesis by (simp add: client_host_def list_hosts_def known_hosts one_host_def)
qed

lemma status_after:
  assumes "status_of mac st = Some s" "\<forall>op \<in> set ops. \<not> is_sweep op"
  shows "status_of mac (apply_ops now ops st) = Some (last_status mac ops s)"
  using assms registry.tracked_status [of mac st _ ops now] by (fastforce simp: status_of_def apply_ops_def)

lemma known_status: "is_valid_mac mac \<Longrightarrow> status_of mac (known_client mac name) = Some Polling"
  by (simp add: status_of_def get_host_def known_hosts normalize_valid_mac)

lemmas call_defs = booting_ops_def mark_tftp_completed_def mark_tftp_failed_def

lemma test_negotiation_passes:
  assumes "one_host order"
  shows "test_tftp_server_negotiation_and_transfer order"
proof -
  define special where "special = as_bytes ''This is a special custom EFI payload override!''"
  define fs where "fs = temp_fs (boot_dir (as_bytes ''This is the default EFI payload!'') @ [([''tmp'', ''t'', ''boot'', ''special.efi''], Regular special)])"
  define h where "h = (test_host ''00:aa:bb:cc:dd:ee'' ''test-client'' ''/tmp/nixos.iso'')\<lparr>hc_bootloader := Some ''boot/special.efi''\<rparr>"
  define host where "host = \<lparr>hs_mac = ''00:aa:bb:cc:dd:ee'', hs_name = Some ''test-client'', hs_status = Polling, hs_assigned_target = None, hs_last_seen = 0,
      hs_client_ip = Some ''127.0.0.1'', hs_architecture = Some ''x86_64''\<rparr>"
  have mac: "is_valid_mac ''00:aa:bb:cc:dd:ee''" by code_simp
  have slots: "0 < MAX_CONCURRENT_TRANSFERS" by (simp add: MAX_CONCURRENT_TRANSFERS_def)
  have name: "final_filename (tftp_config [h]) (Some host) ''boot/x64/ipxe.efi'' = ''boot/special.efi''"
    unfolding h_def host_def by code_simp
  have path: "safe_join (resolve_path fs []) temp_dir ''boot/special.efi'' = Some ''/tmp/t/boot/special.efi''"
    "open_file fs ''/tmp/t/boot/special.efi'' = Inr special"
    unfolding fs_def by code_simp+
  have len: "length special = 46" by (simp add: special_def as_bytes_def)
  then have N: "num_blocks 512 special = 1" by (simp add: num_blocks_def)
  have acks: "map make_ack [0, 1] = map make_ack (0 # map of_nat [1])" by simp
  have "acks_cover 1 1 1 [1]" "acked_blocks 1 1 1 [1] = [1]" by code_simp+
  then have blocks: "acks_cover 1 1 1 [1]" "acked_blocks 1 1 1 [1] = [1]" by simp_all
  define ng where "ng = negotiate (ipxe_request (Some 1) None) (length special)"
  have ng: "ng_blksize ng = 512" "ng_windowsize ng = 1" "ng_options ng = [(''blksize'', ''512''), (''timeout'', ''1''), (''tsize'', dec_of_nat (length special))]"
    by (simp_all add: ng_def ipxe_negotiated(1) del: One_nat_def)
  define st0 where "st0 = known_client ''00:aa:bb:cc:dd:ee'' ''test-client''"
  define st1 where "st1 = apply_ops 0 (booting_ops (Some ''00:aa:bb:cc:dd:ee'') ''boot/x64/ipxe.efi'' ''/tmp/t/boot/special.efi'') st0"
  define st2 where "st2 = apply_ops 1 (mark_tftp_completed (Some ''00:aa:bb:cc:dd:ee'') 1) st1"
  have started: "status_of ''00:aa:bb:cc:dd:ee'' st1 = Some Booting"
    using status_after [OF known_status [OF mac], of "booting_ops (Some ''00:aa:bb:cc:dd:ee'') ''boot/x64/ipxe.efi'' ''/tmp/t/boot/special.efi''" ]
    by (simp add: st1_def st0_def booting_ops_def)
  have ended: "status_of ''00:aa:bb:cc:dd:ee'' st2 = Some Completed"
    using status_after [OF started, of "mark_tftp_completed (Some ''00:aa:bb:cc:dd:ee'') 1"]
    by (simp add: st2_def mark_tftp_completed_def)
  have "tftp_exchange fs order MAX_CONCURRENT_TRANSFERS (tftp_config [h]) st0
      (rrq_octet ''boot/x64/ipxe.efi'' [(''blksize'', ''512''), (''timeout'', ''1''), (''tsize'', ''0'')]) (map make_ack (0 # map of_nat [1]))
    = \<lparr>ts_sent = make_oack_packet (ng_options ng) # map (block_packet 512 special) [1], ts_started = st1, ts_ended = st2\<rparr>"
    using session_completes [where order = order and fs = fs and config = "tftp_config [h]" and acks = "[1]",
        OF slots ipxe_requests(2) known_found [OF assms mac] _ path(2) octet_ipxe ng_def _ _ _ refl]
      name path(1) blocks N ng
    by (simp add: ipxe_request_def tftp_root_config host_def st0_def st1_def st2_def del: One_nat_def)
  moreover have "parse_data (block_packet 512 special 1) = Some (1, special)"
    using len by (simp add: parse_block file_block_def)
  moreover have "parse_oack (make_oack_packet (ng_options ng)) = Some (ng_options ng)" by (simp add: ng_def oack_ipxe)
  ultimately show ?thesis
    unfolding test_tftp_server_negotiation_and_transfer_def Let_def special_def [symmetric] fs_def [symmetric] h_def [symmetric] acks st0_def [symmetric]
    using started ended ng(3) by simp
qed

lemma test_timeout_passes:
  assumes "one_host order"
  shows "test_tftp_timeout_marks_host_failed order"
proof -
  let ?m = "''00:11:22:33:44:55''" and ?fs = "temp_fs (boot_dir (as_bytes ''payload-that-never-gets-acked''))"
  let ?rrq = "rrq_octet ''boot/x64/ipxe.efi'' [(''blksize'', ''512''), (''timeout'', ''1''), (''tsize'', ''0'')]"
  have mac: "is_valid_mac ?m" by code_simp
  define st0 where "st0 = known_client ?m ''failing-client''"
  define j where "j = \<lparr>jb_path = ''/tmp/t/boot/x64/ipxe.efi'', jb_request = ipxe_request (Some 1) None, jb_mac = Some ?m\<rparr>"
  have name: "final_filename (tftp_config []) host ''boot/x64/ipxe.efi'' = ''boot/x64/ipxe.efi''" for host
    by (simp add: final_filename_def custom_bootloader_def find_host_def tftp_config_def split: option.split)
  have job: "re_job (listener_step (resolve_path ?fs []) order (tftp_config []) SocketReady MAX_CONCURRENT_TRANSFERS st0 ?rrq
      (SocketAddr (V4 [127, 0, 0, 1]) 25070)) = Some j"
    using known_found [OF assms mac, of "''failing-client''"] ipxe_requests(2) name ipxe_path(1)
    by (intro listener_jobI) (simp_all add: j_def MAX_CONCURRENT_TRANSFERS_def tftp_root_config ipxe_request_def st0_def)
  define st1 where "st1 = apply_ops 0 (booting_ops (Some ?m) ''boot/x64/ipxe.efi'' ''/tmp/t/boot/x64/ipxe.efi'') st0"
  define st2 where "st2 = apply_ops 1 (mark_tftp_failed (Some ?m) ''OACK negotiation timed out'') st1"
  have started: "status_of ?m st1 = Some Booting"
    using status_after [OF known_status [OF mac], of "booting_ops (Some ?m) ''boot/x64/ipxe.efi'' ''/tmp/t/boot/x64/ipxe.efi''"]
    by (simp add: st1_def st0_def booting_ops_def)
  have ended: "status_of ?m st2 = Some Failed"
    using status_after [OF started, of "mark_tftp_failed (Some ?m) ''OACK negotiation timed out''"]
    by (simp add: st2_def mark_tftp_failed_def)
  have other: "parse_ack_packet (ack_buf (make_ack_packet 9999)) = Some 9999" "\<not> is_error_packet (ack_buf (make_ack_packet 9999))"
    by (simp_all add: ack_buf_ack wire_simps make_ack_not_error)
  have policy: "1 < rp_deadline (transfer_policy 0)" "rp_max_retries (transfer_policy 0) = 5"
    by (simp_all add: transfer_policy_def MAX_RETRIES_def TRANSFER_DEADLINE_def from_secs_def)
  have nonzero: "(9999 :: u16) \<noteq> 0" by simp
  define t where "t = on_time (Recv (make_ack_packet 9999))"
  have t: "t_send t = (\<lambda>_. None)" "t_now t = 1" "t_recv t = Recv (make_ack_packet 9999)" by (simp_all add: t_def on_time_def)
  have turns: "map on_time (replicate 8 (make_ack 9999)) = [t, t, t, t, t, t, t, t]"
    by (simp add: make_ack_def t_def eval_nat_numeral)
  have "\<exists>out left. send_and_await_ack pkt 0 (transfer_policy 0) [t, t, t, t, t, t, t, t] 0 = (out, Some (Inr GaveUp), left)" for pkt
    using policy other nonzero by (simp add: t Let_def)
  then have run: "\<exists>out. handle_tftp_transfer file_read (Inr r) (Inr n) 0 (map on_time (replicate 8 (make_ack 9999))) (ipxe_request (Some 1) None) (Some ?m)
      = (out, mark_tftp_failed (Some ?m) ''OACK negotiation timed out'', Some (Inl TimedOut))" for r n
  proof -
    obtain out left where gave_up: "send_and_await_ack (make_oack_packet (ng_options (negotiate (ipxe_request (Some 1) None) n))) 0
        (transfer_policy 0) [t, t, t, t, t, t, t, t] 0 = (out, Some (Inr GaveUp), left)"
      using \<open>\<And>pkt. \<exists>out left. send_and_await_ack pkt 0 (transfer_policy 0) [t, t, t, t, t, t, t, t] 0 = (out, Some (Inr GaveUp), left)\<close> by blast
    have "ng_options (negotiate (ipxe_request (Some 1) None) n) \<noteq> []" by (simp add: ipxe_negotiated(1) del: One_nat_def)
    with gave_up octet_ipxe [of "Some 1" None] show ?thesis
      unfolding turns by (simp add: handle_tftp_transfer_def is_octet_def Let_def del: One_nat_def)
  qed
  have "\<exists>out. handle_tftp_transfer file_read (Inr (whole_file (as_bytes ''payload-that-never-gets-acked'')))
      (Inr (length (as_bytes ''payload-that-never-gets-acked''))) 0 (map on_time (replicate 8 (make_ack 9999))) (ipxe_request (Some 1) None) (Some ?m)
      = (out, mark_tftp_failed (Some ?m) ''OACK negotiation timed out'', Some (Inl TimedOut))" by (rule run)
  then have "ts_ended (tftp_exchange ?fs order MAX_CONCURRENT_TRANSFERS (tftp_config []) st0 ?rrq (replicate 8 (make_ack 9999))) = st2"
    using job listener_job [OF job]
    by (auto simp: tftp_exchange_def Let_def j_def ipxe_path(2) ipxe_request_def st1_def st2_def split: prod.split)
  with ended show ?thesis by (simp add: test_tftp_timeout_marks_host_failed_def st0_def)
qed

lemma test_busy_passes:
  assumes "order fmempty = []"
  shows "test_tftp_server_busy_at_injected_limit order"
proof -
  let ?fs = "temp_fs (boot_dir (as_bytes ''busy-test-payload''))"
  let ?rrq = "rrq_octet ''boot/x64/ipxe.efi'' [(''blksize'', ''512''), (''timeout'', ''1''), (''tsize'', ''0'')]"
  define j where "j = \<lparr>jb_path = ''/tmp/t/boot/x64/ipxe.efi'', jb_request = ipxe_request (Some 1) None, jb_mac = None\<rparr>"
  have none: "client_host order new_store src = None" for src
    by (simp add: client_host_def list_hosts_def new_store_def assms)
  have job: "re_job (listener_step (resolve_path ?fs []) order (tftp_config []) SocketReady 1 new_store ?rrq src) = Some j" for src
    using ipxe_requests(2) ipxe_path(1) none
    by (intro listener_jobI) (simp_all add: j_def final_plain tftp_root_config ipxe_request_def)
  have ops: "re_ops (listener_step (resolve_path ?fs []) order (tftp_config []) SocketReady 1 new_store ?rrq src) = []" for src
    using listener_job [OF job [of src]] by (simp add: j_def booting_ops_def)
  define s1 where "s1 = receive_packet (resolve_path ?fs []) order (tftp_config []) 0 SocketReady ?rrq
    (SocketAddr (V4 [127, 0, 0, 1]) 25131) (start_server 1 new_store)"
  have s1: "tf_slots s1 = 0" "tf_store s1 = new_store"
    using job ops by (simp_all add: s1_def receive_packet_def start_server_def apply_ops_def)
  have "opcode (take 1500 ?rrq) = Some OP_RRQ" using ipxe_requests(2) by (rule parse_rrq_opcode)
  then have dispatch: "dispatch_opcode (take 1500 ?rrq) = Serve" by (auto simp: dispatch_opcode_def opcode_def Let_def split: if_splits)
  have second: "re_replies (listener_step (resolve_path ?fs []) order (tftp_config []) SocketReady 0 new_store ?rrq src)
      = [make_error_packet 0 ''Server busy'']" for src
    using ipxe_requests(2) ipxe_path(1) none dispatch
    by (simp add: listener_step_def Let_def final_plain tftp_root_config ipxe_request_def start_transfer_def)
  have policy: "1 < rp_deadline (transfer_policy 0)" "rp_max_retries (transfer_policy 0) = 5"
    by (simp_all add: transfer_policy_def MAX_RETRIES_def TRANSFER_DEADLINE_def from_secs_def)
  have "handle_tftp_transfer file_read (Inr r) (Inr n) 0 [on_time RecvTimeout] (ipxe_request (Some 1) None) None
      = ([make_oack_packet (ng_options (negotiate (ipxe_request (Some 1) None) n))], [], None)" for r n
    using octet_ipxe [of "Some 1" None] policy
    by (simp add: handle_tftp_transfer_def is_octet_def ipxe_negotiated(1) Let_def on_time_def del: One_nat_def)
  from this [of "whole_file (as_bytes ''busy-test-payload'')" "length (as_bytes ''busy-test-payload'')"] have held: "ts_sent (tftp_exchange ?fs order 1 (tftp_config []) new_store ?rrq [RecvTimeout]) \<noteq> []"
    using job by (simp add: tftp_exchange_def Let_def j_def ipxe_path(2) split: prod.split)
  have "error_of (make_error_packet 0 ''Server busy'') = Some (5, 0, ''Server busy'')" by code_simp
  with held second s1 show ?thesis
    unfolding test_tftp_server_busy_at_injected_limit_def Let_def s1_def [symmetric]
    by (simp add: start_server_def)
qed

end
