(* ===== verification/Tests_Extractor.thy ===== *)
theory Tests_Extractor
  imports Extractor Tests_Core "HOL-Library.Countable"
begin

text \<open>
  The tests of \<^verbatim>\<open>crates/bootycall-extractor\<close>: the unit tests of \<^verbatim>\<open>lib.rs\<close> and \<^verbatim>\<open>iso.rs\<close> and
  \<^verbatim>\<open>tests/extractor_tests.rs\<close>, run on the model. The images the tests write are given by the
  tree of files the reader libraries find in them; the reader of JSON is a parameter with
  its round trip. A test is the conjunction of its assertions, and a lemma says that it passes.
\<close>

section \<open>Names and depths\<close>

definition kernel_name_heuristic :: bool where
  "kernel_name_heuristic \<longleftrightarrow>
     list_all is_kernel_name [''vmlinuz'', ''bzImage'', ''BZIMAGE'', ''kernel'', ''Image'', ''image'', ''IMAGE'']
     \<and> list_all (\<lambda>bad. \<not> is_kernel_name bad)
         [''initrd.img'', ''grub.cfg'', ''vmlinuz.old'', ''images'', ''kernel.efi'', []]"

definition initrd_name_heuristic :: bool where
  "initrd_name_heuristic \<longleftrightarrow>
     list_all is_initrd_name [''initrd'', ''initrd.img'', ''initramfs-linux.img'', ''INITRAMFS'', ''boot-initrd.gz'']
     \<and> list_all (\<lambda>bad. \<not> is_initrd_name bad) [''vmlinuz'', ''kernel'', ''root.squashfs'', []]"

definition depth_guard_allows_shallow_recursion :: bool where
  "depth_guard_allows_shallow_recursion \<longleftrightarrow>
     \<not> depth_exceeded 0 \<and> \<not> depth_exceeded 1 \<and> \<not> depth_exceeded (MAX_DIR_DEPTH - 1)"

definition depth_guard_stops_at_or_past_cap :: bool where
  "depth_guard_stops_at_or_past_cap \<longleftrightarrow>
     depth_exceeded MAX_DIR_DEPTH \<and> depth_exceeded (MAX_DIR_DEPTH + 1) \<and> depth_exceeded (2 ^ 64 - 1)"

definition depth_cap_is_reasonable :: bool where
  "depth_cap_is_reasonable \<longleftrightarrow> MAX_DIR_DEPTH \<ge> 16 \<and> MAX_DIR_DEPTH \<le> 1024"

lemma name_tests_pass: "kernel_name_heuristic" "initrd_name_heuristic"
  by code_simp+

lemma depth_tests_pass:
  "depth_guard_allows_shallow_recursion" "depth_guard_stops_at_or_past_cap" "depth_cap_is_reasonable"
  by (simp_all add: depth_guard_allows_shallow_recursion_def depth_guard_stops_at_or_past_cap_def
      depth_cap_is_reasonable_def depth_exceeded_def MAX_DIR_DEPTH_def)

section \<open>Images as trees\<close>

datatype tree = TreeFile bytes | TreeDir "(string \<times> tree) list"

fun tree_entry :: "string \<times> tree \<Rightarrow> ((string \<times> tree) list, bytes) entry" where
  "tree_entry (name, TreeFile content) = FileEntry name content"
| "tree_entry (name, TreeDir entries) = DirEntry name entries"

fun tree_open :: "string list \<Rightarrow> (string \<times> tree) list \<Rightarrow> ((string \<times> tree) list, bytes) entry option" where
  "tree_open [] entries = Some (DirEntry [] entries)"
| "tree_open (name # rest) entries =
     (case map_of entries name of
        None \<Rightarrow> None
      | Some (TreeFile content) \<Rightarrow> (if rest = [] then Some (FileEntry name content) else None)
      | Some (TreeDir inner) \<Rightarrow> (if rest = [] then Some (DirEntry name inner) else tree_open rest inner))"

definition image_of :: "(string \<times> tree) list \<Rightarrow> ((string \<times> tree) list, bytes, file_reader, 'e) image" where
  "image_of root =
     \<lparr>im_root = root, im_contents = map (Inr \<circ> tree_entry), im_open = (\<lambda>p. Inr (tree_open (split_on (CHR ''/'') p) root)),
      im_reader = whole_file\<rparr>"

section \<open>ISO images\<close>

definition fine_outputs :: outputs where
  "fine_outputs = \<lparr>ou_kernel = \<lparr>sk_create = None, sk_write = \<lambda>_. None\<rparr>, ou_initrd = \<lparr>sk_create = None, sk_write = \<lambda>_. None\<rparr>\<rparr>"

definition no_artifacts :: artifacts where "no_artifacts = \<lparr>ar_kernel = None, ar_initrd = None\<rparr>"

definition extract_iso :: "(string \<times> string) list \<Rightarrow> string option \<Rightarrow> string option \<Rightarrow> extraction" where
  "extract_iso files ko io =
     extract_from_iso file_read
       (Inr (Inr (image_of (map (\<lambda>(name, text). (name, TreeFile (as_bytes text))) files))) :: (unit + ((string \<times> tree) list, bytes, file_reader, unit) image) io)
       ko io fine_outputs None no_artifacts"

definition holds_texts :: "artifacts \<Rightarrow> string \<Rightarrow> string \<Rightarrow> bool" where
  "holds_texts a k i \<longleftrightarrow> ar_kernel a = Some (as_bytes k) \<and> ar_initrd a = Some (as_bytes i)"

definition test_iso_auto_detect :: bool where
  "test_iso_auto_detect \<longleftrightarrow>
     (case extract_iso [(''vmlinuz'', ''iso_kernel_bytes''), (''initrd'', ''iso_initrd_bytes'')] None None of
        Some (a, Inr _) \<Rightarrow> holds_texts a ''iso_kernel_bytes'' ''iso_initrd_bytes''
      | _ \<Rightarrow> False)"

definition test_iso_explicit_overrides :: bool where
  "test_iso_explicit_overrides \<longleftrightarrow>
     (let iso = [(''alpha'', ''override_kernel''), (''beta'', ''override_initrd'')]
      in (case extract_iso iso None None of Some (_, res) \<Rightarrow> \<not> is_ok res | None \<Rightarrow> False)
         \<and> (case extract_iso iso (Some ''alpha'') (Some ''beta'') of
              Some (a, Inr _) \<Rightarrow> holds_texts a ''override_kernel'' ''override_initrd''
            | _ \<Rightarrow> False))"

definition test_iso_missing_kernel_and_initrd :: bool where
  "test_iso_missing_kernel_and_initrd \<longleftrightarrow>
     (case extract_iso [(''initrd'', ''only_initrd'')] None None of Some (_, res) \<Rightarrow> res = Inl KernelNotFound | None \<Rightarrow> False)
     \<and> (case extract_iso [(''vmlinuz'', ''only_kernel'')] None None of Some (_, res) \<Rightarrow> res = Inl InitrdNotFound | None \<Rightarrow> False)"

text \<open>Copying a whole file to an output that takes every write.\<close>

lemma io_copy_whole: "sk_write sk = (\<lambda>_. None) \<Longrightarrow> io_copy file_read sk (whole_file bs) out = Some (out @ bs, Inr ())"
proof (induction bs arbitrary: out rule: length_induct)
  case (1 bs)
  have read: "file_read (whole_file bs) 8192 = Inr (take 8192 bs, whole_file (drop 8192 bs))"
    by (simp add: file_read_def whole_file_def)
  show ?case
  proof (cases bs)
    case Nil
    with read show ?thesis by (simp add: io_copy.simps)
  next
    case (Cons b bs')
    then have "length (drop 8192 bs) < length bs" "take 8192 bs \<noteq> []" by simp_all
    with 1 read show ?thesis by (subst io_copy.simps) simp
  qed
qed

lemma copy_whole:
  assumes "sk_create sk = None" "sk_write sk = (\<lambda>_. None)"
  shows "copy_capped file_read sk None (whole_file bs) old = Some (Some bs, Inr ())"
  by (simp add: copy_capped_def assms io_copy_whole)

lemma image_reader [simp]: "im_reader (image_of root) = whole_file"
  by (simp add: image_of_def)

lemma fine_copies [simp]:
  "copy_kernel file_read fine_outputs None (whole_file bs) a = Some (a\<lparr>ar_kernel := Some bs\<rparr>, Inr ())"
  "copy_initrd file_read fine_outputs None (whole_file bs) a = Some (a\<lparr>ar_initrd := Some bs\<rparr>, Inr ())"
  by (simp_all add: copy_kernel_def copy_initrd_def fine_outputs_def copy_whole)

lemma extract_iso_whole:
  assumes "vol = image_of root" "pick_iso vol ko is_kernel_name KernelNotFound = Inr k" "pick_iso vol io is_initrd_name InitrdNotFound = Inr i"
  shows "extract_from_iso file_read (Inr (Inr vol)) ko io fine_outputs None a = Some (\<lparr>ar_kernel = Some k, ar_initrd = Some i\<rparr>, Inr ())"
  using assms by (cases a) (simp add: extract_from_iso_def)

lemma iso_tests_pass: "test_iso_auto_detect" "test_iso_explicit_overrides" "test_iso_missing_kernel_and_initrd"
proof -
  define auto_iso over_iso where
    "auto_iso = [(''vmlinuz'', TreeFile (as_bytes ''iso_kernel_bytes'')), (''initrd'', TreeFile (as_bytes ''iso_initrd_bytes''))]"
    and "over_iso = [(''alpha'', TreeFile (as_bytes ''override_kernel'')), (''beta'', TreeFile (as_bytes ''override_initrd''))]"
  have "pick_iso (image_of auto_iso :: (_, _, _, unit) image) None is_kernel_name KernelNotFound = Inr (as_bytes ''iso_kernel_bytes'')"
    "pick_iso (image_of auto_iso :: (_, _, _, unit) image) None is_initrd_name InitrdNotFound = Inr (as_bytes ''iso_initrd_bytes'')"
    "pick_iso (image_of over_iso :: (_, _, _, unit) image) (Some ''alpha'') is_kernel_name KernelNotFound = Inr (as_bytes ''override_kernel'')"
    "pick_iso (image_of over_iso :: (_, _, _, unit) image) (Some ''beta'') is_initrd_name InitrdNotFound = Inr (as_bytes ''override_initrd'')"
    unfolding auto_iso_def over_iso_def by code_simp+
  note picked = extract_iso_whole [OF refl this(1,2)] extract_iso_whole [OF refl this(3,4)]
  show "test_iso_auto_detect"
    using picked(1) by (simp add: test_iso_auto_detect_def extract_iso_def auto_iso_def holds_texts_def)
  have "case extract_iso [(''alpha'', ''override_kernel''), (''beta'', ''override_initrd'')] None None of
      Some (_, res) \<Rightarrow> \<not> is_ok res | None \<Rightarrow> False" by code_simp
  with picked(2) show "test_iso_explicit_overrides"
    by (simp add: test_iso_explicit_overrides_def extract_iso_def over_iso_def holds_texts_def)
  show "test_iso_missing_kernel_and_initrd" by code_simp
qed

section \<open>The partition slice\<close>

definition seek_fails :: "slice \<Rightarrow> seek_from \<Rightarrow> bool" where
  "seek_fails s target \<longleftrightarrow> (case slice_seek s target of Inl e \<Rightarrow> e = InvalidInput | Inr _ \<Rightarrow> False)"

definition test_partition_slice_seek_guards_overflow :: bool where
  "test_partition_slice_seek_guards_overflow \<longleftrightarrow>
     (let s = new_slice \<lparr>df_plan = [], df_data = replicate 1024 0\<rparr> 0 1024 in
      seek_fails s (Start 0xFFFFFFFFFFFFFFFF)
      \<and> (case slice_seek s (Start 1) of
           Inl _ \<Rightarrow> False
         | Inr (_, s1) \<Rightarrow>
             seek_fails s1 (Current 0x7FFFFFFFFFFFFFFF)
             \<and> (case slice_seek s1 (Start 512) of
                  Inl _ \<Rightarrow> False
                | Inr (p, s2) \<Rightarrow> p = 512 \<and> (case slice_seek s2 (End (- 16)) of Inl _ \<Rightarrow> False | Inr (q, _) \<Rightarrow> q = 1008))))"

lemma seek_test_passes: "test_partition_slice_seek_guards_overflow"
  by (simp add: test_partition_slice_seek_guards_overflow_def seek_fails_def slice_seek_def seek_target_def new_slice_def
      to_i64_def checked_add_def)

section \<open>Messages\<close>

text \<open>The texts of the errors; what the operating system and the reader libraries say is an argument.\<close>

definition extractor_message :: "(extractor_error \<Rightarrow> string) \<Rightarrow> extractor_error \<Rightarrow> string" where
  "extractor_message detail e =
     (case e of
        IoError _ \<Rightarrow> ''I/O error: '' @ detail e
      | Iso \<Rightarrow> ''ISO reader error: '' @ detail e
      | Disk \<Rightarrow> ''Disk reader error: '' @ detail e
      | ImageNotFound path \<Rightarrow> ''Image file not found: '' @ path
      | KernelNotFound \<Rightarrow> ''Kernel file not found inside the image''
      | InitrdNotFound \<Rightarrow> ''Initrd file not found inside the image''
      | ArtifactTooLarge limit \<Rightarrow>
          ''Extracted artifact exceeds the configured max_artifact_bytes limit of '' @ dec_of_nat limit @ '' bytes'')"

section \<open>Hosts with disk images\<close>

text \<open>
  The machine of these tests: the image has a modification time and a size, every call
  succeeds, the ISO reader rejects the image, and its one partition, wherever it lies,
  mounts as the tree.
\<close>

type_synonym test_env = "((string \<times> tree) list, bytes, file_reader, unit) sync_env"

definition disk_env :: "nat \<Rightarrow> u64 \<Rightarrow> u64 \<Rightarrow> (string \<times> tree) list \<Rightarrow> test_env" where
  "disk_env mtime start len root =
     \<lparr>se_stat = Inr (Inr (int mtime), 5 * 1024 * 1024), se_mkdir = Inr (), se_read_meta = None, se_write_meta = None,
      se_remove = (\<lambda>_. True), se_outputs = fine_outputs, se_iso = Inr (Inl ()),
      se_gpt = Some [\<lparr>pt_used = True, pt_start = Some start, pt_len = Some len\<rparr>],
      se_reopen = Inr \<lparr>df_plan = [], df_data = []\<rparr>,
      se_mount = (\<lambda>s. if ps_start s = start \<and> ps_len s = len then Some (image_of root) else None)\<rparr>"

definition missing_env :: test_env where
  "missing_env = (disk_env 0 0 0 [])\<lparr>se_stat := Inl NotFound\<rparr>"

definition boot_tree :: "(string \<times> string) list \<Rightarrow> (string \<times> tree) list" where
  "boot_tree files = [(''boot'', TreeDir (map (\<lambda>(name, text). (name, TreeFile (as_bytes text))) files))]"

definition build_dual_kernel_gpt_image :: "(string \<times> tree) list" where
  "build_dual_kernel_gpt_image =
     boot_tree [(''vmlinuz'', ''default_kernel''), (''initrd.img'', ''default_initrd''),
                (''vmlinuz-override'', ''override_kernel''), (''initrd-override.img'', ''override_initrd'')]"

type_synonym json_pair = "(cache_metadata \<Rightarrow> string option) \<times> (string \<Rightarrow> cache_metadata option)"

definition json_codec :: "json_pair \<Rightarrow> bool" where
  "json_codec j \<longleftrightarrow> (\<forall>m. \<exists>t. fst j m = Some t \<and> snd j t = Some m)"

definition sync_in :: "json_pair \<Rightarrow> test_env \<Rightarrow> host_config \<Rightarrow> nat option \<Rightarrow> host_cache \<Rightarrow> (host_cache \<times> (extractor_error + unit)) option" where
  "sync_in j env host limit c = sync_host_cache file_read (fst j) (snd j) env host limit c"

definition test_gpt_fat_extraction_and_caching :: "json_pair \<Rightarrow> nat \<Rightarrow> u64 \<Rightarrow> u64 \<Rightarrow> bool" where
  "test_gpt_fat_extraction_and_caching j mtime start len \<longleftrightarrow>
     (let env = disk_env mtime start len (boot_tree [(''vmlinuz'', ''kernel_test_payload''), (''initrd.img'', ''initrd_test_payload'')]);
          host = test_host ''00:11:22:33:44:55'' ''test-host'' ''test_disk.img''
      in case sync_in j env host None empty_cache of
           Some (c, Inr _) \<Rightarrow>
             holds_texts (ca_files c) ''kernel_test_payload'' ''initrd_test_payload'' \<and> ca_meta c \<noteq> None
             \<and> (case sync_in j env host None c of
                  Some (c', Inr _) \<Rightarrow> ar_kernel (ca_files c') = Some (as_bytes ''kernel_test_payload'')
                | _ \<Rightarrow> False)
         | _ \<Rightarrow> False)"

text \<open>In the last run of this test no output can be created, so a second extraction would fail.\<close>

definition test_cache_invalidated_on_kernel_path_change :: "json_pair \<Rightarrow> nat \<Rightarrow> u64 \<Rightarrow> u64 \<Rightarrow> bool" where
  "test_cache_invalidated_on_kernel_path_change j mtime start len \<longleftrightarrow>
     (let env = disk_env mtime start len build_dual_kernel_gpt_image;
          host = test_host ''00:11:22:33:44:66'' ''override-host'' ''test_disk.img'';
          host_with_override = host\<lparr>hc_kernel_path := Some ''boot/vmlinuz-override'', hc_initrd_path := Some ''boot/initrd-override.img''\<rparr>
      in case sync_in j env host None empty_cache of
           Some (c1, Inr _) \<Rightarrow>
             ar_kernel (ca_files c1) = Some (as_bytes ''default_kernel'')
             \<and> (case sync_in j env host_with_override None c1 of
                  Some (c2, Inr _) \<Rightarrow>
                    holds_texts (ca_files c2) ''override_kernel'' ''override_initrd''
                    \<and> (let frozen = \<lparr>sk_create = Some OtherIo, sk_write = \<lambda>_. Some OtherIo\<rparr> in
                        case sync_in j (env\<lparr>se_outputs := \<lparr>ou_kernel = frozen, ou_initrd = frozen\<rparr>\<rparr>) host_with_override None c2 of
                          Some (c3, Inr _) \<Rightarrow> ca_files c3 = ca_files c2
                        | _ \<Rightarrow> False)
                | _ \<Rightarrow> False)
         | _ \<Rightarrow> False)"

lemma extract_disk_whole:
  assumes "vol = image_of root" "pick_fat vol ko is_kernel_name = Inr (Some k)" "pick_fat vol io is_initrd_name = Inr (Some i)"
    and "hc_kernel_path host = ko" "hc_initrd_path host = io"
  shows "extract_any file_read (disk_env mtime start len root) host None a = Some (\<lparr>ar_kernel = Some k, ar_initrd = Some i\<rparr>, Inr ())"
  using assms
  by (cases a) (simp add: extract_any_def extract_from_iso_def extract_from_disk_def extract_initrd_fat_def disk_env_def new_slice_def)

lemma fresh_sync:
  assumes "json_codec j" "\<not> cache_valid (snd j) None host (mtime div 1000000000, 5 * 1024 * 1024) c"
    and "extract_any file_read (disk_env mtime start len root) host mb (ca_files c) = Some (a, Inr ())"
  shows "\<exists>c'. sync_in j (disk_env mtime start len root) host mb c = Some (c', Inr ()) \<and> ca_files c' = a \<and> ca_dir c'
    \<and> (\<exists>t. ca_meta c' = Some t \<and> snd j t = Some (current_key host (mtime div 1000000000, 5 * 1024 * 1024)))"
proof -
  obtain t where t: "fst j (current_key host (mtime div 1000000000, 5 * 1024 * 1024)) = Some t"
    "snd j t = Some (current_key host (mtime div 1000000000, 5 * 1024 * 1024))" using assms(1) by (auto simp: json_codec_def)
  have stamp: "image_stamp (disk_env mtime start len root) (hc_image_path host) = Inr (mtime div 1000000000, 5 * 1024 * 1024)"
    by (simp add: image_stamp_def disk_env_def)
  have fields: "se_read_meta (disk_env mtime start len root) = None" "se_mkdir (disk_env mtime start len root) = Inr ()"
    "se_write_meta (disk_env mtime start len root) = None" by (simp_all add: disk_env_def)
  show ?thesis
    using assms(2,3) t by (simp add: sync_in_def sync_host_cache_def stamp fields write_metadata_def write_to_file_def Let_def)
qed

lemma hit_sync:
  assumes "ca_files c = \<lparr>ar_kernel = Some k, ar_initrd = Some i\<rparr>" "ca_meta c = Some t"
    and "snd j t = Some (current_key host (mtime div 1000000000, 5 * 1024 * 1024))"
  shows "\<exists>c'. sync_in j ((disk_env mtime start len root)\<lparr>se_outputs := outs\<rparr>) host mb c = Some (c', Inr ()) \<and> ca_files c' = ca_files c"
proof -
  have "image_stamp ((disk_env mtime start len root)\<lparr>se_outputs := outs\<rparr>) (hc_image_path host) = Inr (mtime div 1000000000, 5 * 1024 * 1024)"
    by (simp add: image_stamp_def disk_env_def)
  moreover have "cache_valid (snd j) None host (mtime div 1000000000, 5 * 1024 * 1024) c"
    using assms by (simp add: cache_valid_def read_from_file_def current_key_def)
  moreover have "se_read_meta ((disk_env mtime start len root)\<lparr>se_outputs := outs\<rparr>) = None" by (simp add: disk_env_def)
  ultimately show ?thesis by (simp add: sync_in_def sync_host_cache_def Let_def)
qed

lemma disk_env_outputs [simp]: "(disk_env mtime start len root)\<lparr>se_outputs := fine_outputs\<rparr> = disk_env mtime start len root"
  by (simp add: disk_env_def)

lemma empty_not_valid: "\<not> cache_valid from_json r host stamp empty_cache"
  by (simp add: cache_valid_def empty_cache_def)

lemma test_picks:
  "pick_fat (image_of (boot_tree [(''vmlinuz'', ''kernel_test_payload''), (''initrd.img'', ''initrd_test_payload'')])) None is_kernel_name
     = Inr (Some (as_bytes ''kernel_test_payload''))"
  "pick_fat (image_of (boot_tree [(''vmlinuz'', ''kernel_test_payload''), (''initrd.img'', ''initrd_test_payload'')])) None is_initrd_name
     = Inr (Some (as_bytes ''initrd_test_payload''))"
  "pick_fat (image_of build_dual_kernel_gpt_image) None is_kernel_name = Inr (Some (as_bytes ''default_kernel''))"
  "pick_fat (image_of build_dual_kernel_gpt_image) None is_initrd_name = Inr (Some (as_bytes ''default_initrd''))"
  "pick_fat (image_of build_dual_kernel_gpt_image) (Some ''boot/vmlinuz-override'') is_kernel_name = Inr (Some (as_bytes ''override_kernel''))"
  "pick_fat (image_of build_dual_kernel_gpt_image) (Some ''boot/initrd-override.img'') is_initrd_name = Inr (Some (as_bytes ''override_initrd''))"
  by code_simp+

lemma test_host_paths [simp]: "hc_kernel_path (test_host m n p) = None" "hc_initrd_path (test_host m n p) = None"
  by (simp_all add: test_host_def)

lemmas plain_extraction = extract_disk_whole [OF refl test_picks(1,2) test_host_paths]
lemmas dual_extraction = extract_disk_whole [OF refl test_picks(3,4) test_host_paths]

lemma test_gpt_fat_extraction_and_caching_passes:
  assumes "json_codec j"
  shows "test_gpt_fat_extraction_and_caching j mtime start len"
proof -
  let ?env = "disk_env mtime start len (boot_tree [(''vmlinuz'', ''kernel_test_payload''), (''initrd.img'', ''initrd_test_payload'')])"
  let ?host = "test_host ''00:11:22:33:44:55'' ''test-host'' ''test_disk.img''"
  obtain c t where c: "sync_in j ?env ?host None empty_cache = Some (c, Inr ())"
    "ca_files c = \<lparr>ar_kernel = Some (as_bytes ''kernel_test_payload''), ar_initrd = Some (as_bytes ''initrd_test_payload'')\<rparr>"
    "ca_meta c = Some t" "snd j t = Some (current_key ?host (mtime div 1000000000, 5 * 1024 * 1024))"
    using fresh_sync [OF assms empty_not_valid plain_extraction] by blast
  obtain c' where "sync_in j ?env ?host None c = Some (c', Inr ())" "ca_files c' = ca_files c"
    using hit_sync [OF c(2,3,4), where outs = fine_outputs] unfolding disk_env_outputs by blast
  with c show ?thesis by (simp add: test_gpt_fat_extraction_and_caching_def holds_texts_def)
qed

lemma test_cache_invalidated_on_kernel_path_change_passes:
  assumes "json_codec j"
  shows "test_cache_invalidated_on_kernel_path_change j mtime start len"
proof -
  let ?env = "disk_env mtime start len build_dual_kernel_gpt_image"
  let ?host = "test_host ''00:11:22:33:44:66'' ''override-host'' ''test_disk.img''"
  let ?over = "?host\<lparr>hc_kernel_path := Some ''boot/vmlinuz-override'', hc_initrd_path := Some ''boot/initrd-override.img''\<rparr>"
  let ?stamp = "(mtime div 1000000000, 5 * 1024 * 1024 :: nat)"
  obtain c1 t1 where c1: "sync_in j ?env ?host None empty_cache = Some (c1, Inr ())"
    "ca_files c1 = \<lparr>ar_kernel = Some (as_bytes ''default_kernel''), ar_initrd = Some (as_bytes ''default_initrd'')\<rparr>"
    "ca_meta c1 = Some t1" "snd j t1 = Some (current_key ?host ?stamp)"
    using fresh_sync [OF assms empty_not_valid dual_extraction] by blast
  have "\<not> cache_valid (snd j) None ?over ?stamp c1"
    using c1 by (simp add: cache_valid_def read_from_file_def current_key_def)
  moreover have "hc_kernel_path ?over = Some ''boot/vmlinuz-override''" "hc_initrd_path ?over = Some ''boot/initrd-override.img''" by simp_all
  note extract_disk_whole [OF refl test_picks(5,6) this]
  ultimately obtain c2 t2 where c2: "sync_in j ?env ?over None c1 = Some (c2, Inr ())"
    "ca_files c2 = \<lparr>ar_kernel = Some (as_bytes ''override_kernel''), ar_initrd = Some (as_bytes ''override_initrd'')\<rparr>"
    "ca_meta c2 = Some t2" "snd j t2 = Some (current_key ?over ?stamp)"
    using fresh_sync [OF assms] by blast
  obtain c3 where "sync_in j (?env\<lparr>se_outputs := \<lparr>ou_kernel = \<lparr>sk_create = Some OtherIo, sk_write = \<lambda>_. Some OtherIo\<rparr>,
      ou_initrd = \<lparr>sk_create = Some OtherIo, sk_write = \<lambda>_. Some OtherIo\<rparr>\<rparr>\<rparr>) ?over None c2 = Some (c3, Inr ())" "ca_files c3 = ca_files c2"
    using hit_sync [OF c2(2,3,4)] by blast
  with c1 c2 show ?thesis by (simp add: test_cache_invalidated_on_kernel_path_change_def holds_texts_def)
qed

section \<open>All hosts\<close>

definition extractor_config :: "string \<Rightarrow> host_config list \<Rightarrow> config" where
  "extractor_config cache_dir hosts =
     \<lparr>cf_server =
        \<lparr>sc_http_bind = ''0.0.0.0:8080'', sc_tftp_bind = ''0.0.0.0:69'', sc_tftp_root = ''./tftpboot'',
         sc_proxy_dhcp_bind = ''0.0.0.0:4011'', sc_cache_dir = cache_dir, sc_static_dir = ''./static'',
         sc_bootloader_amd64 = ''boot/x64/ipxe.efi'', sc_bootloader_arm64 = ''boot/arm64/ipxe.efi'',
         sc_bootloader_bios = ''boot/x64/undionly.kpxe'', sc_oled_enabled = False, sc_oled_brightness = 255, sc_api_token = None,
         sc_max_artifact_bytes = None\<rparr>,
      cf_hosts = hosts\<rparr>"

text \<open>The run over all hosts, each image in the environment its path names.\<close>

definition sync_all_in :: "json_pair \<Rightarrow> (string \<Rightarrow> test_env) \<Rightarrow> config \<Rightarrow> (caches \<times> (extractor_error + sync_summary)) option" where
  "sync_all_in j env config =
     sync_all_hosts_cache
       (\<lambda>host. sync_in j (env (hc_image_path host)) host (sc_max_artifact_bytes (cf_server config))) False (Inr ()) config (\<lambda>_. empty_cache)"

definition test_sync_all_hosts_cache_partial_failure :: "json_pair \<Rightarrow> nat \<Rightarrow> u64 \<Rightarrow> u64 \<Rightarrow> bool" where
  "test_sync_all_hosts_cache_partial_failure j mtime start len \<longleftrightarrow>
     (let good = test_host ''00:11:22:33:44:77'' ''good-host'' ''good.img'';
          missing = test_host ''00:11:22:33:44:88'' ''missing-host'' ''does_not_exist.iso'';
          env = (\<lambda>path. if path = ''good.img'' then disk_env mtime start len build_dual_kernel_gpt_image else missing_env)
      in case sync_all_in j env (extractor_config ''cache'' [good, missing]) of
           Some (_, Inr s) \<Rightarrow>
             su_succeeded s = 1 \<and> length (su_failed s) = 1 \<and> fst (su_failed s ! 0) = ''missing-host'' \<and> summary_total s = 2
             \<and> partial_failure s \<and> \<not> all_failed s
         | _ \<Rightarrow> False)"

definition test_sync_all_hosts_cache_all_failed :: "json_pair \<Rightarrow> bool" where
  "test_sync_all_hosts_cache_all_failed j \<longleftrightarrow>
     (case sync_all_in j (\<lambda>_. missing_env) (extractor_config ''cache'' [test_host ''00:11:22:33:44:99'' ''missing-only'' ''nope.iso'']) of
        Some (_, Inr s) \<Rightarrow> su_succeeded s = 0 \<and> all_failed s \<and> \<not> partial_failure s
      | _ \<Rightarrow> False)"

lemma missing_sync: "sync_in j missing_env host mb c = Some (c, Inl (ImageNotFound (hc_image_path host)))"
  by (simp add: sync_in_def sync_host_cache_def image_stamp_def missing_env_def)

lemma sync_all_tests_pass:
  "json_codec j \<Longrightarrow> test_sync_all_hosts_cache_partial_failure j mtime start len" "test_sync_all_hosts_cache_all_failed j"
proof -
  have server: "sc_max_artifact_bytes (cf_server (extractor_config d hs)) = None" "cf_hosts (extractor_config d hs) = hs" for d hs
    by (simp_all add: extractor_config_def)
  have host: "hc_image_path (test_host m n p) = p" "hc_mac (test_host m n p) = m" "hc_name (test_host m n p) = n" for m n p
    by (simp_all add: test_host_def)
  note defs = sync_all_in_def sync_all_hosts_cache_def server host missing_sync summary_total_def partial_failure_def all_failed_def
  show "test_sync_all_hosts_cache_all_failed j" by (simp add: test_sync_all_hosts_cache_all_failed_def defs)
  assume "json_codec j"
  from fresh_sync [OF this empty_not_valid dual_extraction]
  obtain c where "sync_in j (disk_env mtime start len build_dual_kernel_gpt_image)
      (test_host ''00:11:22:33:44:77'' ''good-host'' ''good.img'') None empty_cache = Some (c, Inr ())" by blast
  then show "test_sync_all_hosts_cache_partial_failure j mtime start len"
    by (simp add: test_sync_all_hosts_cache_partial_failure_def defs)
qed

section \<open>Failures\<close>

definition test_sync_host_cache_missing_image :: "json_pair \<Rightarrow> (extractor_error \<Rightarrow> string) \<Rightarrow> bool" where
  "test_sync_host_cache_missing_image j detail \<longleftrightarrow>
     (case sync_in j missing_env (test_host ''aa:bb:cc:dd:ee:ff'' ''missing-image-host'' ''/tmp/t/does_not_exist.iso'') None empty_cache of
        Some (_, Inl e) \<Rightarrow>
          str_contains ''Image file not found'' (extractor_message detail e) \<and> str_contains ''does_not_exist.iso'' (extractor_message detail e)
      | _ \<Rightarrow> False)"

definition test_sync_host_cache_size_ceiling :: "json_pair \<Rightarrow> (extractor_error \<Rightarrow> string) \<Rightarrow> nat \<Rightarrow> u64 \<Rightarrow> u64 \<Rightarrow> bool" where
  "test_sync_host_cache_size_ceiling j detail mtime start len \<longleftrightarrow>
     (let env = disk_env mtime start len build_dual_kernel_gpt_image;
          host = test_host ''00:11:22:33:44:aa'' ''oversized'' ''big.img''
      in case sync_in j env host (Some 5) empty_cache of
           Some (c, Inl e) \<Rightarrow>
             str_contains ''max_artifact_bytes'' (extractor_message detail e)
             \<and> ca_files c = \<lparr>ar_kernel = None, ar_initrd = None\<rparr> \<and> ca_meta c = None
             \<and> (case sync_in j env host (Some 1024) c of
                  Some (c', Inr _) \<Rightarrow> ar_kernel (ca_files c') \<noteq> None
                | _ \<Rightarrow> False)
         | _ \<Rightarrow> False)"

text \<open>Directories \<open>d0/d1/..\<close> of some depth with the two files in the innermost one.\<close>

fun build_deeply_nested_gpt_image :: "nat \<Rightarrow> nat \<Rightarrow> (string \<times> tree) list" where
  "build_deeply_nested_gpt_image i 0 = [(''vmlinuz'', TreeFile (as_bytes ''deep_kernel'')), (''initrd.img'', TreeFile (as_bytes ''deep_initrd''))]"
| "build_deeply_nested_gpt_image i (Suc depth) = [(''d'' @ dec_of_nat i, TreeDir (build_deeply_nested_gpt_image (i + 1) depth))]"

definition test_fat_recursion_depth_cap :: "json_pair \<Rightarrow> nat \<Rightarrow> u64 \<Rightarrow> u64 \<Rightarrow> bool" where
  "test_fat_recursion_depth_cap j mtime start len \<longleftrightarrow>
     (case sync_in j (disk_env mtime start len (build_deeply_nested_gpt_image 0 70))
         (test_host ''00:11:22:33:44:cc'' ''deep'' ''deep.img'') None empty_cache of
        Some (_, Inl e) \<Rightarrow> e = KernelNotFound
      | _ \<Rightarrow> False)
     \<and> (case sync_in j (disk_env mtime start len (build_deeply_nested_gpt_image 0 10))
           (test_host ''00:11:22:33:44:dd'' ''shallow'' ''shallow.img'') None empty_cache of
          Some (c, Inr _) \<Rightarrow> ar_kernel (ca_files c) = Some (as_bytes ''deep_kernel'')
        | _ \<Rightarrow> False)"

lemma missing_image_test_passes: "test_sync_host_cache_missing_image j detail"
proof -
  have "str_contains ''Image file not found'' (''Image file not found: '' @ ''/tmp/t/does_not_exist.iso'')"
    "str_contains ''does_not_exist.iso'' (''Image file not found: '' @ ''/tmp/t/does_not_exist.iso'')" by code_simp+
  then show ?thesis by (simp add: test_sync_host_cache_missing_image_def missing_sync extractor_message_def test_host_def)
qed

lemma read_whole: "length bs \<le> n \<Longrightarrow> file_read (whole_file bs) n = Inr (bs, whole_file [])"
  by (simp add: file_read_def whole_file_def)

lemma limited_copy:
  assumes "sk_create sk = None" "sk_write sk = (\<lambda>_. None)" "bs \<noteq> []" "length bs \<le> COPY_BUF"
  shows "copy_capped file_read sk (Some limit) (whole_file bs) old =
    Some (if limit < length bs then (Some [], Inl (ArtifactTooLarge limit)) else (Some bs, Inr ()))"
proof -
  have end1: "copy_limited file_read sk limit (whole_file []) bs = (bs, Inr ())"
    by (subst copy_limited.simps) (simp add: read_whole)
  have "copy_limited file_read sk limit (whole_file bs) [] =
      (if limit < length bs then ([], Inl (ArtifactTooLarge limit)) else (bs, Inr ()))"
    by (subst copy_limited.simps) (simp add: read_whole assms end1)
  then show ?thesis by (simp add: copy_capped_def assms(1))
qed

lemma default_files: "length (as_bytes ''default_kernel'') = 14" "length (as_bytes ''default_initrd'') = 14" "14 \<le> COPY_BUF"
  "as_bytes ''default_kernel'' \<noteq> []" "as_bytes ''default_initrd'' \<noteq> []"
  by (simp_all add: as_bytes_def COPY_BUF_def)

lemma limited_defaults:
  assumes "sk = \<lparr>sk_create = None, sk_write = (\<lambda>_. None)\<rparr>"
  shows "copy_capped file_read sk (Some limit) (whole_file (as_bytes ''default_kernel'')) old =
      Some (if limit < 14 then (Some [], Inl (ArtifactTooLarge limit)) else (Some (as_bytes ''default_kernel''), Inr ()))"
    "copy_capped file_read sk (Some limit) (whole_file (as_bytes ''default_initrd'')) old =
      Some (if limit < 14 then (Some [], Inl (ArtifactTooLarge limit)) else (Some (as_bytes ''default_initrd''), Inr ()))"
  using limited_copy [of sk "as_bytes ''default_kernel''" limit old] limited_copy [of sk "as_bytes ''default_initrd''" limit old]
  unfolding default_files assms by (simp_all add: default_files)

lemma limited_extraction:
  assumes "hc_kernel_path host = None" "hc_initrd_path host = None"
  shows "extract_any file_read (disk_env mtime start len build_dual_kernel_gpt_image) host (Some limit) a =
    Some (if limit < 14 then (a\<lparr>ar_kernel := Some []\<rparr>, Inl (ArtifactTooLarge limit))
          else (\<lparr>ar_kernel = Some (as_bytes ''default_kernel''), ar_initrd = Some (as_bytes ''default_initrd'')\<rparr>, Inr ()))"
  using assms
  by (cases a) (simp add: extract_any_def extract_from_iso_def extract_from_disk_def extract_initrd_fat_def disk_env_def new_slice_def
      test_picks copy_kernel_def copy_initrd_def fine_outputs_def limited_defaults)

lemma failed_sync:
  assumes "\<not> cache_valid (snd j) None host (mtime div 1000000000, 5 * 1024 * 1024) c"
    and "extract_any file_read (disk_env mtime start len root) host mb (ca_files c) = Some (a, Inl e)"
  shows "\<exists>c'. sync_in j (disk_env mtime start len root) host mb c = Some (c', Inl e)
    \<and> ca_files c' = \<lparr>ar_kernel = None, ar_initrd = None\<rparr> \<and> ca_meta c' = None"
proof -
  have "image_stamp (disk_env mtime start len root) (hc_image_path host) = Inr (mtime div 1000000000, 5 * 1024 * 1024)"
    by (simp add: image_stamp_def disk_env_def)
  moreover have "se_read_meta (disk_env mtime start len root) = None" "se_mkdir (disk_env mtime start len root) = Inr ()"
    "se_remove (disk_env mtime start len root) = (\<lambda>_. True)" by (simp_all add: disk_env_def)
  ultimately show ?thesis
    using assms by (simp add: sync_in_def sync_host_cache_def clean_up_def drop_if_def Let_def)
qed

lemma size_ceiling_test_passes:
  assumes "json_codec j"
  shows "test_sync_host_cache_size_ceiling j detail mtime start len"
proof -
  let ?env = "disk_env mtime start len build_dual_kernel_gpt_image"
  let ?host = "test_host ''00:11:22:33:44:aa'' ''oversized'' ''big.img''"
  note extracted = limited_extraction [where host = "?host" and mtime = mtime and start = start and len = len]
  have too_large: "extract_any file_read ?env ?host (Some 5) (ca_files empty_cache)
      = Some ((ca_files empty_cache)\<lparr>ar_kernel := Some []\<rparr>, Inl (ArtifactTooLarge 5))"
    using extracted [where limit = 5] by simp
  obtain c where c: "sync_in j ?env ?host (Some 5) empty_cache = Some (c, Inl (ArtifactTooLarge 5))"
    "ca_files c = \<lparr>ar_kernel = None, ar_initrd = None\<rparr>" "ca_meta c = None"
    using failed_sync [OF empty_not_valid too_large] by blast
  have invalid: "\<not> cache_valid (snd j) None ?host (mtime div 1000000000, 5 * 1024 * 1024) c" using c(3) by (simp add: cache_valid_def)
  have "extract_any file_read ?env ?host (Some 1024) (ca_files c)
      = Some (\<lparr>ar_kernel = Some (as_bytes ''default_kernel''), ar_initrd = Some (as_bytes ''default_initrd'')\<rparr>, Inr ())"
    using extracted [where limit = 1024] by simp
  from fresh_sync [OF assms invalid this]
  obtain c' where "sync_in j ?env ?host (Some 1024) c = Some (c', Inr ())"
    "ca_files c' = \<lparr>ar_kernel = Some (as_bytes ''default_kernel''), ar_initrd = Some (as_bytes ''default_initrd'')\<rparr>" by blast
  moreover have "str_contains ''max_artifact_bytes'' (''Extracted artifact exceeds the configured max_artifact_bytes limit of '' @ dec_of_nat 5 @ '' bytes'')"
    by code_simp
  ultimately show ?thesis using c by (simp add: test_sync_host_cache_size_ceiling_def extractor_message_def)
qed

lemma depth_test_picks:
  "pick_fat (image_of (build_deeply_nested_gpt_image 0 70)) None is_kernel_name = Inr None"
  "pick_fat (image_of (build_deeply_nested_gpt_image 0 10)) None is_kernel_name = Inr (Some (as_bytes ''deep_kernel''))"
  "pick_fat (image_of (build_deeply_nested_gpt_image 0 10)) None is_initrd_name = Inr (Some (as_bytes ''deep_initrd''))"
  by code_simp+

lemma depth_cap_test_passes:
  assumes "json_codec j"
  shows "test_fat_recursion_depth_cap j mtime start len"
proof -
  let ?deep = "test_host ''00:11:22:33:44:cc'' ''deep'' ''deep.img''" and ?shallow = "test_host ''00:11:22:33:44:dd'' ''shallow'' ''shallow.img''"
  have "extract_any file_read (disk_env mtime start len (build_deeply_nested_gpt_image 0 70)) ?deep None (ca_files empty_cache)
      = Some (ca_files empty_cache, Inl KernelNotFound)"
    by (simp add: extract_any_def extract_from_iso_def extract_from_disk_def disk_env_def new_slice_def depth_test_picks)
  from failed_sync [OF empty_not_valid this]
  obtain c where "sync_in j (disk_env mtime start len (build_deeply_nested_gpt_image 0 70)) ?deep None empty_cache = Some (c, Inl KernelNotFound)"
    by blast
  moreover obtain c' where "sync_in j (disk_env mtime start len (build_deeply_nested_gpt_image 0 10)) ?shallow None empty_cache = Some (c', Inr ())"
    "ar_kernel (ca_files c') = Some (as_bytes ''deep_kernel'')"
    using fresh_sync [OF assms empty_not_valid extract_disk_whole [OF refl depth_test_picks(2,3) test_host_paths]] by force
  ultimately show ?thesis by (simp add: test_fat_recursion_depth_cap_def)
qed

text \<open>The hypothesis on the JSON reader and writer can be met.\<close>

lemma json_codec_exists: "\<exists>j. json_codec j"
proof -
  define enc :: "cache_metadata \<Rightarrow> nat" where
    "enc m = to_nat (cm_image_path m, cm_mtime_secs m, cm_size m, cm_kernel_override m, cm_initrd_override m)" for m
  have "inj enc" by (rule injI) (simp add: enc_def)
  then have "json_codec (\<lambda>m. Some (dec_of_nat (enc m)), \<lambda>t. map_option (inv enc) (dec_value 0 t))"
    by (simp add: json_codec_def dec_value_dec_of_nat)
  then show ?thesis by blast
qed

end
