(* ===== verification/Tests_Http.thy ===== *)
theory Tests_Http
  imports Boot_Chain Servers Tests_Core
begin

text \<open>
  The unit tests of \<^verbatim>\<open>crates/bootycall-http/src/server.rs\<close> and the exchanges of
  \<^verbatim>\<open>crates/bootycall-http/tests/http_tests.rs\<close>, run on the model. A request is what the route
  table makes of the path, a response its status, headers and body; the template engine renders
  the boot template as documented, and SHA-256 is any digest of 32 bytes that separates the
  tokens of the tests.
\<close>

section \<open>Tokens and content types\<close>

definition digest_of :: "(bytes \<Rightarrow> bytes) \<Rightarrow> string list \<Rightarrow> bool" where
  "digest_of sha256 texts \<longleftrightarrow> (\<forall>bs. length (sha256 bs) = 32) \<and> inj_on sha256 (as_bytes ` set texts)"

definition constant_time_eq_matches_equal_tokens :: "(bytes \<Rightarrow> bytes) \<Rightarrow> bool" where
  "constant_time_eq_matches_equal_tokens sha256 \<longleftrightarrow>
     constant_time_eq sha256 (as_bytes ''secret-token'') (as_bytes ''secret-token'') \<and> constant_time_eq sha256 (as_bytes []) (as_bytes [])"

definition constant_time_eq_rejects_different_values :: "(bytes \<Rightarrow> bytes) \<Rightarrow> bool" where
  "constant_time_eq_rejects_different_values sha256 \<longleftrightarrow>
     \<not> constant_time_eq sha256 (as_bytes ''secret-token'') (as_bytes ''secret-toke0'')
     \<and> \<not> constant_time_eq sha256 (as_bytes ''token'') (as_bytes ''other'')"

definition constant_time_eq_rejects_different_lengths :: "(bytes \<Rightarrow> bytes) \<Rightarrow> bool" where
  "constant_time_eq_rejects_different_lengths sha256 \<longleftrightarrow>
     \<not> constant_time_eq sha256 (as_bytes ''short'') (as_bytes ''a-much-longer-token'')
     \<and> \<not> constant_time_eq sha256 (as_bytes ''token'') (as_bytes ''tokenX'')
     \<and> \<not> constant_time_eq sha256 (as_bytes []) (as_bytes ''nonempty'')"

lemma digest_eq:
  assumes "digest_of sha256 texts" "a \<in> set texts" "b \<in> set texts"
  shows "constant_time_eq sha256 (as_bytes a) (as_bytes b) \<longleftrightarrow> a = b"
proof -
  have "sha256 (as_bytes a) = sha256 (as_bytes b) \<longleftrightarrow> as_bytes a = as_bytes b"
    using assms(1-3) by (auto simp: digest_of_def dest: inj_onD)
  moreover have "as_bytes a = as_bytes b \<longleftrightarrow> a = b"
    by (simp add: as_bytes_def inj_map_eq_map inj_def byte_of_char_eq_iff)
  ultimately show ?thesis
    using assms(1) by (simp add: constant_time_eq_def digest_of_def digest_diff_zero)
qed

definition unit_tokens :: "string list" where
  "unit_tokens = [''secret-token'', ''secret-toke0'', ''token'', ''other'', ''short'', ''a-much-longer-token'', ''tokenX'', [], ''nonempty'']"

lemma token_tests_pass:
  assumes "digest_of sha256 unit_tokens"
  shows "constant_time_eq_matches_equal_tokens sha256" "constant_time_eq_rejects_different_values sha256"
    "constant_time_eq_rejects_different_lengths sha256"
  using digest_eq [OF assms] digest_eq [OF assms, of "[]" "[]"] digest_eq [OF assms, of "[]" "''nonempty''"]
  by (simp_all add: constant_time_eq_matches_equal_tokens_def constant_time_eq_rejects_different_values_def
      constant_time_eq_rejects_different_lengths_def unit_tokens_def)

definition content_type_for_covers_key_extensions :: bool where
  "content_type_for_covers_key_extensions \<longleftrightarrow>
     content_type_for ''boot/x64/ipxe.efi'' = ''application/octet-stream''
     \<and> content_type_for ''wallpapers/bg.png'' = ''image/png''
     \<and> content_type_for ''data.json'' = ''application/json''
     \<and> content_type_for ''script.ipxe'' = ''text/plain''
     \<and> content_type_for ''some-file'' = ''application/octet-stream''"

lemma content_type_test_passes: "content_type_for_covers_key_extensions"
proof -
  have ext: "extension ''boot/x64/ipxe.efi'' = Some ''efi''" "extension ''wallpapers/bg.png'' = Some ''png''"
    "extension ''data.json'' = Some ''json''" "extension ''script.ipxe'' = Some ''ipxe''" "extension ''some-file'' = None"
    by code_simp+
  have lower: "to_lowercase ''efi'' = ''efi''" "to_lowercase ''png'' = ''png''" "to_lowercase ''json'' = ''json''" "to_lowercase ''ipxe'' = ''ipxe''"
    by (subst to_lowercase_plain; code_simp)+
  show ?thesis by (simp add: content_type_for_covers_key_extensions_def content_type_for_def ext lower Let_def del: to_lowercase.simps(2))
qed

section \<open>The outcome of a poll\<close>

definition test_config :: "host_config list \<Rightarrow> config" where
  "test_config hosts =
     \<lparr>cf_server =
        \<lparr>sc_http_bind = ''0.0.0.0:8080'', sc_tftp_bind = ''0.0.0.0:69'', sc_tftp_root = ''/tmp'',
         sc_proxy_dhcp_bind = ''0.0.0.0:4011'', sc_cache_dir = ''/tmp/cache'', sc_static_dir = ''./static'',
         sc_bootloader_amd64 = ''boot/x64/ipxe.efi'', sc_bootloader_arm64 = ''boot/arm64/ipxe.efi'',
         sc_bootloader_bios = ''boot/x64/undionly.kpxe'', sc_oled_enabled = False, sc_oled_brightness = 255,
         sc_api_token = None, sc_max_artifact_bytes = None\<rparr>,
      cf_hosts = hosts\<rparr>"

definition iso_host :: "string \<Rightarrow> string \<Rightarrow> host_config" where
  "iso_host mac name = test_host mac name ''/tmp/img.iso''"

definition render_boot :: "boot_context \<Rightarrow> string option" where
  "render_boot c = Some (boot_script c)"

definition poll_outcome_boot_for_configured_host :: bool where
  "poll_outcome_boot_for_configured_host \<longleftrightarrow>
     (case decide_poll_outcome render_boot (test_config [iso_host ''aa:bb:cc:dd:ee:ff'' ''node1'']) new_store ''aa:bb:cc:dd:ee:ff'' ''localhost:8080'' of
        Boot script cache_mac \<Rightarrow> prefix ''#!ipxe'' script \<and> sublist ''Booting node1'' script \<and> cache_mac = ''aa:bb:cc:dd:ee:ff''
      | _ \<Rightarrow> False)"

text \<open>A template with a name that is never provided: rendering it is an error.\<close>

definition poll_outcome_render_failure_surfaces :: bool where
  "poll_outcome_render_failure_surfaces \<longleftrightarrow>
     decide_poll_outcome (\<lambda>_. None) (test_config [iso_host ''aa:bb:cc:dd:ee:ff'' ''node1'']) new_store ''aa:bb:cc:dd:ee:ff'' ''localhost:8080''
     = RenderFailed"

definition poll_outcome_poll_when_override_target_missing :: "int \<Rightarrow> bool" where
  "poll_outcome_poll_when_override_target_missing now \<longleftrightarrow>
     (let store = update_host_status now ''11:22:33:44:55:66'' Polling None (Some ''ghost-target'') None None new_store
      in decide_poll_outcome render_boot (test_config []) store ''11:22:33:44:55:66'' ''localhost:8080'' = Poll)"

definition poll_outcome_poll_for_unknown_host :: bool where
  "poll_outcome_poll_for_unknown_host \<longleftrightarrow>
     decide_poll_outcome render_boot (test_config []) new_store ''99:99:99:99:99:99'' ''localhost:8080'' = Poll"

lemma outcome_tests_pass:
  "poll_outcome_boot_for_configured_host" "poll_outcome_render_failure_surfaces"
  "poll_outcome_poll_when_override_target_missing now" "poll_outcome_poll_for_unknown_host"
  by code_simp+

section \<open>Exchanges\<close>

definition spawn_config :: config where
  "spawn_config =
     (test_config [(test_host ''aa:bb:cc:dd:ee:ff'' ''nixos-test'' ''/tmp/nixos.iso'')\<lparr>hc_cmdline := Some ''console=tty0''\<rparr>])
       \<lparr>cf_server := (cf_server (test_config []))\<lparr>sc_http_bind := ''127.0.0.1:26080'', sc_tftp_root := temp_dir, sc_cache_dir := ''/tmp/t/cache''\<rparr>\<rparr>"

text \<open>The server of a test; without an answer when it does not start.\<close>

definition spawn_test_server :: "template_engine \<Rightarrow> http_env \<Rightarrow> http_env option" where
  "spawn_test_server engine env = fst (run_http_server engine (Inr ()) (Inr ()) env)"

definition request_headers :: "string \<Rightarrow> string option \<Rightarrow> headers" where
  "request_headers host token name =
     (if name = ''host'' then Some host else if name = ''x-api-token'' then token else None)"

definition client_addr :: sock_addr where
  "client_addr = SocketAddr (V4 [127, 0, 0, 1]) 40000"

definition http_get :: "http_env option \<Rightarrow> config \<Rightarrow> state_store \<Rightarrow> string option \<Rightarrow> request \<Rightarrow> response option" where
  "http_get server config st token req =
     map_option (\<lambda>env. fst (http_handle env config st (request_headers ''127.0.0.1:26080'' token) client_addr req)) server"

text \<open>A request that changes the store at some time.\<close>

definition http_call ::
  "http_env option \<Rightarrow> config \<Rightarrow> int \<Rightarrow> request \<Rightarrow> state_store \<Rightarrow> response option \<times> state_store" where
  "http_call server config now req st =
     (case server of
        None \<Rightarrow> (None, st)
      | Some env \<Rightarrow>
          (case http_handle env config st (request_headers ''127.0.0.1:26080'' None) client_addr req of
             (r, ops) \<Rightarrow> (Some r, apply_ops now ops st)))"

definition has_status :: "nat \<Rightarrow> response option \<Rightarrow> bool" where
  "has_status code r \<longleftrightarrow> map_option rs_status r = Some code"

definition body_contains :: "string \<Rightarrow> response option \<Rightarrow> bool" where
  "body_contains needle r \<longleftrightarrow> (case map_option rs_body r of Some (Text t) \<Rightarrow> sublist needle t | _ \<Rightarrow> False)"

definition shown_as :: "string \<Rightarrow> host_status \<Rightarrow> state_store \<Rightarrow> bool" where
  "shown_as mac status st \<longleftrightarrow> map_option hs_status (get_host mac st) = Some status"

text \<open>An engine that compiles both templates and renders the boot template as documented.\<close>

definition documented :: "template_engine \<Rightarrow> bool" where
  "documented engine \<longleftrightarrow> te_menu engine MENU_TEMPLATE \<noteq> None \<and> te_boot engine BOOT_TEMPLATE = Some render_boot"

lemma spawned:
  assumes "documented engine"
  shows "\<exists>menu. spawn_test_server engine env = Some (env\<lparr>he_boot := Some render_boot, he_menu := Some menu\<rparr>)"
  using assms by (auto simp: documented_def spawn_test_server_def run_http_server_def)

definition test_root_redirect :: "http_env option \<Rightarrow> bool" where
  "test_root_redirect server \<longleftrightarrow>
     (let r = http_get server spawn_config new_store None GetRoot
      in has_status 303 r \<and> Option.bind r rs_location = Some ''/ui/index.html'')"

definition test_poll_rejects_invalid_mac :: "http_env option \<Rightarrow> bool" where
  "test_poll_rejects_invalid_mac server \<longleftrightarrow>
     has_status 400 (http_get server spawn_config new_store None (GetPoll ''zz-bb-cc-dd-ee-ff''))"

definition test_override_rejects_invalid_mac :: "http_env option \<Rightarrow> bool" where
  "test_override_rejects_invalid_mac server \<longleftrightarrow>
     has_status 400 (http_get server spawn_config new_store None (PostOverride ''zz:bb:cc:dd:ee:ff'' ''nixos-test''))"

definition with_token :: "string \<Rightarrow> config" where
  "with_token token = spawn_config\<lparr>cf_server := (cf_server spawn_config)\<lparr>sc_api_token := Some token\<rparr>\<rparr>"

definition test_override_requires_api_token_when_configured :: "http_env option \<Rightarrow> bool" where
  "test_override_requires_api_token_when_configured server \<longleftrightarrow>
     (let post = PostOverride ''aa:bb:cc:dd:ee:ff'' ''nixos-test'' in
      has_status 401 (http_get server (with_token ''super-secret'') new_store None post)
      \<and> has_status 200 (http_get server (with_token ''super-secret'') new_store (Some ''super-secret'') post))"

definition test_read_apis_require_token_when_configured :: "http_env option \<Rightarrow> bool" where
  "test_read_apis_require_token_when_configured server \<longleftrightarrow>
     list_all (\<lambda>path.
       has_status 401 (http_get server (with_token ''read-secret'') new_store None path)
       \<and> has_status 200 (http_get server (with_token ''read-secret'') new_store (Some ''read-secret'') path)) [GetStatus, GetLogs]"

definition test_poll_missing_override_target_keeps_polling :: "http_env option \<Rightarrow> int \<Rightarrow> bool" where
  "test_poll_missing_override_target_keeps_polling server now \<longleftrightarrow>
     (let store = update_host_status now ''11:22:33:44:55:66'' Polling None (Some ''does-not-exist'') None None new_store;
          r = http_get server spawn_config store None (GetPoll ''11-22-33-44-55-66'')
      in has_status 200 r \<and> body_contains ''/poll/'' r \<and> \<not> body_contains ''kernel http'' r)"

definition test_api_status_endpoint :: "http_env option \<Rightarrow> bool" where
  "test_api_status_endpoint server \<longleftrightarrow>
     (let r = http_get server spawn_config new_store None GetStatus
      in has_status 200 r \<and> Option.bind r rs_content_type = Some ''application/json''
         \<and> (case map_option rs_body r of Some (StatusJson hosts configs) \<Rightarrow> True | _ \<Rightarrow> False))"

definition test_api_logs_endpoint :: "http_env option \<Rightarrow> int \<Rightarrow> int \<Rightarrow> bool" where
  "test_api_logs_endpoint server t1 t2 \<longleftrightarrow>
     (let store = log_event t2 ''WARN'' None ''Another test log''
                    (log_event t1 ''INFO'' (Some ''aa:bb:cc:dd:ee:ff'') ''Test log entry'' new_store);
          r = http_get server spawn_config store None GetLogs
      in has_status 200 r \<and> Option.bind r rs_content_type = Some ''application/json''
         \<and> (case map_option rs_body r of
              Some (LogsJson logs) \<Rightarrow> map le_message logs = [''Test log entry'', ''Another test log'']
            | _ \<Rightarrow> False))"

lemma request_header_simps:
  "request_headers host token ''host'' = Some host" "request_headers host token ''x-api-token'' = token"
  "host_header (request_headers host token) = host"
  by (simp_all add: request_headers_def host_header_def)

lemma spawn_config_simps:
  "sc_api_token (cf_server spawn_config) = None" "sc_api_token (cf_server (with_token t)) = Some t"
  "cf_hosts (with_token t) = cf_hosts spawn_config"
  "cf_hosts spawn_config = [(test_host ''aa:bb:cc:dd:ee:ff'' ''nixos-test'' ''/tmp/nixos.iso'')\<lparr>hc_cmdline := Some ''console=tty0''\<rparr>]"
  "sc_cache_dir (cf_server spawn_config) = ''/tmp/t/cache''" "sc_static_dir (cf_server spawn_config) = ''./static''"
  by (simp_all add: with_token_def spawn_config_def test_config_def)

lemma token_given:
  assumes "digest_of (he_sha256 env) [t, []]" "t \<noteq> []"
  shows "check_api_token (he_sha256 env) (with_token t) (request_headers host token) \<longleftrightarrow>
    (token = Some t \<or> token \<noteq> None \<and> constant_time_eq (he_sha256 env) (as_bytes (the token)) (as_bytes t))"
    "check_api_token (he_sha256 env) spawn_config (request_headers host token)"
  using digest_eq [OF assms(1), of "[]" t] digest_eq [OF assms(1), of t t] assms(2)
  by (auto simp: check_api_token_def spawn_config_simps request_header_simps split: option.split)

lemma api_tests_pass:
  assumes "documented engine"
  shows "test_root_redirect (spawn_test_server engine env)" "test_api_status_endpoint (spawn_test_server engine env)"
    "test_api_logs_endpoint (spawn_test_server engine env) t1 t2"
proof -
  obtain menu where run: "spawn_test_server engine env = Some (env\<lparr>he_boot := Some render_boot, he_menu := Some menu\<rparr>)"
    using spawned [OF assms] by blast
  have open_api: "check_api_token sha spawn_config headers" for sha headers
    by (simp add: check_api_token_def spawn_config_simps)
  show "test_root_redirect (spawn_test_server engine env)" "test_api_status_endpoint (spawn_test_server engine env)"
    by (simp_all add: test_root_redirect_def test_api_status_endpoint_def run http_get_def http_handle_def root_redirect_def
        status_only_def has_status_def api_status_handler_def open_api json_def)
  have "map le_message (list_logs (log_event t2 ''WARN'' None ''Another test log''
        (log_event t1 ''INFO'' (Some ''aa:bb:cc:dd:ee:ff'') ''Test log entry'' new_store))) = [''Test log entry'', ''Another test log'']"
    by code_simp
  then show "test_api_logs_endpoint (spawn_test_server engine env) t1 t2"
    by (simp add: test_api_logs_endpoint_def run http_get_def http_handle_def has_status_def api_logs_handler_def open_api json_def)
qed

lemma token_endpoint_tests_pass:
  assumes "documented engine" "digest_of (he_sha256 env) [''super-secret'', []]" "digest_of (he_sha256 env) [''read-secret'', []]"
  shows "test_override_requires_api_token_when_configured (spawn_test_server engine env)"
    "test_read_apis_require_token_when_configured (spawn_test_server engine env)"
proof -
  obtain menu where run: "spawn_test_server engine env = Some (env\<lparr>he_boot := Some render_boot, he_menu := Some menu\<rparr>)"
    using spawned [OF assms(1)] by blast
  have mac: "normalize_mac ''aa:bb:cc:dd:ee:ff'' = ''aa:bb:cc:dd:ee:ff''" "is_valid_mac ''aa:bb:cc:dd:ee:ff''" by code_simp+
  show "test_override_requires_api_token_when_configured (spawn_test_server engine env)"
    using token_given [OF assms(2)]
    by (simp add: test_override_requires_api_token_when_configured_def run http_get_def http_handle_def has_status_def
        api_override_handler_def status_only_def json_def mac spawn_config_simps test_host_def Let_def)
  show "test_read_apis_require_token_when_configured (spawn_test_server engine env)"
    using token_given [OF assms(3)]
    by (simp add: test_read_apis_require_token_when_configured_def run http_get_def http_handle_def has_status_def
        api_status_handler_def api_logs_handler_def status_only_def json_def)
qed

lemma poll_tests_pass:
  assumes "documented engine"
  shows "test_poll_rejects_invalid_mac (spawn_test_server engine env)" "test_override_rejects_invalid_mac (spawn_test_server engine env)"
    "test_poll_missing_override_target_keeps_polling (spawn_test_server engine env) now"
proof -
  obtain menu where run: "spawn_test_server engine env = Some (env\<lparr>he_boot := Some render_boot, he_menu := Some menu\<rparr>)"
    using spawned [OF assms] by blast
  have bad: "\<not> is_valid_mac (normalize_mac ''zz-bb-cc-dd-ee-ff'')" "\<not> is_valid_mac (normalize_mac ''zz:bb:cc:dd:ee:ff'')" by code_simp+
  show "test_poll_rejects_invalid_mac (spawn_test_server engine env)"
    using bad by (simp add: test_poll_rejects_invalid_mac_def run http_get_def http_handle_def poll_handler_def has_status_def utf8_text_def Let_def)
  show "test_override_rejects_invalid_mac (spawn_test_server engine env)"
    using bad by (simp add: test_override_rejects_invalid_mac_def run http_get_def http_handle_def api_override_handler_def
        check_api_token_def spawn_config_simps has_status_def status_only_def Let_def)
  define store where "store = update_host_status now ''11:22:33:44:55:66'' Polling None (Some ''does-not-exist'') None None new_store"
  have poll: "fst (poll_handler (Some render_boot) spawn_config store (request_headers ''127.0.0.1:26080'' None) client_addr ''11-22-33-44-55-66'')
      = plain_text 200 (retry_script ''127.0.0.1:26080'' ''11:22:33:44:55:66'')"
    unfolding store_def by code_simp
  have "sublist ''/poll/'' (retry_script ''127.0.0.1:26080'' ''11:22:33:44:55:66'')"
    "\<not> sublist ''kernel http'' (retry_script ''127.0.0.1:26080'' ''11:22:33:44:55:66'')"
    by code_simp+
  then show "test_poll_missing_override_target_keeps_polling (spawn_test_server engine env) now"
    unfolding test_poll_missing_override_target_keeps_polling_def Let_def store_def [symmetric]
    by (simp add: run http_get_def http_handle_def poll has_status_def body_contains_def plain_text_def)
qed

section \<open>Files and the cache\<close>

text \<open>The views of the tests: the temporary directory, beside the password file.\<close>

lemma temp_fs_view:
  assumes "list_all (\<lambda>e. list_all plain_name (fst e)) entries"
  shows "(temp_fs entries, []) \<in> {(f, cwd). wf_fs f \<and> real f cwd}"
proof -
  have "list_all plain_name c" if "temp_fs entries c \<noteq> None" for c
  proof -
    have "c \<in> fst ` set ([([], Directory), ([''tmp''], Directory), ([''tmp'', ''t''], Directory), ([''etc''], Directory),
        ([''etc'', ''passwd''], Regular [1])] @ entries)"
      using that by (metis temp_fs_def map_of_eq_None_iff)
    then show ?thesis using assms by (auto simp: list_all_iff plain_name_def)
  qed
  moreover have "temp_fs entries [] = Some Directory" by (simp add: temp_fs_def)
  ultimately have "wf_fs (temp_fs entries)" by (auto simp: wf_fs_def list_all_iff)
  with real_root show ?thesis by auto
qed

lift_definition cache_view :: process_fs is "(temp_fs [([''tmp'', ''t'', ''cache''], Directory)], [])"
  by (rule temp_fs_view) (simp add: plain_name_def)

definition static_entries :: "(cpath \<times> node) list" where
  "static_entries =
     [([''tmp'', ''t'', ''assets''], Directory), ([''tmp'', ''t'', ''assets'', ''hello.txt''], Regular (as_bytes ''STATIC-OK''))]"

lift_definition static_view :: process_fs is "(temp_fs static_entries, [])"
  by (rule temp_fs_view) (simp add: plain_name_def static_entries_def)

lemma view_evals:
  "resolve_in cache_view = resolve_path (temp_fs [([''tmp'', ''t'', ''cache''], Directory)]) []"
  "resolve_in static_view = resolve_path (temp_fs static_entries) []" "node_at static_view = temp_fs static_entries"
  by (rule ext, transfer, simp)+

definition assert_http_traversal_blocked :: "http_env option \<Rightarrow> request \<Rightarrow> bool" where
  "assert_http_traversal_blocked server req \<longleftrightarrow>
     (let r = http_get server spawn_config new_store None req
      in (has_status 403 r \<or> has_status 404 r) \<and> map_option rs_body r = Some NoBody)"

definition test_http_cache_absolute_path_blocked :: "http_env option \<Rightarrow> bool" where
  "test_http_cache_absolute_path_blocked server \<longleftrightarrow> assert_http_traversal_blocked server (GetCache ''/etc/passwd'')"

definition test_http_cache_parent_dir_blocked :: "http_env option \<Rightarrow> bool" where
  "test_http_cache_parent_dir_blocked server \<longleftrightarrow> assert_http_traversal_blocked server (GetCache ''../../etc/passwd'')"

definition test_http_static_absolute_path_blocked :: "http_env option \<Rightarrow> bool" where
  "test_http_static_absolute_path_blocked server \<longleftrightarrow> assert_http_traversal_blocked server (GetStatic ''/etc/passwd'')"

definition test_http_static_parent_dir_blocked :: "http_env option \<Rightarrow> bool" where
  "test_http_static_parent_dir_blocked server \<longleftrightarrow> assert_http_traversal_blocked server (GetStatic ''../../etc/passwd'')"

lemma traversal_tests_pass:
  assumes "documented engine" "he_fs env = cache_view"
  shows "test_http_cache_absolute_path_blocked (spawn_test_server engine env)"
    "test_http_cache_parent_dir_blocked (spawn_test_server engine env)"
    "test_http_static_absolute_path_blocked (spawn_test_server engine env)"
    "test_http_static_parent_dir_blocked (spawn_test_server engine env)"
proof -
  obtain menu where run: "spawn_test_server engine env = Some (env\<lparr>he_boot := Some render_boot, he_menu := Some menu\<rparr>)"
    using spawned [OF assms(1)] by blast
  have joins: "safe_join (resolve_in cache_view) ''/tmp/t/cache'' ''/etc/passwd'' = None"
    "safe_join (resolve_in cache_view) ''/tmp/t/cache'' ''../../etc/passwd'' = None"
    "safe_join (resolve_in cache_view) ''./static'' ''/etc/passwd'' = None"
    "safe_join (resolve_in cache_view) ''./static'' ''../../etc/passwd'' = None"
    unfolding view_evals by code_simp+
  note eval = assert_http_traversal_blocked_def run http_get_def http_handle_def serve_cache_file_def serve_static_file_def
    serve_file_from_dir_def assms(2) spawn_config_simps joins has_status_def status_only_def
  show "test_http_cache_absolute_path_blocked (spawn_test_server engine env)"
    "test_http_cache_parent_dir_blocked (spawn_test_server engine env)"
    "test_http_static_absolute_path_blocked (spawn_test_server engine env)"
    "test_http_static_parent_dir_blocked (spawn_test_server engine env)"
    unfolding test_http_cache_absolute_path_blocked_def test_http_cache_parent_dir_blocked_def
      test_http_static_absolute_path_blocked_def test_http_static_parent_dir_blocked_def
    by (simp_all add: eval)
qed

text \<open>The file a response streams.\<close>

definition streams :: "process_fs \<Rightarrow> bytes \<Rightarrow> response option \<Rightarrow> bool" where
  "streams v content r \<longleftrightarrow>
     (case map_option rs_body r of Some (FileStream c) \<Rightarrow> node_at v c = Some (Regular content) | _ \<Rightarrow> False)"

definition test_static_served_from_configured_dir :: "http_env option \<Rightarrow> bool" where
  "test_static_served_from_configured_dir server \<longleftrightarrow>
     (let config = (test_config [])\<lparr>cf_server := (cf_server (test_config []))
                      \<lparr>sc_tftp_root := temp_dir, sc_cache_dir := ''/tmp/t/cache'', sc_static_dir := ''/tmp/t/assets''\<rparr>\<rparr>;
          r = http_get server config new_store None (GetStatic ''hello.txt'')
      in has_status 200 r \<and> streams static_view (as_bytes ''STATIC-OK'') r)"

lemma static_test_passes:
  assumes "documented engine" "he_fs env = static_view" "\<And>c. he_opens env c"
  shows "test_static_served_from_configured_dir (spawn_test_server engine env)"
proof -
  obtain menu where run: "spawn_test_server engine env = Some (env\<lparr>he_boot := Some render_boot, he_menu := Some menu\<rparr>)"
    using spawned [OF assms(1)] by blast
  have found: "safe_join (resolve_in static_view) ''/tmp/t/assets'' ''hello.txt'' = Some ''/tmp/t/assets/hello.txt''"
    "resolve_in static_view ''/tmp/t/assets/hello.txt'' = Some [''tmp'', ''t'', ''assets'', ''hello.txt'']"
    "node_at static_view [''tmp'', ''t'', ''assets'', ''hello.txt''] = Some (Regular (as_bytes ''STATIC-OK''))"
    unfolding view_evals by code_simp+
  show ?thesis
    by (simp add: test_static_served_from_configured_dir_def run http_get_def http_handle_def serve_static_file_def
        serve_file_from_dir_def assms(2,3) found has_status_def streams_def)
qed

definition says_health :: "string \<Rightarrow> response option \<Rightarrow> bool" where
  "says_health word r \<longleftrightarrow> (case map_option rs_body r of Some (HealthJson status n names) \<Rightarrow> status = word | _ \<Rightarrow> False)"

text \<open>The caches before and after the artifacts of the host are provided.\<close>

definition test_health_endpoint_reflects_cache_readiness :: "template_engine \<Rightarrow> http_env \<Rightarrow> bool" where
  "test_health_endpoint_reflects_cache_readiness engine env \<longleftrightarrow>
     (let before = (\<lambda>mac. empty_cache);
          provided = empty_cache\<lparr>ca_dir := True, ca_files := \<lparr>ar_kernel = Some (as_bytes ''KERNELBYTES''), ar_initrd = Some (as_bytes ''INITRDBYTES'')\<rparr>\<rparr>;
          after = before(hc_mac (cf_hosts spawn_config ! 0) := provided);
          r1 = http_get (spawn_test_server engine (env\<lparr>he_caches := before\<rparr>)) spawn_config new_store None GetHealth;
          r2 = http_get (spawn_test_server engine (env\<lparr>he_caches := after\<rparr>)) spawn_config new_store None GetHealth
      in has_status 503 r1 \<and> says_health ''degraded'' r1 \<and> has_status 200 r2 \<and> says_health ''healthy'' r2)"

lemma health_test_passes:
  assumes "documented engine"
  shows "test_health_endpoint_reflects_cache_readiness engine env"
proof -
  have run: "\<exists>menu. spawn_test_server engine e = Some (e\<lparr>he_boot := Some render_boot, he_menu := Some menu\<rparr>)" for e
    using spawned [OF assms] .
  have health: "http_get (spawn_test_server engine e) spawn_config new_store None GetHealth = Some (api_health_handler spawn_config (he_caches e))" for e
    using run [of e] by (auto simp: http_get_def http_handle_def)
  show ?thesis
    by (simp add: test_health_endpoint_reflects_cache_readiness_def health api_health_handler_def spawn_config_simps
        host_cache_ready_def empty_cache_def has_status_def says_health_def json_def as_bytes_def test_host_def)
qed

section \<open>A walk through the endpoints\<close>

text \<open>
  The start script, a poll of the configured host, a poll of another host, its override and
  its next poll; the calls come one after the other on one store.
\<close>

definition test_http_server_endpoints :: "http_env option \<Rightarrow> int \<Rightarrow> int \<Rightarrow> int \<Rightarrow> int \<Rightarrow> bool" where
  "test_http_server_endpoints server t1 t2 t3 t4 \<longleftrightarrow>
     (let kernel = ''kernel http://127.0.0.1:26080/cache/aa:bb:cc:dd:ee:ff/kernel console=tty0'';
          initrd = ''initrd http://127.0.0.1:26080/cache/aa:bb:cc:dd:ee:ff/initrd'';
          start = http_get server spawn_config new_store None GetStart;
          (mapped, st1) = http_call server spawn_config t1 (GetPoll ''aa-bb-cc-dd-ee-ff'') new_store;
          (unmapped, st2) = http_call server spawn_config t2 (GetPoll ''11-22-33-44-55-66'') st1;
          (assigned, st3) = http_call server spawn_config t3 (PostOverride ''11:22:33:44:55:66'' ''nixos-test'') st2;
          (overridden, st4) = http_call server spawn_config t4 (GetPoll ''11-22-33-44-55-66'') st3
      in has_status 200 start \<and> body_contains ''chain --autofree --replace http://127.0.0.1:26080/poll/${mac:hexhyp}'' start
         \<and> has_status 200 mapped \<and> body_contains kernel mapped \<and> body_contains initrd mapped \<and> body_contains ''boot'' mapped
         \<and> shown_as ''aa:bb:cc:dd:ee:ff'' Booting st1
         \<and> has_status 200 unmapped \<and> body_contains ''BootyCall: Press Ctrl-B for manual override...'' unmapped
         \<and> body_contains ''poll/11:22:33:44:55:66'' unmapped \<and> shown_as ''11:22:33:44:55:66'' Polling st2
         \<and> has_status 200 assigned \<and> map_option rs_body assigned = Some OkJson
         \<and> Option.bind (get_host ''11:22:33:44:55:66'' st3) hs_assigned_target = Some ''nixos-test''
         \<and> has_status 200 overridden \<and> body_contains kernel overridden \<and> body_contains initrd overridden
         \<and> shown_as ''11:22:33:44:55:66'' Booting st4)"

lemma endpoints_test_passes:
  assumes "documented engine"
  shows "test_http_server_endpoints (spawn_test_server engine env) t1 t2 t3 t4"
proof -
  obtain menu where run: "spawn_test_server engine env = Some (env\<lparr>he_boot := Some render_boot, he_menu := Some menu\<rparr>)"
    using spawned [OF assms] by blast
  have calls: "http_call (spawn_test_server engine env) spawn_config now (GetPoll mac) st =
      (case poll_handler (Some render_boot) spawn_config st (request_headers ''127.0.0.1:26080'' None) client_addr mac of
         (r, ops) \<Rightarrow> (Some r, apply_ops now ops st))"
    "http_call (spawn_test_server engine env) spawn_config now (PostOverride m target) st =
      (case api_override_handler (he_sha256 env) spawn_config (request_headers ''127.0.0.1:26080'' None) m target of
         (r, ops) \<Rightarrow> (Some r, apply_ops now ops st))"
    "http_get (spawn_test_server engine env) spawn_config st None GetStart
      = Some (start_handler (request_headers ''127.0.0.1:26080'' None))" for now mac m target st
    by (simp_all add: run http_call_def http_get_def http_handle_def)
  define hd where "hd = request_headers ''127.0.0.1:26080'' None"
  define h where "h = (test_host ''aa:bb:cc:dd:ee:ff'' ''nixos-test'' ''/tmp/nixos.iso'')\<lparr>hc_cmdline := Some ''console=tty0''\<rparr>"
  define script where "script = boot_script (boot_context_for h ''127.0.0.1:26080'' None)"
  define script2 where "script2 = boot_script (boot_context_for h ''127.0.0.1:26080'' (Some ''11:22:33:44:55:66''))"
  have header: "host_header hd = ''127.0.0.1:26080''" by (simp add: hd_def request_header_simps)
  have ip: "ip_to_string (addr_ip client_addr) = ''127.0.0.1''" by code_simp
  have macs: "normalize_mac ''aa-bb-cc-dd-ee-ff'' = ''aa:bb:cc:dd:ee:ff''" "is_valid_mac ''aa:bb:cc:dd:ee:ff''"
    "normalize_mac ''11-22-33-44-55-66'' = ''11:22:33:44:55:66''" "is_valid_mac ''11:22:33:44:55:66''"
    "normalize_mac ''11:22:33:44:55:66'' = ''11:22:33:44:55:66''"
    by code_simp+
  have hosts: "cf_hosts spawn_config = [h]" by (simp add: spawn_config_simps h_def)
  have found: "find_host spawn_config ''aa:bb:cc:dd:ee:ff'' = Some h" "find_host spawn_config ''11:22:33:44:55:66'' = None"
    unfolding h_def by code_simp+
  define mapped where "mapped t = [UpdateHost ''aa:bb:cc:dd:ee:ff'' Booting None None (Some ''127.0.0.1'') None,
      LogEvent ''INFO'' (Some ''aa:bb:cc:dd:ee:ff'') (''Serving boot execution script for target (mapped cache MAC: '' @ t @ '')'')]" for t
  define st1 where "st1 = apply_ops t1 (mapped ''aa:bb:cc:dd:ee:ff'') new_store"
  define st2 where "st2 = apply_ops t2 [UpdateHost ''11:22:33:44:55:66'' Polling None None (Some ''127.0.0.1'') None] st1"
  define st3 where "st3 = apply_ops t3 [UpdateHost ''11:22:33:44:55:66'' Polling None (Some ''nixos-test'') None None,
      LogEvent ''INFO'' (Some ''11:22:33:44:55:66'') (''Assigned manual override target: '' @ ''nixos-test'')] st2"
  define st4 where "st4 = apply_ops t4 [UpdateHost ''11:22:33:44:55:66'' Booting None None (Some ''127.0.0.1'') None,
      LogEvent ''INFO'' (Some ''11:22:33:44:55:66'') (''Serving boot execution script for target (mapped cache MAC: '' @ ''aa:bb:cc:dd:ee:ff'' @ '')'')] st3"
  have hm: "hc_mac h = ''aa:bb:cc:dd:ee:ff''" "hc_name h = ''nixos-test''" by (simp_all add: h_def test_host_def)
  have new: "get_host ''11:22:33:44:55:66'' st1 = None" unfolding st1_def mapped_def by code_simp
  have shown: "shown_as ''aa:bb:cc:dd:ee:ff'' Booting st1" "shown_as ''11:22:33:44:55:66'' Polling st2"
    "map_option hs_assigned_target (get_host ''11:22:33:44:55:66'' st3) = Some (Some ''nixos-test'')"
    "shown_as ''11:22:33:44:55:66'' Booting st4"
    unfolding st4_def st3_def st2_def st1_def mapped_def by code_simp+
  then obtain hs where hs: "get_host ''11:22:33:44:55:66'' st3 = Some hs" "hs_assigned_target hs = Some ''nixos-test''" by auto
  have p1: "poll_handler (Some render_boot) spawn_config st hd client_addr ''aa-bb-cc-dd-ee-ff'' = (plain_text 200 script, mapped ''aa:bb:cc:dd:ee:ff'')" for st
    by (simp add: poll_handler_def Let_def header ip macs found decide_poll_outcome_def boot_outcome_def render_boot_def hm script_def mapped_def)
  have p2: "poll_handler (Some render_boot) spawn_config st1 hd client_addr ''11-22-33-44-55-66''
      = (plain_text 200 (retry_script ''127.0.0.1:26080'' ''11:22:33:44:55:66''), [UpdateHost ''11:22:33:44:55:66'' Polling None None (Some ''127.0.0.1'') None])"
    by (simp add: poll_handler_def Let_def header ip macs found decide_poll_outcome_def override_target_def new)
  have p3: "api_override_handler (he_sha256 env) spawn_config hd ''11:22:33:44:55:66'' ''nixos-test'' =
      (json 200 OkJson, [UpdateHost ''11:22:33:44:55:66'' Polling None (Some ''nixos-test'') None None,
      LogEvent ''INFO'' (Some ''11:22:33:44:55:66'') (''Assigned manual override target: '' @ ''nixos-test'')])"
    by (simp add: api_override_handler_def check_api_token_def spawn_config_simps(1) Let_def macs hosts hm)
  have p4: "poll_handler (Some render_boot) spawn_config st3 hd client_addr ''11-22-33-44-55-66''
      = (plain_text 200 script2, [UpdateHost ''11:22:33:44:55:66'' Booting None None (Some ''127.0.0.1'') None,
      LogEvent ''INFO'' (Some ''11:22:33:44:55:66'') (''Serving boot execution script for target (mapped cache MAC: '' @ ''aa:bb:cc:dd:ee:ff'' @ '')'')])"
    by (simp add: poll_handler_def Let_def header ip macs found decide_poll_outcome_def override_target_def hs hosts hm
        boot_outcome_def render_boot_def script2_def)
  have texts: "list_all (\<lambda>needle. sublist needle script \<and> sublist needle script2)
      [''kernel http://127.0.0.1:26080/cache/aa:bb:cc:dd:ee:ff/kernel console=tty0'', ''initrd http://127.0.0.1:26080/cache/aa:bb:cc:dd:ee:ff/initrd'', ''boot'']"
    "sublist ''BootyCall: Press Ctrl-B for manual override...'' (retry_script ''127.0.0.1:26080'' ''11:22:33:44:55:66'')"
    "sublist ''poll/11:22:33:44:55:66'' (retry_script ''127.0.0.1:26080'' ''11:22:33:44:55:66'')"
    unfolding script_def script2_def h_def by code_simp+
  have start: "has_status 200 (Some (start_handler hd))"
    "body_contains ''chain --autofree --replace http://127.0.0.1:26080/poll/${mac:hexhyp}'' (Some (start_handler hd))"
    unfolding hd_def by code_simp+
  show ?thesis
    unfolding test_http_server_endpoints_def calls hd_def [symmetric] Let_def p1 prod.case st1_def [symmetric] p2 st2_def [symmetric]
      p3 st3_def [symmetric] p4 st4_def [symmetric]
    using start shown texts hs by (simp add: has_status_def body_contains_def plain_text_def json_def)
qed

end
