(* ===== verification/Tests_Devices.thy ===== *)
theory Tests_Devices
  imports Led Frame_Sink Logging Dhcp
begin

text \<open>
  The unit tests of the LEDs (\<^verbatim>\<open>crates/bootycall-led/src/lib.rs\<close>), of the panel
  (\<^verbatim>\<open>crates/bootycall-oled/src\<close>: \<^verbatim>\<open>framebuffer.rs\<close>, \<^verbatim>\<open>renderer.rs\<close>, \<^verbatim>\<open>metrics.rs\<close>, \<^verbatim>\<open>png.rs\<close>,
  \<^verbatim>\<open>lib.rs\<close>) and of the events (\<^verbatim>\<open>crates/bootycall-log/src/lib.rs\<close>), run on the model: a test
  is the conjunction of its assertions and a lemma says that it passes. Tests of the widths
  and outlines of the shipped fonts are left out, as the fonts are a parameter.
\<close>

section \<open>LEDs\<close>

text \<open>A writer that records the values it is given and answers as planned.\<close>

definition recording :: "bool \<Rightarrow> string \<Rightarrow> u8 \<Rightarrow> u8 list \<Rightarrow> u8 list \<times> (unit + unit)" where
  "recording accepts path v writes = (writes @ [v], if accepts then Inr () else Inl ())"

definition cache_updates_on_successful_write :: bool where
  "cache_updates_on_successful_write \<longleftrightarrow>
     set_led_cached_with (recording True) ''led'' 255 None [] = ([255], Some 255)"

definition cache_stays_none_when_write_fails :: bool where
  "cache_stays_none_when_write_fails \<longleftrightarrow>
     set_led_cached_with (recording False) ''led'' 255 None [] = ([255], None)"

definition cache_hit_skips_write_entirely :: bool where
  "cache_hit_skips_write_entirely \<longleftrightarrow>
     fst (set_led_cached_with (recording True) ''led'' 255 (Some 255) []) = []"

definition failed_write_still_retries_on_next_call :: bool where
  "failed_write_still_retries_on_next_call \<longleftrightarrow>
     (case set_led_cached_with (recording False) ''led'' 255 None [] of
        (attempts, held) \<Rightarrow>
          (case set_led_cached_with (recording True) ''led'' 255 held attempts of
             (attempts', held') \<Rightarrow> length attempts' = 2 \<and> held' = Some 255))"

lemma led_tests_pass:
  "cache_updates_on_successful_write" "cache_stays_none_when_write_fails" "cache_hit_skips_write_entirely"
  "failed_write_still_retries_on_next_call"
  by code_simp+

section \<open>The framebuffer\<close>

definition lut_black_maps_to_zero_and_white_is_full :: bool where
  "lut_black_maps_to_zero_and_white_is_full \<longleftrightarrow>
     (let lut = build_lut FULL_BRIGHTNESS in lut ! 0 = 0 \<and> lut ! 255 = 0xFFFF)"

definition lut_brightness_scales_intensity :: bool where
  "lut_brightness_scales_intensity \<longleftrightarrow>
     (let off = build_lut 0; half = build_lut 128
      in off ! 0 = 0 \<and> off ! 255 = 0 \<and> half ! 255 \<noteq> 0xFFFF \<and> half ! 255 \<noteq> 0)"

definition set_brightness_rebuilds_lut :: bool where
  "set_brightness_rebuilds_lut \<longleftrightarrow>
     (let fb = with_brightness False FULL_BRIGHTNESS;
          fb1 = set_brightness 64 fb;
          fb2 = set_brightness FULL_BRIGHTNESS fb1
      in fb_lut fb = build_lut FULL_BRIGHTNESS \<and> fb_lut fb1 = build_lut 64 \<and> fb_lut fb2 = build_lut FULL_BRIGHTNESS)"

text \<open>\<open>chunks(2)\<close> of the packed bytes.\<close>

fun pairs :: "bytes \<Rightarrow> bytes list" where
  "pairs (a # b # rest) = [a, b] # pairs rest"
| "pairs [] = []"
| "pairs [a] = [[a]]"

definition pack_rotation_180_yields_reversed_byte_order :: bool where
  "pack_rotation_180_yields_reversed_byte_order \<longleftrightarrow>
     (let lut = build_lut FULL_BRIGHTNESS;
          buf = [0, 64, 128, 255];
          normal = pack_buffer buf lut 180;
          rotated = pack_buffer buf lut 0;
          normal_pairs = pairs normal;
          rotated_pairs = pairs rotated
      in length normal = 8 \<and> length rotated = 8
         \<and> list_all (\<lambda>i. rotated_pairs ! i = normal_pairs ! (length normal_pairs - 1 - i)) [0..<length rotated_pairs])"

definition packed_length_is_two_bytes_per_pixel :: bool where
  "packed_length_is_two_bytes_per_pixel \<longleftrightarrow>
     (let lut = build_lut FULL_BRIGHTNESS; buf = replicate 32 0
      in length (pack_buffer buf lut 0) = 64 \<and> length (pack_buffer buf lut 180) = 64)"

definition parse_fb_geometry_reads_sysfs_format :: bool where
  "parse_fb_geometry_reads_sysfs_format \<longleftrightarrow>
     parse_fb_geometry (''160,60'' @ [CHR 0x0A]) (''16'' @ [CHR 0x0A])
       = Some \<lparr>geo_xres = 160, geo_yres = 60, geo_bits_per_pixel = 16\<rparr>
     \<and> parse_fb_geometry ''160'' ''16'' = None \<and> parse_fb_geometry ''garbage'' ''16'' = None
     \<and> parse_fb_geometry ''160,60'' ''xx'' = None"

text \<open>Reading below an absent directory fails.\<close>

definition geometry_is_none_when_sysfs_absent :: bool where
  "geometry_is_none_when_sysfs_absent \<longleftrightarrow> read_fb_geometry None None = None"

definition write_packed_reports_absence_without_error :: bool where
  "write_packed_reports_absence_without_error \<longleftrightarrow>
     (let fb = new_framebuffer False; (fb1, opened) = ensure_open False fb; (fb2, res, _) = write_packed None fb1
      in \<not> opened \<and> res = Inr False)"

lemma lut_nth: "g < 256 \<Longrightarrow> build_lut b ! g = lut_entry b g"
  by (simp add: build_lut_def)

lemma lut_tests_pass: "lut_black_maps_to_zero_and_white_is_full" "lut_brightness_scales_intensity"
  unfolding lut_black_maps_to_zero_and_white_is_full_def lut_brightness_scales_intensity_def Let_def
  by (simp_all add: lut_nth lut_entry_def FULL_BRIGHTNESS_def Let_def)

lemma geometry_strings:
  "trim (''160,60'' @ [CHR 0x0A]) = ''160,60''" "trim (''16'' @ [CHR 0x0A]) = ''16''" "trim ''160,60'' = ''160,60''"
  "trim ''160'' = ''160''" "trim ''60'' = ''60''" "trim ''16'' = ''16''" "trim ''xx'' = ''xx''" "trim ''garbage'' = ''garbage''"
  "dec_value 0 ''160'' = Some 160" "dec_value 0 ''60'' = Some 60" "dec_value 0 ''16'' = Some 16" "dec_value 0 ''xx'' = None"
  by code_simp+

lemma framebuffer_tests_pass:
  "set_brightness_rebuilds_lut" "packed_length_is_two_bytes_per_pixel" "geometry_is_none_when_sysfs_absent"
  "write_packed_reports_absence_without_error" "parse_fb_geometry_reads_sysfs_format"
proof -
  show "set_brightness_rebuilds_lut"
    by (simp add: set_brightness_rebuilds_lut_def with_brightness_def set_brightness_def FULL_BRIGHTNESS_def)
  have "length (concat (map (pack_pixel lut) bs)) = 2 * length bs" for lut bs
    by (induction bs) (simp_all add: pack_pixel_def Let_def)
  then show "packed_length_is_two_bytes_per_pixel"
    by (simp add: packed_length_is_two_bytes_per_pixel_def pack_buffer_def)
  show "write_packed_reports_absence_without_error"
    by (simp add: write_packed_reports_absence_without_error_def new_framebuffer_def with_brightness_def ensure_open_def
        write_packed_def)
  show "geometry_is_none_when_sysfs_absent" by code_simp
  show "parse_fb_geometry_reads_sysfs_format"
    unfolding parse_fb_geometry_reads_sysfs_format_def parse_fb_geometry_def geometry_strings
    by (simp add: split_once_def geometry_strings parse_u32_def parse_uint_def is_ascii_digit_def)
qed

lemma pack_test_passes: "pack_rotation_180_yields_reversed_byte_order"
  by (simp add: pack_rotation_180_yields_reversed_byte_order_def pack_buffer_def pack_pixel_def Let_def upt_rec)

section \<open>The renderer\<close>

definition bresenham_horizontal_line_lights_only_row :: bool where
  "bresenham_horizontal_line_lights_only_row \<longleftrightarrow>
     (case draw_line 3 7 8 7 200 (new_framebuffer False) of
        None \<Rightarrow> False
      | Some fb \<Rightarrow>
          list_all (\<lambda>x. fb_buffer fb ! (7 * WIDTH + x) = (if 3 \<le> x \<and> x \<le> 8 then 200 else 0)
            \<and> fb_buffer fb ! (6 * WIDTH + x) = 0 \<and> fb_buffer fb ! (8 * WIDTH + x) = 0) [0..<WIDTH])"

definition bresenham_diagonal_line_touches_expected_pixels :: bool where
  "bresenham_diagonal_line_touches_expected_pixels \<longleftrightarrow>
     (case draw_line 0 0 5 5 255 (new_framebuffer False) of
        None \<Rightarrow> False
      | Some fb \<Rightarrow> list_all (\<lambda>i. fb_buffer fb ! (i * WIDTH + i) = 255) [0..<6])"

definition measure_text_empty_string_is_zero :: "fonts \<Rightarrow> bool" where
  "measure_text_empty_string_is_zero fs \<longleftrightarrow> measure_text fs [] False = 0 \<and> measure_text fs [] True = 0"

lemma horizontal_line:
  "draw_line 3 7 8 7 200 fb = Some (fold (plot 200) [(3, 7), (4, 7), (5, 7), (6, 7), (7, 7), (8, 7)] fb)"
  by (simp add: draw_line_def Let_def line_loop.simps)

lemma diagonal_line:
  "draw_line 0 0 5 5 255 fb = Some (fold (plot 255) [(0, 0), (1, 1), (2, 2), (3, 3), (4, 4), (5, 5)] fb)"
  by (simp add: draw_line_def Let_def line_loop.simps)

lemma fresh_pixels: "x < WIDTH \<Longrightarrow> y < HEIGHT \<Longrightarrow> pixel (new_framebuffer opens) x y = 0"
  using index_less [of x y] by (simp add: pixel_def new_framebuffer_def with_brightness_def)

lemma pixel_plots:
  assumes "fb_wf fb" "x < WIDTH" "y < HEIGHT"
  shows "pixel (fold (plot c) ps fb) x y = (if (int x, int y) \<in> set ps then c else pixel fb x y)"
  using assms(1)
proof (induction ps arbitrary: fb)
  case (Cons p ps)
  then show ?case
    using assms(2,3) by (cases p) (auto simp: pixel_set_pixel plot_def)
qed simp

lemma renderer_tests_pass:
  "bresenham_horizontal_line_lights_only_row" "bresenham_diagonal_line_touches_expected_pixels"
  "measure_text_empty_string_is_zero fs"
proof -
  have wf: "fb_wf (new_framebuffer False)" by (simp add: fb_wf_def new_framebuffer_def with_brightness_def)
  have plotted: "fb_buffer (fold (plot c) ps (new_framebuffer False)) ! (y * WIDTH + x) = (if (int x, int y) \<in> set ps then c else 0)"
    if "x < WIDTH" "y < HEIGHT" for c ps x y
    using pixel_plots [OF wf that] fresh_pixels [OF that] by (simp add: pixel_def)
  have rows: "6 < HEIGHT" "7 < HEIGHT" "8 < HEIGHT" by (simp_all add: HEIGHT_def)
  have row: "(int x, 7) \<in> set [(3, 7), (4, 7), (5, 7), (6, 7), (7, 7), (8, 7)] \<longleftrightarrow> 3 \<le> x \<and> x \<le> 8" for x
    by auto
  show "bresenham_horizontal_line_lights_only_row"
    unfolding bresenham_horizontal_line_lights_only_row_def horizontal_line list_all_iff option.case
  proof (intro ballI conjI)
    fix x assume "x \<in> set [0..<WIDTH]"
    then have "x < WIDTH" by simp
    note at = plotted [OF this rows(1)] plotted [OF this rows(2)] plotted [OF this rows(3)]
    show "fb_buffer (fold (plot 200) [(3, 7), (4, 7), (5, 7), (6, 7), (7, 7), (8, 7)] (new_framebuffer False)) ! (7 * WIDTH + x)
        = (if 3 \<le> x \<and> x \<le> 8 then 200 else 0)"
      using row [of x] unfolding at by simp
  qed (simp_all only: plotted rows set_upt atLeastLessThan_iff, simp_all)
  show "bresenham_diagonal_line_touches_expected_pixels"
    unfolding bresenham_diagonal_line_touches_expected_pixels_def diagonal_line list_all_iff option.case
  proof
    fix i :: nat
    assume "i \<in> set [0..<6]"
    then have i: "i < WIDTH" "i < HEIGHT" "i < 6" by (simp_all add: WIDTH_def HEIGHT_def)
    then have "(int i, int i) \<in> set [(0, 0), (1, 1), (2, 2), (3, 3), (4, 4), (5, 5)]" by auto
    then show "fb_buffer (fold (plot 255) [(0, 0), (1, 1), (2, 2), (3, 3), (4, 4), (5, 5)] (new_framebuffer False)) ! (i * WIDTH + i) = 255"
      unfolding plotted [OF i(1,2)] by simp
  qed
  show "measure_text_empty_string_is_zero fs"
    by (simp add: measure_text_empty_string_is_zero_def measure_text_def measure_text_scaled_def) code_simp
qed

section \<open>Metrics\<close>

definition GIB :: u64 where "GIB = 1073741824"

definition format_uptime_has_no_zero_padding :: bool where
  "format_uptime_has_no_zero_padding \<longleftrightarrow>
     format_uptime 0 = ''0d 0h 0m'' \<and> format_uptime 90 = ''0d 0h 1m'' \<and> format_uptime 86400 = ''1d 0h 0m''
     \<and> format_uptime (3 * 86400 + 14 * 3600 + 22 * 60) = ''3d 14h 22m''"

definition format_bytes_pair_gib_and_na :: bool where
  "format_bytes_pair_gib_and_na \<longleftrightarrow>
     format_bytes_pair 0 0 = ''N/A'' \<and> format_bytes_pair 123 0 = ''N/A''
     \<and> format_bytes_pair (4 * GIB) (8 * GIB) = ''4.0G / 8.0G''
     \<and> format_bytes_pair (3 * GIB div 2) (8 * GIB) = ''1.5G / 8.0G''"

definition near :: "rat \<Rightarrow> flt option \<Rightarrow> bool" where
  "near x v = (case v of Some (Fin neg y) \<Rightarrow> \<bar>signed neg y - x\<bar> < 1 / 1000 | _ \<Rightarrow> False)"

definition parse_thermal_trims_scales_and_clamps :: bool where
  "parse_thermal_trims_scales_and_clamps \<longleftrightarrow>
     near (97 / 2) (parse_thermal_millidegrees ''48500'')
     \<and> near (97 / 2) (parse_thermal_millidegrees (''48500'' @ [CHR 0x0A]))
     \<and> parse_thermal_millidegrees ''200000'' = None \<and> parse_thermal_millidegrees ''garbage'' = None
     \<and> parse_thermal_millidegrees [] = None"

definition interactive_sshd_needs_name_and_pts :: bool where
  "interactive_sshd_needs_name_and_pts \<longleftrightarrow>
     is_interactive_sshd ''sshd'' [''sshd: user@pts/0''] \<and> \<not> is_interactive_sshd ''sshd'' [''sshd: user@notty'']
     \<and> \<not> is_interactive_sshd ''bash'' [''bash @pts/1''] \<and> \<not> is_interactive_sshd ''sshd'' []"

lemma sshd_test_passes: "interactive_sshd_needs_name_and_pts" by code_simp

lemma uptime_test_passes: "format_uptime_has_no_zero_padding"
  by (simp add: format_uptime_has_no_zero_padding_def format_uptime_def) code_simp

lemma gib_rounding:
  "round_to f64 1610612736 = 1610612736" "round_to f64 4294967296 = 4294967296" "round_to f64 8589934592 = 8589934592"
  "round_to f64 4 = 4" "round_to f64 8 = 8" "round_to f64 (3 / 2) = 3 / 2"
  "show_flt1 (Fin False 4) = ''4.0''" "show_flt1 (Fin False 8) = ''8.0''" "show_flt1 (Fin False (3 / 2)) = ''1.5''"
  by code_simp+

lemma bytes_test_passes: "format_bytes_pair_gib_and_na"
  by (simp add: format_bytes_pair_gib_and_na_def GIB_def format_bytes_pair_def flt_of_u64_def mk_flt_def flt_div_def BYTES_PER_GIB_def
      gib_rounding pow2_def)

lemma thermal_strings:
  "trim ''48500'' = ''48500''" "trim (''48500'' @ [CHR 0x0A]) = ''48500''" "trim ''garbage'' = ''garbage''"
  "trim ''200000'' = ''200000''" "trim [] = []" "parse_decimal ''48500'' = Some 48500" "parse_decimal ''200000'' = Some 200000"
  "parse_flt f32 ''garbage'' = None" "parse_flt f32 [] = None" "to_ascii_lowercase ''48500'' = ''48500''"
  "to_ascii_lowercase ''200000'' = ''200000''" "take_sign ''48500'' = (False, ''48500'')" "take_sign ''200000'' = (False, ''200000'')"
  by code_simp+

lemma thermal_rounding:
  "round_to f32 48500 = 48500" "round_to f32 (97 / 2) = 97 / 2" "round_to f32 200000 = 200000" "round_to f32 200 = 200"
  by code_simp+

lemma thermal_readings:
  "parse_flt f32 ''48500'' = Some (Fin False 48500)" "parse_flt f32 ''200000'' = Some (Fin False 200000)"
  by (simp_all add: parse_flt_def thermal_strings mk_flt_def thermal_rounding pow2_def)

lemma thermal_test_passes: "parse_thermal_trims_scales_and_clamps"
  unfolding parse_thermal_trims_scales_and_clamps_def parse_thermal_millidegrees_def thermal_strings thermal_readings
  by (simp add: flt_div_def mk_flt_def thermal_rounding pow2_def near_def signed_def THERMAL_SANITY_CEILING_C_def)

section \<open>The encoder\<close>

definition encodes_png_magic_and_chunks :: bool where
  "encodes_png_magic_and_chunks \<longleftrightarrow>
     (case encode_gray_png [0, 0, 0, 0] 2 2 of
        None \<Rightarrow> False
      | Some png \<Rightarrow>
          take 8 png = [0x89, 0x50, 0x4E, 0x47, 0x0D, 0x0A, 0x1A, 0x0A]
          \<and> list_all (\<lambda>tag. list_ex (\<lambda>w. w = tag) (windows 4 png))
              [[0x49, 0x48, 0x44, 0x52], [0x49, 0x44, 0x41, 0x54], [0x49, 0x45, 0x4E, 0x44]])"

lemma in_windows:
  assumes "sublist tag xs"
  shows "list_ex (\<lambda>w. w = tag) (windows (length tag) xs)"
proof -
  from assms obtain us vs where "xs = us @ tag @ vs" by (auto simp: sublist_def)
  then have "take (length tag) (drop (length us) xs) = tag" "length us < length xs + 1 - length tag" by auto
  then show ?thesis by (force simp: windows_def list_ex_iff)
qed

lemma chunk_tags:
  "sublist kind (write_chunk out kind data)" "sublist tag out \<Longrightarrow> sublist tag (write_chunk out kind data)"
  "8 \<le> length out \<Longrightarrow> take 8 (write_chunk out kind data) = take 8 out" "length out \<le> length (write_chunk out kind data)"
proof -
  show "sublist kind (write_chunk out kind data)"
    unfolding write_chunk_def using sublist_appendI [of kind "out @ to_be32 (of_nat (length data))"] by simp
  show "sublist tag out \<Longrightarrow> sublist tag (write_chunk out kind data)"
    unfolding write_chunk_def using sublist_order.order_trans by blast
qed (simp_all add: write_chunk_def)

lemma png_test_passes: "encodes_png_magic_and_chunks"
proof -
  let ?magic = "[0x89, 0x50, 0x4E, 0x47, 0x0D, 0x0A, 0x1A, 0x0A] :: bytes"
  obtain ihdr idat where png: "encode_gray_png [0, 0, 0, 0] 2 2 =
      Some (write_chunk (write_chunk (write_chunk ?magic [0x49, 0x48, 0x44, 0x52] ihdr) [0x49, 0x44, 0x41, 0x54] idat)
        [0x49, 0x45, 0x4E, 0x44] [])" (is "_ = Some ?png")
    unfolding encode_gray_png_def Let_def by (simp only: list.size) simp
  have "sublist [0x49, 0x48, 0x44, 0x52] ?png" "sublist [0x49, 0x44, 0x41, 0x54] ?png" "sublist [0x49, 0x45, 0x4E, 0x44] ?png"
    by (intro chunk_tags)+
  moreover have "length tag = 4 \<Longrightarrow> sublist tag xs \<Longrightarrow> list_ex (\<lambda>w. w = tag) (windows 4 xs)" for tag xs :: bytes
    using in_windows by metis
  ultimately have tags: "list_all (\<lambda>tag. list_ex (\<lambda>w. w = tag) (windows 4 ?png))
      [[0x49, 0x48, 0x44, 0x52], [0x49, 0x44, 0x41, 0x54], [0x49, 0x45, 0x4E, 0x44]]" by simp
  have "8 \<le> length out \<Longrightarrow> 8 \<le> length (write_chunk out kind data)" for out kind data
    using chunk_tags(4) order_trans by blast
  then have "take 8 ?png = ?magic" by (simp add: chunk_tags(3))
  with tags show ?thesis unfolding encodes_png_magic_and_chunks_def png option.case by blast
qed

section \<open>The display\<close>

definition render_sample_has_expected_size_and_lit_pixels :: "fonts \<Rightarrow> bool" where
  "render_sample_has_expected_size_and_lit_pixels fs \<longleftrightarrow>
     (case render_sample_to_gray fs ''UPTIME'' ''3d 14:22:07'' of
        None \<Rightarrow> False
      | Some gray \<Rightarrow> length gray = WIDTH * HEIGHT \<and> list_ex (\<lambda>p. p > 0) gray)"

definition optional_hw_retry_waits_for_full_interval :: bool where
  "optional_hw_retry_waits_for_full_interval \<longleftrightarrow>
     \<not> optional_hw_retry_due (from_secs 0) \<and> \<not> optional_hw_retry_due (OPTIONAL_HW_RETRY_INTERVAL - from_millis 1)
     \<and> optional_hw_retry_due OPTIONAL_HW_RETRY_INTERVAL \<and> optional_hw_retry_due (OPTIONAL_HW_RETRY_INTERVAL + from_secs 30)"

definition mode_brightness_dims_only_the_screensaver :: bool where
  "mode_brightness_dims_only_the_screensaver \<longleftrightarrow>
     mode_brightness 200 Metrics = 200 \<and> mode_brightness 255 Metrics = 255
     \<and> mode_brightness 200 Screensaver = ucast (200 * SCREENSAVER_BRIGHTNESS_PERCENT div 100)
     \<and> mode_brightness 0 Screensaver = 0"

text \<open>What exists on the machine of the test.\<close>

definition node_exists :: "string \<Rightarrow> bool" where
  "node_exists path \<longleftrightarrow> path = ''/dev/null''"

definition hardware_absent_when_neither_node_exists :: bool where
  "hardware_absent_when_neither_node_exists \<longleftrightarrow>
     (let present = \<lambda>fb gpiochip. oled_hardware_present (node_exists fb) (node_exists gpiochip)
      in \<not> present ''/nonexistent/fb0'' ''/nonexistent/gpiochip0'' \<and> present ''/dev/null'' ''/nonexistent/gpiochip0''
         \<and> present ''/nonexistent/fb0'' ''/dev/null'')"

definition align_x_covers_every_branch :: bool where
  "align_x_covers_every_branch \<longleftrightarrow>
     (let width = of_nat WIDTH; margin = of_nat TEXT_EDGE_MARGIN
      in align_x ''left'' 40 = margin \<and> align_x ''unknown'' 40 = margin \<and> align_x ''center'' 40 = (width - 40) div 2
         \<and> align_x ''right'' 40 = width - 40 - margin \<and> align_x ''center'' width = 0 \<and> align_x ''center'' (width + 10) = 0
         \<and> align_x ''right'' width = 0)"

definition align_y_covers_every_branch :: bool where
  "align_y_covers_every_branch \<longleftrightarrow>
     align_y ''top'' 15 = VISIBLE_Y_START \<and> align_y ''bottom'' 15 = VISIBLE_Y_START + VISIBLE_HEIGHT - 15
     \<and> align_y ''middle'' 15 = VISIBLE_Y_START + (VISIBLE_HEIGHT - 15) div 2
     \<and> align_y ''unknown'' 15 = VISIBLE_Y_START + (VISIBLE_HEIGHT - 15) div 2
     \<and> align_y ''bottom'' VISIBLE_HEIGHT = VISIBLE_Y_START \<and> align_y ''middle'' (VISIBLE_HEIGHT + 4) = VISIBLE_Y_START"

definition test_box :: bounce_box where
  "test_box = \<lparr>bb_min_x = 0, bb_max_x = 100, bb_min_y = 5, bb_max_y = 40\<rparr>"

definition step_bounce_reflects_off_left_wall_without_underflow :: bool where
  "step_bounce_reflects_off_left_wall_without_underflow \<longleftrightarrow>
     (case step_bounce 0 10 (- 1) 1 test_box of (x, _, dx, _) \<Rightarrow> x = 0 \<and> dx = 1)"

definition bounced :: "nat \<Rightarrow> int \<times> int \<times> int \<times> int" where
  "bounced n = ((\<lambda>(x, y, dx, dy). step_bounce x y dx dy test_box) ^^ n) (0, 5, - 1, - 1)"

definition step_bounce_stays_in_bounds_for_many_frames :: bool where
  "step_bounce_stays_in_bounds_for_many_frames \<longleftrightarrow>
     list_all (\<lambda>n. case bounced n of (x, y, _, _) \<Rightarrow>
         bb_min_x test_box \<le> x \<and> x \<le> bb_max_x test_box \<and> bb_min_y test_box \<le> y \<and> y \<le> bb_max_y test_box
         \<and> 0 \<le> x \<and> 0 \<le> y) [1..<1001]"

lemma display_tests_pass:
  "optional_hw_retry_waits_for_full_interval" "mode_brightness_dims_only_the_screensaver"
  "hardware_absent_when_neither_node_exists" "align_x_covers_every_branch" "align_y_covers_every_branch"
  "step_bounce_reflects_off_left_wall_without_underflow"
  by (simp_all add: optional_hw_retry_waits_for_full_interval_def optional_hw_retry_due_def OPTIONAL_HW_RETRY_INTERVAL_def
      from_secs_def from_millis_def mode_brightness_dims_only_the_screensaver_def mode_brightness_def
      SCREENSAVER_BRIGHTNESS_PERCENT_def hardware_absent_when_neither_node_exists_def oled_hardware_present_def node_exists_def
      align_x_covers_every_branch_def align_x_def WIDTH_def TEXT_EDGE_MARGIN_def align_y_covers_every_branch_def align_y_def
      VISIBLE_Y_START_def VISIBLE_HEIGHT_def step_bounce_reflects_off_left_wall_without_underflow_def step_bounce_def test_box_def)

lemma bounced_in_box: "in_bounce_box test_box (bounced n)"
proof (induction n)
  case 0
  show ?case by (simp add: bounced_def in_bounce_box_def test_box_def)
next
  case (Suc n)
  obtain x y dx dy where b: "bounced n = (x, y, dx, dy)" by (metis prod_cases4)
  have "bounced (Suc n) = step_bounce x y dx dy test_box" using b by (simp add: bounced_def)
  with step_bounce_in_box [of test_box x y dx dy] Suc b show ?case by (simp add: test_box_def)
qed

lemma bounce_test_passes: "step_bounce_stays_in_bounds_for_many_frames"
proof -
  have inside: "case bounced n of (x, y, _, _) \<Rightarrow> bb_min_x test_box \<le> x \<and> x \<le> bb_max_x test_box \<and> bb_min_y test_box \<le> y
      \<and> y \<le> bb_max_y test_box \<and> 0 \<le> x \<and> 0 \<le> y" for n
    using bounced_in_box [of n] by (auto simp: in_bounce_box_def test_box_def split: prod.splits)
  show ?thesis unfolding step_bounce_stays_in_bounds_for_many_frames_def list_all_iff by (intro ballI inside)
qed

lemma fold_max_ge: "(v :: u8) \<le> fold max vs v"
proof (induction vs arbitrary: v)
  case (Cons a vs)
  have "v \<le> max a v" by simp
  also have "\<dots> \<le> fold max vs (max a v)" by (rule Cons.IH)
  finally show ?case by simp
qed simp

lemma sample_test_passes: "render_sample_has_expected_size_and_lit_pixels fs"
proof -
  define fb0 where "fb0 = draw_bitmap METRICS_MARGIN_X (VISIBLE_Y_START + 0) ICON_HOST 16 16 (clear (new_framebuffer False))"
  have "fb_wf (new_framebuffer False)" by (simp add: fb_wf_def new_framebuffer_def with_brightness_def)
  then have wf: "fb_wf fb0" by (simp add: fb0_def)
  obtain ps where line: "draw_line METRICS_MARGIN_X (VISIBLE_Y_START + METRICS_SEPARATOR_DY) (WIDTH - METRICS_MARGIN_X)
      (VISIBLE_Y_START + METRICS_SEPARATOR_DY) METRICS_SEPARATOR_BRIGHTNESS fb0 = Some (fold (plot METRICS_SEPARATOR_BRIGHTNESS) ps fb0)"
    "path_between (int METRICS_MARGIN_X, int (VISIBLE_Y_START + METRICS_SEPARATOR_DY))
       (int (WIDTH - METRICS_MARGIN_X), int (VISIBLE_Y_START + METRICS_SEPARATOR_DY)) ps"
    using line_path by blast
  define fb1 where "fb1 = fold (plot METRICS_SEPARATOR_BRIGHTNESS) ps fb0"
  have wf1: "fb_wf fb1" unfolding fb1_def using wf by (induction ps arbitrary: fb0) simp_all
  have at: "METRICS_MARGIN_X < WIDTH" "VISIBLE_Y_START + METRICS_SEPARATOR_DY < HEIGHT"
    by (simp_all add: METRICS_MARGIN_X_def WIDTH_def VISIBLE_Y_START_def METRICS_SEPARATOR_DY_def HEIGHT_def)
  have "(int METRICS_MARGIN_X, int (VISIBLE_Y_START + METRICS_SEPARATOR_DY)) \<in> set ps"
    using line(2) unfolding path_between_def by (metis list.set_sel(1))
  then have line_at: "METRICS_SEPARATOR_BRIGHTNESS = pixel fb1 METRICS_MARGIN_X (VISIBLE_Y_START + METRICS_SEPARATOR_DY)"
    unfolding fb1_def pixel_plots [OF wf at] by simp
  have brighter: "pixel fb METRICS_MARGIN_X (VISIBLE_Y_START + METRICS_SEPARATOR_DY)
      \<le> pixel (fold blend gs fb) METRICS_MARGIN_X (VISIBLE_Y_START + METRICS_SEPARATOR_DY)" if "fb_wf fb" for fb gs
    using pixel_blends [OF that at] fold_max_ge by simp
  have "\<exists>gs1 gs2. render_sample_to_gray fs ''UPTIME'' ''3d 14:22:07'' = Some (fb_buffer (fold blend gs2 (fold blend gs1 fb1)))"
    unfolding render_sample_to_gray_def draw_metrics_page_def draw_text_def draw_text_scaled_def Let_def option.case
      fb0_def [symmetric] line(1) fb1_def [symmetric] option.map by blast
  then obtain gs1 gs2 where drawn: "render_sample_to_gray fs ''UPTIME'' ''3d 14:22:07'' = Some (fb_buffer (fold blend gs2 (fold blend gs1 fb1)))"
    by blast
  note line_at
  also have "pixel fb1 METRICS_MARGIN_X (VISIBLE_Y_START + METRICS_SEPARATOR_DY)
      \<le> pixel (fold blend gs1 fb1) METRICS_MARGIN_X (VISIBLE_Y_START + METRICS_SEPARATOR_DY)"
    using wf1 by (rule brighter)
  also have "\<dots> \<le> pixel (fold blend gs2 (fold blend gs1 fb1)) METRICS_MARGIN_X (VISIBLE_Y_START + METRICS_SEPARATOR_DY)"
    by (rule brighter) (simp add: wf1)
  finally have lit: "METRICS_SEPARATOR_BRIGHTNESS \<le> pixel (fold blend gs2 (fold blend gs1 fb1)) METRICS_MARGIN_X (VISIBLE_Y_START + METRICS_SEPARATOR_DY)"
    .
  have "fb_wf (fold blend gs2 (fold blend gs1 fb1))" using wf1 by simp
  then have len: "length (fb_buffer (fold blend gs2 (fold blend gs1 fb1))) = WIDTH * HEIGHT" by (simp add: fb_wf_def)
  have "(0 :: u8) < METRICS_SEPARATOR_BRIGHTNESS" by (simp add: METRICS_SEPARATOR_BRIGHTNESS_def)
  with lit have pos: "0 < fb_buffer (fold blend gs2 (fold blend gs1 fb1)) ! ((VISIBLE_Y_START + METRICS_SEPARATOR_DY) * WIDTH + METRICS_MARGIN_X)"
    unfolding pixel_def by (rule order_less_le_trans [rotated])
  have inside: "(VISIBLE_Y_START + METRICS_SEPARATOR_DY) * WIDTH + METRICS_MARGIN_X < length (fb_buffer (fold blend gs2 (fold blend gs1 fb1)))"
    unfolding len by (rule index_less [OF at])
  have "list_ex (\<lambda>p. 0 < p) (fb_buffer (fold blend gs2 (fold blend gs1 fb1)))"
    unfolding list_ex_iff by (rule bexI [where P = "\<lambda>p. 0 < p", OF pos]) (rule nth_mem [OF inside])
  with len show ?thesis
    unfolding render_sample_has_expected_size_and_lit_pixels_def drawn option.case by (rule conjI)
qed

section \<open>Events\<close>

definition json_event_emits_parseable_object_with_fields :: bool where
  "json_event_emits_parseable_object_with_fields \<longleftrightarrow>
     (let line = event ''tftp_transfer_complete'' [(''mac'', Str ''aa:bb:cc:dd:ee:ff''), (''bytes'', Num 512)];
          fields = map_of ((''event'', Str (ll_event line)) # ll_fields line)
      in ll_target line = EVENT_TARGET \<and> fields ''event'' = Some (Str ''tftp_transfer_complete'')
         \<and> fields ''mac'' = Some (Str ''aa:bb:cc:dd:ee:ff'') \<and> fields ''bytes'' = Some (Num 512))"

lemma event_test_passes: "json_event_emits_parseable_object_with_fields"
  by (simp add: json_event_emits_parseable_object_with_fields_def)

end
