(* ===== verification/Spec2Isabelle.thy ===== *)
theory Spec2Isabelle
  imports Main_Program Suite_History Tftp_Lossy Frame_Sink Oled_Examples Boot_Menu Event_Log
    Tests_Core Tests_Dhcp Tests_Tftp Tests_Extractor Tests_Http Tests_Devices
begin

text \<open>
  BootyCall is a network boot suite: a proxy DHCP server tells PXE clients where to fetch
  their boot loader, a TFTP server sends it, an HTTP server answers iPXE polls and serves
  kernels, initial ram disks and wallpapers, an extractor fills the cache those files come
  from, and two LEDs and a small panel show what happens. All of it is one process; its
  tasks share a configuration that a watcher reloads and a store of hosts and log events.
  The crates are below \<^verbatim>\<open>src/crates\<close>; this library translates their Rust code into HOL and
  proves what makes each part, and the parts together, correct.

  \<^bold>\<open>The theories and what they model\<close>

  \<^item> \<open>Prelude\<close>, \<open>Rust_Str\<close>, \<open>Rust_Float\<close>, \<open>File_System\<close>, \<open>Byte_Reader\<close>, \<open>Sock_Addr\<close>: what the sources use of
    the standard library. Bytes and fixed-width integers, big-endian coding, string
    functions and number parsing, \<open>f32\<close> and \<open>f64\<close> as signed rationals with one rounding per
    operation, paths with symbolic links and canonicalisation, readers
    that return short reads, socket addresses. \<open>byte_reader\<close> and \<open>path_resolver\<close> are the
    contracts of reading and of path resolution.
  \<^item> \<open>Mac\<close> (\<^verbatim>\<open>bootycall-core/src/mac.rs\<close>), \<open>State_Store\<close> and \<open>Host_Registry\<close> (\<^verbatim>\<open>state.rs\<close>), \<open>Config\<close>
    (\<^verbatim>\<open>config.rs\<close>, \<^verbatim>\<open>error.rs\<close>), \<open>Path_Join\<close> (\<^verbatim>\<open>path.rs\<close>). The store is a record of a finite map and a
    list, each method a function of the state and the clock; \<open>host_registry\<close> is the contract
    its callers rely on. The reload thread is the state machine \<open>watch_step\<close> over the events
    it receives.
  \<^item> \<open>Tftp_Wire\<close> (\<^verbatim>\<open>bootycall-tftp/src/wire.rs\<close>), \<open>Tftp_Rrq\<close>, \<open>Tftp_Transfer\<close>, \<open>Tftp_Window\<close>,
    \<open>Tftp_Reassembly\<close>, \<open>Tftp_Liveness\<close>, \<open>Tftp_Service\<close>, \<open>Tftp_Lossy\<close>, \<open>Tftp_Listener\<close> (\<^verbatim>\<open>server.rs\<close>): the packets,
    the request and its options, the windowed data loop with block numbers modulo 65536,
    \<open>handle_tftp_transfer\<close>, and the listener with its transfer slots. \<open>Tftp_Window\<close> keeps the
    sender's invariant, \<open>Tftp_Reassembly\<close> is the receiver, \<open>Tftp_Liveness\<close> the client that
    acknowledges, and \<open>Tftp_Lossy\<close> runs the server against a client of RFC 7440 on a link
    that loses, repeats and delays packets.
  \<^item> \<open>Dhcp\<close> (\<^verbatim>\<open>bootycall-dhcp/src/server.rs\<close>): one pass of the loop, from datagram to store
    calls and reply; its receive loop is in \<open>Servers\<close>.
  \<^item> \<open>Extract_Copy\<close>, \<open>Image_Walk\<close>, \<open>Disk_Slice\<close>, \<open>Extractor\<close> (\<^verbatim>\<open>bootycall-extractor/src\<close>): the limited
    copy, the bounded directory walk, the partition slice, and the cache protocol of a host.
  \<^item> \<open>Http\<close>, \<open>Http_Contract\<close>, \<open>Servers\<close> (\<^verbatim>\<open>bootycall-http/src/server.rs\<close>): the handlers and the
    route table as \<open>http_handle\<close>, from request and shared state to response and store calls,
    and the start of the server. \<open>Boot_Chain\<close> adds the boot template and follows a boot from
    the extracted cache over the script to the served files; \<open>Boot_Menu\<close> is the menu template
    and what an iPXE client runs behind its entries.
  \<^item> \<open>Boot_Suite\<close>, \<open>Suite_History\<close>, \<open>Supervisor\<close>, \<open>Main_Program\<close> (\<^verbatim>\<open>bootycall-rs/src/main.rs\<close>): the
    servers over their shared state as the step relation \<open>suite_step\<close>, whose steps carry the
    event they are; runs with their history; the subcommands, the start and the ways out; and
    \<open>main\<close> as one function of the command line, the files and what the run meets.
  \<^item> \<open>Logging\<close> (\<^verbatim>\<open>bootycall-log/src/lib.rs\<close>), \<open>Event_Log\<close>: the lifecycle events, the filter and
    the format, and the events each server emits beside what it does to the store.
  \<^item> \<open>Led\<close> (\<^verbatim>\<open>bootycall-led/src/lib.rs\<close>) and \<open>Panel\<close>, \<open>Glyphs\<close>, \<open>Canvas\<close>, \<open>Icons\<close>, \<open>Png\<close>,
    \<open>Metrics\<close>, \<open>Oled_Loop\<close>, \<open>Oled_Run\<close>, \<open>Oled_Pages\<close>, \<open>Frame_Sink\<close> (\<^verbatim>\<open>bootycall-oled/src\<close>) and
    \<open>Oled_Examples\<close> (\<^verbatim>\<open>bootycall-oled/examples\<close>): the LEDs behind the
    manager's cache, the back buffer and its packing, the pen that lays out a text, the
    drawing operations, the icons, the frame encoder, the refreshes and getters of
    \<open>SystemMetrics\<close>, one pass of the render loop, the whole loop with the panel's and the
    simulator's sink, and its entry points. \<open>Frame_Sink\<close> has the loop as the code has it, over
    any sink, with the contract \<open>frame_sink_laws\<close> both sinks meet.
  \<^item> \<open>Tests_Core\<close>, \<open>Tests_Dhcp\<close>, \<open>Tests_Tftp\<close>, \<open>Tests_Extractor\<close>, \<open>Tests_Http\<close>, \<open>Tests_Devices\<close>:
    the tests of the repository, run on the model. A test is the conjunction of its
    assertions over the definitions above, and a lemma says that it passes, so the model is
    held against what the authors expect of the code.

  \<^bold>\<open>How the parts interact\<close>

  Every server reads the configuration and the store and answers with the calls it makes
  on the store, as values of \<open>store_op\<close>. \<open>suite_step\<close> executes these calls one at a time in
  any order with those of the other tasks, the sweep and the reloads, so its invariant
  covers every interleaving. The display and the LEDs only read the store, through
  \<open>has_recent_activity\<close>.

  \<^bold>\<open>What the lemmas show\<close>

  \<^item> Transfers: a receiver holds a prefix of the file whatever the network does, the whole
    file with success, also when the link loses packets; both loops end; a transfer
    completes when two adjacent rounds of any five lose nothing; nothing else is sent; the
    outcome is recorded.
  \<^item> Safety of paths: what is opened for a TFTP or an HTTP request lies below the canonical
    root, for every file system with symbolic links.
  \<^item> The store and the suite: hosts, log and transfers stay within their limits, every
    recorded MAC is valid, the configuration is always a valid one, under every interleaving; every
    override, name and completion in the store has the event that put it there.
  \<^item> A configured and synchronised host is answered with a script whose two addresses serve
    the extracted kernel and initrd, and the menu offers every host with the same commands,
    but for the text of null in place of an absent command line.
  \<^item> DHCP and HTTP: who is answered and with what, who may write the store, what a poll and
    an override do to each other, what the token check and the health probe decide.
  \<^item> Extraction: what is found and copied, within which bounds, confinement of a slice to its
    partition, and that a synchronised cache is a hit while a failed one leaves nothing.
  \<^item> Display: every line is drawn, drawing refines painting on pixels, the bytes the panel
    receives, the encoder's round trip, the invariant of the render loop and its shutdown.
    The pages show fresh values, the hottest temperature, and sizes with a bounded error.
  \<^item> The production build and the simulator run one render loop; the events of a transfer
    agree with what the store records.
  \<^item> Start and end: \<open>check-config\<close> predicts the start and the exit code, and every way out
    of the running suite's final wait leaves the hardware off.
    \<open>open_failure_leaves_booting\<close>, \<open>stale_acks_abort\<close>, \<open>override_lost_when_full\<close>,
    \<open>panic_leaves_white\<close>, \<open>menu_boots_host\<close> and \<open>test_text_place\<close> state behaviour the code's comments do not intend.

  \<^bold>\<open>Bounds\<close>

  The limits are the code's: 4096 hosts, 200 log events, 128 transfers, a directory depth
  of 64, 1024 wallpapers, a window of 32 blocks. No definition takes fuel of the model's
  own: a loop is structural, has a termination proof, or is a \<open>partial_function\<close> whose
  return is proved; a data transfer of N blocks ends within 6 N + 11 passes, the inputs it
  is given, and the run of the display is as long as the list of its passes.

  \<^bold>\<open>Parameters and what is not modelled\<close>

  Third-party code is an argument: the YAML and JSON codecs, the DHCP codec, the ISO, GPT
  and FAT readers, the template engine, SHA-256, the random choice, the font engine
  (glyphs, advances and outlines), the readings of the machine, and the GPIO lines. Clocks,
  datagrams, timers and the endings of system calls are inputs. The Unicode tables behind
  \<open>to_uppercase\<close> are a parameter too. Not modelled are argument parsing, the text
  of log lines and of JSON, the spawning of threads, and everything in the repository that
  is not Rust. Three kinds of test are left out: those of the widths and outlines of the
  shipped fonts, that of corrupt images, which tests the image readers, and what a test
  does to set up sockets and image files.
\<close>

end
